theory Spec2Isabelle
  imports Main
begin

section \<open>JavaScript values\<close>

text \<open>
  The values the modelled functions exchange. A number is an integer here: every number
  the modelled code computes with (millisecond timestamps, sequence counters, HTTP status
  codes) is an integer below \<open>2^53\<close>, where a double is exact. \<open>JObj\<close> carries a nested
  object that the code only passes through (the parser's result). A string is a list of
  8-bit characters; the code units above 255 that a JavaScript string can also hold are,
  for every function modelled here, characters like any other that is not a digit.
\<close>

datatype jsval =
    JUndefined
  | JNull
  | JBool bool
  | JNum int
  | JStr string
  | JObj string

text \<open>Truthiness, as \<^verbatim>\<open>!x\<close> and \<^verbatim>\<open>a || b\<close> use it.\<close>

fun truthy :: "jsval \<Rightarrow> bool" where
  "truthy JUndefined = False"
| "truthy JNull = False"
| "truthy (JBool b) = b"
| "truthy (JNum n) = (n \<noteq> 0)"
| "truthy (JStr s) = (s \<noteq> [])"
| "truthy (JObj _) = True"

text \<open>\<^verbatim>\<open>a || b\<close>\<close>

definition js_or :: "jsval \<Rightarrow> jsval \<Rightarrow> jsval" where
  "js_or a b = (if truthy a then a else b)"

section \<open>Decimal strings\<close>

definition is_digit :: "char \<Rightarrow> bool" where
  "is_digit c = (c \<in> set ''0123456789'')"

definition digit_val :: "char \<Rightarrow> nat" where
  "digit_val c = of_char c - 48"

definition digit_char :: "nat \<Rightarrow> char" where
  "digit_char d =
     (if d = 0 then CHR ''0'' else if d = 1 then CHR ''1'' else if d = 2 then CHR ''2''
      else if d = 3 then CHR ''3'' else if d = 4 then CHR ''4'' else if d = 5 then CHR ''5''
      else if d = 6 then CHR ''6'' else if d = 7 then CHR ''7'' else if d = 8 then CHR ''8''
      else CHR ''9'')"

text \<open>\<^verbatim>\<open>n.toString()\<close> of a non-negative integer below \<open>10^21\<close>: its decimal digits.\<close>

fun toString :: "nat \<Rightarrow> string" where
  "toString n = (if n < 10 then [digit_char n] else toString (n div 10) @ [digit_char (n mod 10)])"

declare toString.simps [simp del]

text \<open>\<^verbatim>\<open>s.padStart(n, c)\<close> with a one-character pad string.\<close>

definition padStart :: "nat \<Rightarrow> char \<Rightarrow> string \<Rightarrow> string" where
  "padStart n c s = replicate (n - length s) c @ s"

text \<open>The number a string of decimal digits denotes, most significant digit first.\<close>

definition decimal_value :: "string \<Rightarrow> nat" where
  "decimal_value s = foldl (\<lambda>a c. 10 * a + digit_val c) 0 s"

text \<open>
  \<^verbatim>\<open>parseInt(s, 10)\<close>: leading white space is skipped, one sign is read, then the longest
  run of decimal digits; \<open>None\<close> is \<^verbatim>\<open>NaN\<close> (no digit there).
\<close>

definition is_space :: "char \<Rightarrow> bool" where
  "is_space c = (of_char c \<in> {9, 10, 11, 12, 13, 32, 160 :: nat})"

definition parseInt :: "string \<Rightarrow> int option" where
  "parseInt s =
     (let t = dropWhile is_space s;
          (neg, u) = (case t of
                        c # r \<Rightarrow> if c = CHR ''-'' then (True, r)
                                  else if c = CHR ''+'' then (False, r) else (False, t)
                      | [] \<Rightarrow> (False, t));
          ds = takeWhile is_digit u
      in if ds = [] then None
         else Some (if neg then - int (decimal_value ds) else int (decimal_value ds)))"

section \<open>Job id generator (utils/jobIdGenerator)\<close>

subsection \<open>generateNumericJobId\<close>

text \<open>
  The module state is \<^verbatim>\<open>lastTimestamp\<close> and \<^verbatim>\<open>sequence\<close>, both 0 when the module is
  loaded. The environment is the clock and the random source: \<open>clock k\<close> is what the
  \<open>k\<close>-th call of \<^verbatim>\<open>Date.now()\<close> returns, \<open>rnd j\<close> what the \<open>j\<close>-th evaluation of
  \<^verbatim>\<open>Math.floor(Math.random() * 1000000)\<close> returns; the state counts the calls made.
\<close>

record alloc_state =
  lastTimestamp :: nat
  sequence :: nat
  reads :: nat
  draws :: nat

definition alloc_init :: alloc_state where
  "alloc_init = \<lparr>lastTimestamp = 0, sequence = 0, reads = 0, draws = 0\<rparr>"

text \<open>
  \<^verbatim>\<open>while (timestamp <= lastTimestamp) { timestamp = Date.now(); }\<close>
  The loop runs until the clock has passed \<open>lastTs\<close>; if it never does, the loop never
  ends, which is the value \<open>None\<close>. It returns the timestamp and the number of clock
  reads made so far.
\<close>

partial_function (option) spin :: "(nat \<Rightarrow> nat) \<Rightarrow> nat \<Rightarrow> nat \<Rightarrow> nat \<Rightarrow> (nat \<times> nat) option" where
  "spin clock lastTs timestamp k =
     (if timestamp \<le> lastTs then spin clock lastTs (clock k) (Suc k) else Some (timestamp, k))"

definition generateNumericJobId ::
  "(nat \<Rightarrow> nat) \<Rightarrow> (nat \<Rightarrow> nat) \<Rightarrow> alloc_state \<Rightarrow> (string \<times> alloc_state) option" where
  "generateNumericJobId clock rnd s =
     (let timestamp = clock (reads s); k = Suc (reads s) in
      case (if timestamp = lastTimestamp s then
              (let sq = (sequence s + 1) mod 1000000 in
               if sq = 0 then
                 (case spin clock (lastTimestamp s) timestamp k of
                    None \<Rightarrow> None
                  | Some (t, k') \<Rightarrow> Some (t, sq, k', draws s))
               else Some (timestamp, sq, k, draws s))
            else Some (timestamp, rnd (draws s), k, Suc (draws s)))
      of None \<Rightarrow> None
       | Some (t, sq, k', d) \<Rightarrow>
           Some (toString t @ padStart 6 (CHR ''0'') (toString sq),
                 \<lparr>lastTimestamp = t, sequence = sq, reads = k', draws = d\<rparr>))"

text \<open>A sequence of \<open>n\<close> calls, one after the other, on the same module state.\<close>

fun generate_many ::
  "(nat \<Rightarrow> nat) \<Rightarrow> (nat \<Rightarrow> nat) \<Rightarrow> nat \<Rightarrow> alloc_state \<Rightarrow> (string list \<times> alloc_state) option" where
  "generate_many clock rnd 0 s = Some ([], s)"
| "generate_many clock rnd (Suc n) s =
     (case generateNumericJobId clock rnd s of
        None \<Rightarrow> None
      | Some (i, s') \<Rightarrow>
          (case generate_many clock rnd n s' of
             None \<Rightarrow> None
           | Some (is, s'') \<Rightarrow> Some (i # is, s'')))"

subsection \<open>getTimestampFromJobId and isValidJobId\<close>

text \<open>
  \<^verbatim>\<open>getTimestampFromJobId\<close> throws an \<^verbatim>\<open>Error\<close> with a message (\<open>Inl\<close>) or returns the
  number read from the first 13 characters. It is called on strings only.
\<close>

definition getTimestampFromJobId :: "string \<Rightarrow> string + int" where
  "getTimestampFromJobId jobId =
     (if jobId = [] \<or> length jobId < 13 then Inl ''Invalid job ID format''
      else case parseInt (take 13 jobId) of
             None \<Rightarrow> Inl ''Invalid timestamp in job ID''
           | Some timestamp \<Rightarrow> Inr timestamp)"

text \<open>The regular expression \<^verbatim>\<open>/^\d{19}$/\<close>: exactly 19 characters, each of them 0-9.\<close>

definition matches_d19 :: "string \<Rightarrow> bool" where
  "matches_d19 s = (length s = 19 \<and> list_all is_digit s)"

definition year2000 :: int where "year2000 = 946684800000"
definition year2100 :: int where "year2100 = 4102444800000"

definition isValidJobId :: "jsval \<Rightarrow> bool" where
  "isValidJobId v =
     (case v of
        JStr jobId \<Rightarrow>
          if \<not> matches_d19 jobId then False
          else (case getTimestampFromJobId jobId of
                  Inr timestamp \<Rightarrow> timestamp \<ge> year2000 \<and> timestamp \<le> year2100
                | Inl _ \<Rightarrow> False)
      | _ \<Rightarrow> False)"

text \<open>What \<open>spin\<close> guarantees about a result \<open>r\<close>, used as the induction predicate.\<close>

definition spin_post :: "(nat \<Rightarrow> nat) \<Rightarrow> nat \<Rightarrow> nat \<Rightarrow> nat \<Rightarrow> nat \<times> nat \<Rightarrow> bool" where
  "spin_post clock L t k r =
     ((\<forall>i. clock i \<le> clock (Suc i)) \<longrightarrow> t \<le> clock k \<longrightarrow>
       L < fst r \<and> fst r \<le> clock (snd r) \<and> k \<le> snd r \<and> (fst r = t \<or> (\<exists>j. fst r = clock j)))"

section \<open>Objects, errors and the world the services act on\<close>

text \<open>
  A JavaScript object is the list of its own properties in insertion order. A property
  that is absent reads as \<^verbatim>\<open>undefined\<close>.
\<close>

type_synonym obj = "(string \<times> jsval) list"

definition field :: "obj \<Rightarrow> string \<Rightarrow> jsval" where
  "field ob k = (case map_of ob k of None \<Rightarrow> JUndefined | Some v \<Rightarrow> v)"

text \<open>Assignment of one property: the value is replaced in place, a new key is appended.\<close>

fun put :: "string \<Rightarrow> 'v \<Rightarrow> (string \<times> 'v) list \<Rightarrow> (string \<times> 'v) list" where
  "put k v [] = [(k, v)]"
| "put k v ((k', v') # r) = (if k = k' then (k, v) # r else (k', v') # put k v r)"

text \<open>The spread \<^verbatim>\<open>{ ...a, ...b }\<close>.\<close>

definition spread :: "obj \<Rightarrow> obj \<Rightarrow> obj" where
  "spread a b = foldl (\<lambda>acc (k, v). put k v acc) a b"

text \<open>
  \<^verbatim>\<open>JSON.parse(JSON.stringify(o))\<close> on an object of the values above: a property whose
  value is \<^verbatim>\<open>undefined\<close> is left out, everything else comes back as it was. The store keeps
  the JSON text of a record; the model keeps the object that text parses to.
\<close>

definition json_roundtrip :: "obj \<Rightarrow> obj" where
  "json_roundtrip ob = filter (\<lambda>(k, v). v \<noteq> JUndefined) ob"

text \<open>The string a value becomes inside a template literal.\<close>

fun js_string :: "jsval \<Rightarrow> string" where
  "js_string JUndefined = ''undefined''"
| "js_string JNull = ''null''"
| "js_string (JBool b) = (if b then ''true'' else ''false'')"
| "js_string (JNum n) = (if n < 0 then CHR ''-'' # toString (nat (- n)) else toString (nat n))"
| "js_string (JStr s) = s"
| "js_string (JObj _) = ''[object Object]''"

text \<open>
  An \<^verbatim>\<open>Error\<close> object: the class name (\<^verbatim>\<open>instanceof\<close> is a test on it), the message, the
  \<^verbatim>\<open>type\<close> property and the fetcher's \<^verbatim>\<open>isRetryable\<close> flag. \<^verbatim>\<open>originalError\<close> is only
  carried along by the source and is left out.
\<close>

record js_error =
  err_name :: string
  err_message :: string
  err_type :: jsval
  err_isRetryable :: bool

subsection \<open>utils/constants\<close>

definition PENDING :: string where "PENDING = ''PENDING''"
definition PROCESSING :: string where "PROCESSING = ''PROCESSING''"
definition COMPLETED :: string where "COMPLETED = ''COMPLETED''"
definition FAILED :: string where "FAILED = ''FAILED''"

definition VALIDATION_ERROR :: string where "VALIDATION_ERROR = ''VALIDATION_ERROR''"
definition STORAGE_ERROR :: string where "STORAGE_ERROR = ''STORAGE_ERROR''"
definition QUEUE_ERROR :: string where "QUEUE_ERROR = ''QUEUE_ERROR''"
definition NOT_FOUND_ERROR :: string where "NOT_FOUND_ERROR = ''NOT_FOUND_ERROR''"

definition QUEUE_UNAVAILABLE :: string where
  "QUEUE_UNAVAILABLE = ''Queue system is down, please try again later''"
definition STORAGE_UNAVAILABLE :: string where
  "STORAGE_UNAVAILABLE = ''Storage system is unavailable''"
definition JOB_NOT_FOUND :: string where "JOB_NOT_FOUND = ''Job not found''"
definition INVALID_JOB_ID :: string where "INVALID_JOB_ID = ''Invalid job ID format''"

subsection \<open>The world\<close>

text \<open>
  What the services act on: the Redis keyspace of job records, the Bull queue, and a log of
  what was done. The queue is the table of its jobs (id, state, and the time Bull's
  \<^verbatim>\<open>clean\<close> compares with its grace period), the ids \<^verbatim>\<open>getWaiting\<close> lists, in order, and
  the count \<^verbatim>\<open>getActiveCount\<close> returns. The backends can fail: \<open>redis_faults\<close> and \<open>queue_faults\<close> say, call by
  call, whether the next backend call throws (\<open>True\<close>); when the list is used up the
  backend answers every call. The log records every backend call that is attempted, every
  value written with the value it replaced, every \<^verbatim>\<open>setTimeout\<close> delay that is awaited, and
  the calls of the fetcher and the parser. Expiry of keys (the TTL passed to \<^verbatim>\<open>setex\<close>) is not
  modelled, nor are the logger's calls: they touch neither the store nor the queue.
\<close>

datatype effect =
    RedisCall string string
  | RedisWrite string "obj option" obj
  | Sleep nat
  | QueueCall string string
  | FetchCall string
  | ParseCall string

record world =
  redis :: "(string \<times> obj) list"
  redis_faults :: "bool list"
  bull_jobs :: "(string \<times> string \<times> int) list"
  bull_waiting :: "string list"
  bull_active :: nat
  queue_faults :: "bool list"
  effects :: "effect list"

definition redis_down :: js_error where
  "redis_down = \<lparr>err_name = ''Error'', err_message = ''Connection is closed.'',
                  err_type = JUndefined, err_isRetryable = False\<rparr>"

definition queue_down :: js_error where
  "queue_down = \<lparr>err_name = ''Error'', err_message = ''Connection is closed.'',
                  err_type = JUndefined, err_isRetryable = False\<rparr>"

text \<open>One call of the Redis client: it is logged and takes the next entry of the schedule.\<close>

definition next_fault :: "bool list \<Rightarrow> bool" where
  "next_fault fs = (case fs of [] \<Rightarrow> False | f # _ \<Rightarrow> f)"

definition redis_call :: "string \<Rightarrow> string \<Rightarrow> world \<Rightarrow> bool \<times> world" where
  "redis_call cmd key w =
     (next_fault (redis_faults w),
      w\<lparr>redis_faults := tl (redis_faults w), effects := effects w @ [RedisCall cmd key]\<rparr>)"

definition redis_exists :: "string \<Rightarrow> world \<Rightarrow> (js_error + bool) \<times> world" where
  "redis_exists key w =
     (case redis_call ''exists'' key w of
        (True, w1) \<Rightarrow> (Inl redis_down, w1)
      | (False, w1) \<Rightarrow> (Inr (map_of (redis w1) key \<noteq> None), w1))"

definition redis_get :: "string \<Rightarrow> world \<Rightarrow> (js_error + obj option) \<times> world" where
  "redis_get key w =
     (case redis_call ''get'' key w of
        (True, w1) \<Rightarrow> (Inl redis_down, w1)
      | (False, w1) \<Rightarrow> (Inr (map_of (redis w1) key), w1))"

definition redis_setex :: "string \<Rightarrow> nat \<Rightarrow> obj \<Rightarrow> world \<Rightarrow> (js_error + unit) \<times> world" where
  "redis_setex key ttl v w =
     (case redis_call ''setex'' key w of
        (True, w1) \<Rightarrow> (Inl redis_down, w1)
      | (False, w1) \<Rightarrow>
          (Inr (), w1\<lparr>redis := put key v (redis w1),
                       effects := effects w1 @ [RedisWrite key (map_of (redis w1) key) v]\<rparr>))"

text \<open>\<^verbatim>\<open>await new Promise((resolve) => setTimeout(resolve, delay))\<close>\<close>

definition sleep :: "nat \<Rightarrow> world \<Rightarrow> world" where
  "sleep delay w = w\<lparr>effects := effects w @ [Sleep delay]\<rparr>"

section \<open>Storage service (services/storage.service)\<close>

definition TTL :: nat where "TTL = 172800"
definition KEY_PREFIX :: string where "KEY_PREFIX = ''job:''"

definition StorageError :: "string \<Rightarrow> string \<Rightarrow> js_error" where
  "StorageError msg ty =
     \<lparr>err_name = ''StorageError'', err_message = msg, err_type = JStr ty, err_isRetryable = False\<rparr>"

definition getJobKey :: "jsval \<Rightarrow> string" where
  "getJobKey job_id = KEY_PREFIX @ js_string job_id"

text \<open>
  \<^verbatim>\<open>retryOperation(operation, maxRetries, operationName)\<close>: the loop
  \<^verbatim>\<open>for (let attempt = 1; attempt <= maxRetries; attempt++)\<close>, from a given \<open>attempt\<close> on.
  After a failed attempt that is not the last it waits
  \<^verbatim>\<open>Math.min(100 * Math.pow(2, attempt - 1), 1000)\<close> milliseconds.
\<close>

function retry_from ::
  "(world \<Rightarrow> (js_error + 'a) \<times> world) \<Rightarrow> nat \<Rightarrow> string \<Rightarrow> nat \<Rightarrow> world \<Rightarrow> (js_error + 'a) \<times> world" where
  "retry_from operation maxRetries operationName attempt w =
     (if attempt \<le> maxRetries then
        (case operation w of
           (Inr v, w1) \<Rightarrow> (Inr v, w1)
         | (Inl error, w1) \<Rightarrow>
             retry_from operation maxRetries operationName (Suc attempt)
               (if attempt < maxRetries
                then sleep (min (100 * 2 ^ (attempt - 1)) 1000) w1 else w1))
      else (Inl (StorageError (operationName @ '' failed after '' @ toString maxRetries @ '' attempts'')
                   STORAGE_ERROR), w))"
  by pat_completeness auto
termination
  by (relation "measure (\<lambda>(operation, maxRetries, operationName, attempt, w). Suc maxRetries - attempt)") auto

declare retry_from.simps [simp del]

definition retryOperation ::
  "(world \<Rightarrow> (js_error + 'a) \<times> world) \<Rightarrow> nat \<Rightarrow> string \<Rightarrow> world \<Rightarrow> (js_error + 'a) \<times> world" where
  "retryOperation operation maxRetries operationName w =
     retry_from operation maxRetries operationName 1 w"

text \<open>
  The \<^verbatim>\<open>catch\<close> block the three operations share: a \<^verbatim>\<open>StorageError\<close> is thrown on as it
  is, any other error is wrapped into one with the given message.
\<close>

definition rethrow_storage :: "string \<Rightarrow> js_error \<Rightarrow> js_error" where
  "rethrow_storage msg error =
     (if err_name error = ''StorageError'' then error else StorageError msg STORAGE_ERROR)"

definition createJob :: "obj \<Rightarrow> world \<Rightarrow> (js_error + obj) \<times> world" where
  "createJob jobData w =
     (case
        (if \<not> truthy (field jobData ''job_id'')
         then (Inl (StorageError ''job_id is required'' VALIDATION_ERROR), w)
         else if \<not> truthy (field jobData ''url'')
         then (Inl (StorageError ''url is required'' VALIDATION_ERROR), w)
         else if \<not> truthy (field jobData ''status'')
         then (Inl (StorageError ''status is required'' VALIDATION_ERROR), w)
         else
           (let key = getJobKey (field jobData ''job_id'') in
            case retryOperation (redis_exists key) 1 ''check job existence'' w of
              (Inl e, w1) \<Rightarrow> (Inl e, w1)
            | (Inr exists, w1) \<Rightarrow>
                if exists then (Inl (StorageError ''Job already exists'' VALIDATION_ERROR), w1)
                else
                  (let jobToStore = jobData in
                   case retryOperation (redis_setex key TTL (json_roundtrip jobToStore)) 1
                          ''create job'' w1 of
                     (Inl e, w2) \<Rightarrow> (Inl e, w2)
                   | (Inr _, w2) \<Rightarrow> (Inr jobToStore, w2))))
      of (Inl error, w') \<Rightarrow> (Inl (rethrow_storage ''Failed to create job'' error), w')
       | (Inr job, w') \<Rightarrow> (Inr job, w'))"

text \<open>\<open>Inr None\<close> is the \<^verbatim>\<open>null\<close> that \<^verbatim>\<open>getJob\<close> returns for a key that is not there.\<close>

definition getJob :: "jsval \<Rightarrow> world \<Rightarrow> (js_error + obj option) \<times> world" where
  "getJob job_id w =
     (case
        (if \<not> truthy job_id then (Inl (StorageError ''job_id is required'' VALIDATION_ERROR), w)
         else
           (let key = getJobKey job_id in
            case retryOperation (redis_get key) 3 ''get job'' w of
              (Inl e, w1) \<Rightarrow> (Inl e, w1)
            | (Inr None, w1) \<Rightarrow> (Inr None, w1)
            | (Inr (Some job), w1) \<Rightarrow> (Inr (Some job), w1)))
      of (Inl error, w') \<Rightarrow> (Inl (rethrow_storage ''Failed to retrieve job'' error), w')
       | (Inr r, w') \<Rightarrow> (Inr r, w'))"

definition updateJob :: "jsval \<Rightarrow> obj \<Rightarrow> world \<Rightarrow> (js_error + obj) \<times> world" where
  "updateJob job_id updateData w =
     (case
        (if \<not> truthy job_id then (Inl (StorageError ''job_id is required'' VALIDATION_ERROR), w)
         else
           (let key = getJobKey job_id in
            case getJob job_id w of
              (Inl e, w1) \<Rightarrow> (Inl e, w1)
            | (Inr None, w1) \<Rightarrow> (Inl (StorageError ''Job not found'' NOT_FOUND_ERROR), w1)
            | (Inr (Some existing), w1) \<Rightarrow>
                (let updated = spread existing updateData in
                 case retryOperation (redis_setex key TTL (json_roundtrip updated)) 3
                        ''update job'' w1 of
                   (Inl e, w2) \<Rightarrow> (Inl e, w2)
                 | (Inr _, w2) \<Rightarrow> (Inr updated, w2))))
      of (Inl error, w') \<Rightarrow> (Inl (rethrow_storage ''Failed to update job'' error), w')
       | (Inr job, w') \<Rightarrow> (Inr job, w'))"

text \<open>
  \<^verbatim>\<open>updateJobIfPending\<close>: the \<^verbatim>\<open>try\<close> block first, then the function with its
  \<^verbatim>\<open>catch\<close>, which turns every error into \<^verbatim>\<open>false\<close>.
\<close>

definition updateJobIfPending_try :: "jsval \<Rightarrow> obj \<Rightarrow> world \<Rightarrow> (js_error + bool) \<times> world" where
  "updateJobIfPending_try job_id updateData w =
     (if \<not> truthy job_id then (Inl (StorageError ''job_id is required'' VALIDATION_ERROR), w)
      else
        (case getJob job_id w of
           (Inl e, w1) \<Rightarrow> (Inl e, w1)
         | (Inr None, w1) \<Rightarrow> (Inr False, w1)
         | (Inr (Some job), w1) \<Rightarrow>
             if field job ''status'' \<noteq> JStr PENDING then (Inr False, w1)
             else
               (case updateJob job_id updateData w1 of
                  (Inl e, w2) \<Rightarrow> (Inl e, w2)
                | (Inr _, w2) \<Rightarrow> (Inr True, w2))))"

definition updateJobIfPending :: "jsval \<Rightarrow> obj \<Rightarrow> world \<Rightarrow> (js_error + bool) \<times> world" where
  "updateJobIfPending job_id updateData w =
     (case updateJobIfPending_try job_id updateData w of
        (Inl error, w') \<Rightarrow> (Inr False, w')
      | (Inr b, w') \<Rightarrow> (Inr b, w'))"

subsection \<open>Reading the log\<close>

text \<open>
  What a call added to the log, the delays awaited in a piece of log, and the number of
  Redis calls in it. \<open>fails_first n fs\<close> says that the next \<open>n\<close> backend calls all fail
  under the schedule \<open>fs\<close>.
\<close>

definition new_effects :: "world \<Rightarrow> world \<Rightarrow> effect list" where
  "new_effects w w' = drop (length (effects w)) (effects w')"

definition sleeps_in :: "effect list \<Rightarrow> nat list" where
  "sleeps_in es = concat (map (\<lambda>e. case e of Sleep d \<Rightarrow> [d] | _ \<Rightarrow> []) es)"

definition redis_calls_in :: "effect list \<Rightarrow> nat" where
  "redis_calls_in es = length (filter (\<lambda>e. case e of RedisCall _ _ \<Rightarrow> True | _ \<Rightarrow> False) es)"

definition writes_in :: "effect list \<Rightarrow> effect list" where
  "writes_in es = filter (\<lambda>e. case e of RedisWrite _ _ _ \<Rightarrow> True | _ \<Rightarrow> False) es"

fun fails_first :: "nat \<Rightarrow> bool list \<Rightarrow> bool" where
  "fails_first 0 fs = True"
| "fails_first (Suc n) [] = False"
| "fails_first (Suc n) (f # fs) = (f \<and> fails_first n fs)"

text \<open>
  Kinds of log entries: a probe is a Redis call or a wait, which change nothing; a storage
  event is a probe or a write. \<open>extends_by P w w'\<close> says that \<open>w'\<close> is \<open>w\<close> with log entries
  of kind \<open>P\<close> added and the queue untouched.
\<close>

fun is_probe :: "effect \<Rightarrow> bool" where
  "is_probe (RedisCall _ _) = True"
| "is_probe (Sleep _) = True"
| "is_probe _ = False"

fun is_storage_event :: "effect \<Rightarrow> bool" where
  "is_storage_event (RedisCall _ _) = True"
| "is_storage_event (RedisWrite _ _ _) = True"
| "is_storage_event (Sleep _) = True"
| "is_storage_event _ = False"

definition extends_by :: "(effect \<Rightarrow> bool) \<Rightarrow> world \<Rightarrow> world \<Rightarrow> bool" where
  "extends_by P w w' \<longleftrightarrow>
     (\<exists>es. effects w' = effects w @ es \<and> list_all P es)
     \<and> bull_jobs w' = bull_jobs w \<and> bull_waiting w' = bull_waiting w
     \<and> bull_active w' = bull_active w \<and> queue_faults w' = queue_faults w"

section \<open>Queue service (services/queue.service)\<close>

definition QueueError :: "string \<Rightarrow> string \<Rightarrow> js_error" where
  "QueueError msg ty =
     \<lparr>err_name = ''QueueError'', err_message = msg, err_type = JStr ty, err_isRetryable = False\<rparr>"

text \<open>One call of the Bull client: it is logged and takes the next entry of its schedule.\<close>

definition queue_call :: "string \<Rightarrow> string \<Rightarrow> world \<Rightarrow> bool \<times> world" where
  "queue_call method jid w =
     (next_fault (queue_faults w),
      w\<lparr>queue_faults := tl (queue_faults w), effects := effects w @ [QueueCall method jid]\<rparr>)"

text \<open>
  \<^verbatim>\<open>queue.add(data, jobOptions)\<close> with \<^verbatim>\<open>jobId: data.job_id\<close>: Bull keeps one job for an
  id, and adding an id it already has changes nothing. The new job waits at the end of the
  line; \<open>now\<close> is its creation time. The delivery options (timeout, attempts, backoff) are
  Bull's own and are not part of the world.
\<close>

definition queue_add :: "int \<Rightarrow> string \<Rightarrow> world \<Rightarrow> (js_error + unit) \<times> world" where
  "queue_add now jid w =
     (case queue_call ''add'' jid w of
        (True, w1) \<Rightarrow> (Inl queue_down, w1)
      | (False, w1) \<Rightarrow>
          (Inr (),
           if map_of (bull_jobs w1) jid \<noteq> None then w1
           else w1\<lparr>bull_jobs := bull_jobs w1 @ [(jid, ''waiting'', now)],
                   bull_waiting := bull_waiting w1 @ [jid]\<rparr>))"

definition enqueue :: "int \<Rightarrow> obj \<Rightarrow> world \<Rightarrow> (js_error + unit) \<times> world" where
  "enqueue now data w =
     (case
        (if \<not> truthy (field data ''job_id'') \<or> \<not> truthy (field data ''url'')
         then (Inl (QueueError ''Invalid job data: job_id and url are required'' VALIDATION_ERROR), w)
         else queue_add now (js_string (field data ''job_id'')) w)
      of (Inl error, w') \<Rightarrow>
           (Inl (if err_name error = ''QueueError'' then error
                 else QueueError ''Failed to enqueue job'' QUEUE_ERROR), w')
       | (Inr job, w') \<Rightarrow> (Inr job, w'))"

text \<open>
  What \<^verbatim>\<open>getJobInfo\<close> returns. \<^verbatim>\<open>findIndex\<close> is \<open>-1\<close> when nothing matches;
  \<^verbatim>\<open>Math.round(position * 8 / Math.max(activeCount, 1))\<close> rounds halves up.
\<close>

record queue_info =
  found :: bool
  state :: jsval
  position :: int
  estimatedWait :: int

fun findIndex :: "('a \<Rightarrow> bool) \<Rightarrow> 'a list \<Rightarrow> int" where
  "findIndex P [] = - 1"
| "findIndex P (x # xs) =
     (if P x then 0 else (let i = findIndex P xs in if i < 0 then - 1 else i + 1))"

definition not_in_queue :: queue_info where
  "not_in_queue = \<lparr>found = False, state = JUndefined, position = - 1, estimatedWait = 0\<rparr>"

definition getJobInfo :: "jsval \<Rightarrow> world \<Rightarrow> queue_info \<times> world" where
  "getJobInfo job_id w =
     (case queue_call ''getJob'' (js_string job_id) w of
        (True, w1) \<Rightarrow> (not_in_queue, w1)
      | (False, w1) \<Rightarrow>
          (case map_of (bull_jobs w1) (js_string job_id) of
             None \<Rightarrow> (not_in_queue, w1)
           | Some (st, _) \<Rightarrow>
               (case queue_call ''getState'' (js_string job_id) w1 of
                  (True, w2) \<Rightarrow> (not_in_queue, w2)
                | (False, w2) \<Rightarrow>
                    if st = ''waiting'' then
                      (case queue_call ''getWaiting'' (js_string job_id) w2 of
                         (True, w3) \<Rightarrow> (not_in_queue, w3)
                       | (False, w3) \<Rightarrow>
                           (let pos = findIndex (\<lambda>j. JStr j = job_id) (bull_waiting w3) + 1 in
                            case queue_call ''getActiveCount'' (js_string job_id) w3 of
                              (True, w4) \<Rightarrow> (not_in_queue, w4)
                            | (False, w4) \<Rightarrow>
                                (let activeCount = int (bull_active w4);
                                     wait = (if pos > 0
                                             then (16 * pos + max activeCount 1) div (2 * max activeCount 1)
                                             else 0)
                                 in (\<lparr>found = True, state = JStr st, position = pos,
                                      estimatedWait = wait\<rparr>, w4))))
                    else if st = ''active'' then
                      (\<lparr>found = True, state = JStr st, position = 0, estimatedWait = 0\<rparr>, w2)
                    else
                      (\<lparr>found = True, state = JStr st, position = - 1, estimatedWait = 0\<rparr>, w2))))"

definition removeJob :: "jsval \<Rightarrow> world \<Rightarrow> bool \<times> world" where
  "removeJob job_id w =
     (case queue_call ''getJob'' (js_string job_id) w of
        (True, w1) \<Rightarrow> (False, w1)
      | (False, w1) \<Rightarrow>
          (case map_of (bull_jobs w1) (js_string job_id) of
             None \<Rightarrow> (False, w1)
           | Some _ \<Rightarrow>
               (case queue_call ''remove'' (js_string job_id) w1 of
                  (True, w2) \<Rightarrow> (False, w2)
                | (False, w2) \<Rightarrow>
                    (True, w2\<lparr>bull_jobs := filter (\<lambda>(k, _). k \<noteq> js_string job_id) (bull_jobs w2),
                              bull_waiting := removeAll (js_string job_id) (bull_waiting w2)\<rparr>))))"

text \<open>
  \<^verbatim>\<open>cleanOldJobs(grace, status)\<close>: Bull's \<^verbatim>\<open>clean\<close> removes the jobs in state \<open>status\<close>
  whose time is more than \<open>grace\<close> milliseconds back; the count of them is returned, and 0
  when the call fails.
\<close>

definition cleanOldJobs :: "int \<Rightarrow> int \<Rightarrow> string \<Rightarrow> world \<Rightarrow> nat \<times> world" where
  "cleanOldJobs now grace status w =
     (case queue_call ''clean'' status w of
        (True, w1) \<Rightarrow> (0, w1)
      | (False, w1) \<Rightarrow>
          (let old = (\<lambda>(k, st, t). st = status \<and> t < now - grace) in
           (length (filter old (bull_jobs w1)),
            w1\<lparr>bull_jobs := filter (\<lambda>j. \<not> old j) (bull_jobs w1)\<rparr>)))"

section \<open>Worker (worker/processor, worker/worker)\<close>

text \<open>
  The fetcher and the parser are collaborators: \<^verbatim>\<open>fetchUrlWithRetry(url, 3)\<close> returns the
  page and its status code or throws an error that says whether it is retryable;
  \<^verbatim>\<open>parseHtml(html, url)\<close> returns the results or throws; \<^verbatim>\<open>validateResults\<close> accepts
  or rejects them.
\<close>

datatype fetch_result = Fetched string int | FetchFailed js_error

record collaborators =
  fetchUrlWithRetry :: "jsval \<Rightarrow> nat \<Rightarrow> fetch_result"
  parseHtml :: "string \<Rightarrow> jsval \<Rightarrow> js_error + jsval"
  validateResults :: "jsval \<Rightarrow> bool"

definition plain_error :: "string \<Rightarrow> js_error" where
  "plain_error msg = \<lparr>err_name = ''Error'', err_message = msg, err_type = JUndefined,
                       err_isRetryable = False\<rparr>"

text \<open>
  The fetcher's error class, \<^verbatim>\<open>new FetchError(message, statusCode, isRetryable, type)\<close>;
  the status code is only ever logged.
\<close>

definition FetchError :: "string \<Rightarrow> bool \<Rightarrow> string \<Rightarrow> js_error" where
  "FetchError message isRetryable type =
     \<lparr>err_name = ''FetchError'', err_message = message, err_type = JStr type,
      err_isRetryable = isRetryable\<rparr>"

definition log_effect :: "effect \<Rightarrow> world \<Rightarrow> world" where
  "log_effect e w = w\<lparr>effects := effects w @ [e]\<rparr>"

text \<open>
  \<^verbatim>\<open>processJob\<close>: its outer \<^verbatim>\<open>try\<close> block first. A thrown error is \<open>Inl\<close>; an error thrown
  inside one of the inner \<^verbatim>\<open>catch\<close> blocks leaves the outer block too.
\<close>

definition processJob_try ::
  "collaborators \<Rightarrow> jsval \<Rightarrow> jsval \<Rightarrow> world \<Rightarrow> (js_error + obj) \<times> world" where
  "processJob_try env job_id url w =
     (case updateJobIfPending job_id [(''status'', JStr PROCESSING)] w of
        (Inl e, w1) \<Rightarrow> (Inl e, w1)
      | (Inr updated, w1) \<Rightarrow>
          if \<not> updated
          then (Inr [(''success'', JBool False),
                     (''reason'', JStr ''Job already processing or completed'')], w1)
          else
            (case fetchUrlWithRetry env url 3 of
               FetchFailed fetchError \<Rightarrow>
                 if err_isRetryable fetchError
                 then (Inl fetchError, log_effect (FetchCall (js_string url)) w1)
                 else
                   (case updateJob job_id
                           [(''status'', JStr FAILED),
                            (''error'', JStr (err_message fetchError)),
                            (''error_type'', err_type fetchError)]
                           (log_effect (FetchCall (js_string url)) w1) of
                      (Inl e, w2) \<Rightarrow> (Inl e, w2)
                    | (Inr _, w2) \<Rightarrow>
                        (Inr [(''success'', JBool False),
                              (''error'', JStr (err_message fetchError)),
                              (''retryable'', JBool False)], w2))
             | Fetched html statusCode \<Rightarrow>
                 (let w2 = log_effect (ParseCall (js_string url))
                             (log_effect (FetchCall (js_string url)) w1) in
                  case (case parseHtml env html url of
                          Inl e \<Rightarrow> Inl e
                        | Inr results \<Rightarrow>
                            if \<not> validateResults env results
                            then Inl (plain_error ''Invalid parsing results structure'')
                            else Inr results) of
                    Inl parseError \<Rightarrow>
                      (case updateJob job_id
                              [(''status'', JStr FAILED),
                               (''error'', JStr (''Failed to parse HTML: '' @ err_message parseError)),
                               (''error_type'', JStr ''PARSE_ERROR'')] w2 of
                         (Inl e, w3) \<Rightarrow> (Inl e, w3)
                       | (Inr _, w3) \<Rightarrow>
                           (Inr [(''success'', JBool False),
                                 (''error'', JStr (err_message parseError)),
                                 (''retryable'', JBool False)], w3))
                  | Inr results \<Rightarrow>
                      (case updateJob job_id
                              [(''status'', JStr COMPLETED),
                               (''results'', results),
                               (''http_status_code'', JNum statusCode)] w2 of
                         (Inl storageError, w3) \<Rightarrow> (Inl storageError, w3)
                       | (Inr _, w3) \<Rightarrow>
                           (Inr [(''success'', JBool True), (''results'', results)], w3)))))"

text \<open>
  The outer \<^verbatim>\<open>catch\<close>: it tries to mark the job FAILED with the error's message and type,
  whether or not that works, and throws the error on for Bull.
\<close>

definition processJob ::
  "collaborators \<Rightarrow> jsval \<Rightarrow> jsval \<Rightarrow> world \<Rightarrow> (js_error + obj) \<times> world" where
  "processJob env job_id url w =
     (case processJob_try env job_id url w of
        (Inl error, w1) \<Rightarrow>
          (case updateJob job_id
                  [(''status'', JStr FAILED),
                   (''error'', js_or (JStr (err_message error)) (JStr ''Unknown processing error'')),
                   (''error_type'', js_or (err_type error) (JStr ''UNKNOWN_ERROR''))] w1 of
             (_, w2) \<Rightarrow> (Inl error, w2))
      | (Inr result, w1) \<Rightarrow> (Inr result, w1))"

text \<open>
  The handler of the queue's \<^verbatim>\<open>failed\<close> event (\<^verbatim>\<open>setupEventHandlers\<close>). It computes
  \<^verbatim>\<open>isFinalAttempt = job.attemptsMade >= job.opts.attempts\<close> and writes log lines, on
  the final attempt one more; it calls neither the store nor the queue, so the world it
  returns is the world it was given.
\<close>

definition on_failed :: "nat \<Rightarrow> nat \<Rightarrow> jsval \<Rightarrow> js_error \<Rightarrow> world \<Rightarrow> world" where
  "on_failed attemptsMade attempts job_id error w =
     (let isFinalAttempt = (attemptsMade \<ge> attempts) in
      if isFinalAttempt then w else w)"

text \<open>
  The queue drives the processor. The function registered with \<^verbatim>\<open>queue.process\<close> calls
  \<^verbatim>\<open>processJob(job_id, url)\<close>, returns what it returns and throws on what it throws. A work
  item is enqueued with \<^verbatim>\<open>attempts: 3\<close>: when the processor returns, the queue completes
  the item and delivers it no more; when it throws, the queue counts the attempt, emits
  the \<^verbatim>\<open>failed\<close> event, and delivers the item again while attempts are left. \<open>deliveries\<close>
  runs one work item with \<open>remaining\<close> of its \<open>attempts\<close> left, and returns what each
  delivery gave, in order: the run has exhausted the attempts when every one of the
  \<open>attempts\<close> deliveries threw. The progress report \<^verbatim>\<open>job.progress(100)\<close> and the waits
  between the attempts change neither the store nor the result.
\<close>

fun deliveries ::
  "collaborators \<Rightarrow> nat \<Rightarrow> nat \<Rightarrow> jsval \<Rightarrow> jsval \<Rightarrow> world \<Rightarrow> (js_error + obj) list \<times> world" where
  "deliveries env attempts 0 job_id url w = ([], w)"
| "deliveries env attempts (Suc remaining) job_id url w =
     (case processJob env job_id url w of
        (Inr result, w1) \<Rightarrow> ([Inr result], w1)
      | (Inl error, w1) \<Rightarrow>
          (case deliveries env attempts remaining job_id url
                  (on_failed (attempts - remaining) attempts job_id error w1) of
             (rs, w2) \<Rightarrow> (Inl error # rs, w2)))"

definition exhausted :: "nat \<Rightarrow> (js_error + obj) list \<Rightarrow> bool" where
  "exhausted attempts rs \<longleftrightarrow> length rs = attempts \<and> list_all isl rs"

section \<open>Submission and status query (api/controllers)\<close>

text \<open>
  What a controller does with the request: it sends a response (status code and JSON body)
  or hands an unexpected error to \<^verbatim>\<open>next\<close>. \<^verbatim>\<open>res.json\<close> serialises the body, so
  properties that are \<^verbatim>\<open>undefined\<close> are left out.
\<close>

datatype outcome = Respond nat obj | Next js_error

definition respond :: "nat \<Rightarrow> obj \<Rightarrow> outcome" where
  "respond code body = Respond code (json_roundtrip body)"

record validation =
  valid :: bool
  v_error :: jsval
  v_details :: jsval

text \<open>
  \<^verbatim>\<open>analyseUrl\<close> from the point where \<open>job_id\<close> has been allocated: the record is stored,
  then the work item is enqueued. The timestamp the source computes next to the id
  (\<^verbatim>\<open>new Date().toISOString()\<close>) is not used again and does not appear.
\<close>

definition submit_job :: "int \<Rightarrow> string \<Rightarrow> jsval \<Rightarrow> world \<Rightarrow> outcome \<times> world" where
  "submit_job now job_id url w =
     (case createJob [(''job_id'', JStr job_id), (''url'', url), (''status'', JStr PENDING)] w of
        (Inl storageError, w1) \<Rightarrow>
          (respond 503 [(''error'', JStr STORAGE_UNAVAILABLE),
                        (''message'', JStr ''Failed to create job. Please try again.'')], w1)
      | (Inr _, w1) \<Rightarrow>
          (case enqueue now [(''job_id'', JStr job_id), (''url'', url)] w1 of
             (Inl queueError, w2) \<Rightarrow>
               (case updateJob (JStr job_id)
                       [(''status'', JStr FAILED), (''error'', JStr ''Failed to queue job'')] w2 of
                  (_, w3) \<Rightarrow>
                    (respond 503
                       [(''error'', JStr QUEUE_UNAVAILABLE),
                        (''message'', JStr ''Queue system is temporarily unavailable. Please try again later.'')],
                     w3))
           | (Inr _, w2) \<Rightarrow>
               (respond 202 [(''job_id'', JStr job_id), (''status'', JStr PENDING),
                             (''message'', JStr ''Job queued successfully'')], w2)))"

text \<open>
  \<^verbatim>\<open>analyseUrl\<close>: the URL validator is a collaborator; the allocator state travels with the
  world. \<open>None\<close> is an allocator that never returns.
\<close>

definition analyseUrl ::
  "(nat \<Rightarrow> nat) \<Rightarrow> (nat \<Rightarrow> nat) \<Rightarrow> (jsval \<Rightarrow> validation) \<Rightarrow> int \<Rightarrow> jsval
     \<Rightarrow> alloc_state \<times> world \<Rightarrow> (outcome \<times> alloc_state \<times> world) option" where
  "analyseUrl clock rnd validateUrlComplete now url aw =
     (case aw of (a, w) \<Rightarrow>
        (let v = validateUrlComplete url in
         if \<not> valid v
         then Some (respond 400 [(''error'', v_error v), (''message'', v_details v)], a, w)
         else
           (case generateNumericJobId clock rnd a of
              None \<Rightarrow> None
            | Some (job_id, a') \<Rightarrow>
                (case submit_job now job_id url w of (out, w') \<Rightarrow> Some (out, a', w')))))"

definition getResults :: "string \<Rightarrow> jsval \<Rightarrow> world \<Rightarrow> outcome \<times> world" where
  "getResults isoNow job_id w =
     (if \<not> isValidJobId job_id
      then (respond 400 [(''error'', JStr INVALID_JOB_ID),
                         (''details'', JStr ''Job ID must be a 19-digit numeric string'')], w)
      else
        (case getJob job_id w of
           (Inl storageError, w1) \<Rightarrow>
             (respond 503 [(''error'', JStr STORAGE_UNAVAILABLE),
                           (''message'', JStr ''Unable to retrieve job. Please try again.''),
                           (''timestamp'', JStr isoNow)], w1)
         | (Inr None, w1) \<Rightarrow>
             (respond 404 [(''error'', JStr JOB_NOT_FOUND),
                           (''message'', JStr (''No job found with ID: '' @ js_string job_id)),
                           (''timestamp'', JStr isoNow)], w1)
         | (Inr (Some job), w1) \<Rightarrow>
             (let response = [(''job_id'', field job ''job_id''), (''status'', field job ''status''),
                              (''url'', field job ''url'')] in
              if field job ''status'' = JStr PENDING then
                (case getJobInfo job_id w1 of
                   (queueInfo, w2) \<Rightarrow>
                     (respond 200
                        (if found queueInfo \<and> position queueInfo > 0
                         then put ''status'' (JStr PROCESSING) response else response), w2))
              else if field job ''status'' = JStr PROCESSING then (respond 200 response, w1)
              else if field job ''status'' = JStr COMPLETED
              then (respond 200 (put ''results'' (field job ''results'') response), w1)
              else if field job ''status'' = JStr FAILED
              then (respond 200 (put ''error'' (js_or (field job ''error'') (JStr ''Job processing failed''))
                                   response), w1)
              else (respond 500 (put ''error'' (JStr ''Unknown job status'') response), w1))))"

section \<open>Cleanup service (services/cleanup.service)\<close>

text \<open>
  \<^verbatim>\<open>cleanupJob(job)\<close>. \<open>now\<close> is \<^verbatim>\<open>Date.now()\<close>, \<open>isoNow\<close> is \<^verbatim>\<open>new Date().toISOString()\<close>,
  and \<open>date_ms v\<close> is \<^verbatim>\<open>new Date(v).getTime()\<close>, with \<open>None\<close> for \<^verbatim>\<open>NaN\<close>: a comparison with
  \<^verbatim>\<open>NaN\<close> is false. The \<^verbatim>\<open>try\<close> block first; the \<^verbatim>\<open>catch\<close> returns \<^verbatim>\<open>false\<close>.
\<close>

definition cleanupJob_try ::
  "int \<Rightarrow> string \<Rightarrow> (jsval \<Rightarrow> int option) \<Rightarrow> obj \<Rightarrow> world \<Rightarrow> (js_error + bool) \<times> world" where
  "cleanupJob_try now isoNow date_ms job w =
     (case getJobInfo (field job ''job_id'') w of
        (queueInfo, w1) \<Rightarrow>
          if \<not> found queueInfo \<or> position queueInfo = - 1 then
            (case updateJob (field job ''job_id'')
                    [(''status'', JStr FAILED),
                     (''error'', JStr ''Job lost in queue after timeout. Please retry.''),
                     (''error_type'', JStr ''TIMEOUT_ERROR''),
                     (''failed_at'', JStr isoNow),
                     (''updated_at'', JStr isoNow)] w1 of
               (Inl e, w2) \<Rightarrow> (Inl e, w2)
             | (Inr _, w2) \<Rightarrow> (Inr True, w2))
          else if state queueInfo = JStr ''waiting'' \<or> state queueInfo = JStr ''active'' then
            (if (case date_ms (field job ''created_at'') of
                   None \<Rightarrow> False
                 | Some created \<Rightarrow> now - created > 30 * 60 * 1000)
             then
               (case removeJob (field job ''job_id'') w1 of
                  (_, w2) \<Rightarrow>
                    (case updateJob (field job ''job_id'')
                            [(''status'', JStr FAILED),
                             (''error'', JStr ''Job exceeded maximum processing time (30 minutes)''),
                             (''error_type'', JStr ''TIMEOUT_ERROR''),
                             (''failed_at'', JStr isoNow),
                             (''updated_at'', JStr isoNow)] w2 of
                       (Inl e, w3) \<Rightarrow> (Inl e, w3)
                     | (Inr _, w3) \<Rightarrow> (Inr True, w3)))
             else (Inr False, w1))
          else (Inr False, w1))"

definition cleanupJob ::
  "int \<Rightarrow> string \<Rightarrow> (jsval \<Rightarrow> int option) \<Rightarrow> obj \<Rightarrow> world \<Rightarrow> bool \<times> world" where
  "cleanupJob now isoNow date_ms job w =
     (case cleanupJob_try now isoNow date_ms job w of
        (Inl error, w') \<Rightarrow> (False, w')
      | (Inr cleaned, w') \<Rightarrow> (cleaned, w'))"

text \<open>The loop of \<^verbatim>\<open>runCleanup\<close> over the old jobs, counting the jobs cleaned.\<close>

fun cleanup_all ::
  "int \<Rightarrow> string \<Rightarrow> (jsval \<Rightarrow> int option) \<Rightarrow> obj list \<Rightarrow> nat \<Rightarrow> world \<Rightarrow> nat \<times> world" where
  "cleanup_all now isoNow date_ms [] cleanedCount w = (cleanedCount, w)"
| "cleanup_all now isoNow date_ms (job # jobs) cleanedCount w =
     (case cleanupJob now isoNow date_ms job w of
        (cleaned, w1) \<Rightarrow>
          cleanup_all now isoNow date_ms jobs (if cleaned then Suc cleanedCount else cleanedCount) w1)"

text \<open>
  What the storage module exports (\<^verbatim>\<open>module.exports\<close> of services/storage.service). A
  property that is not in the list reads as \<^verbatim>\<open>undefined\<close>, and calling it throws a
  \<^verbatim>\<open>TypeError\<close>.
\<close>

definition storage_exports :: "string list" where
  "storage_exports = [''createJob'', ''getJob'', ''updateJob'', ''updateJobIfPending'', ''ping'',
                      ''StorageError'']"

record cleanup_stats =
  totalRunsCompleted :: nat
  totalJobsCleaned :: nat
  lastRunAt :: "string option"

definition jobAgeThresholdMinutes :: nat where "jobAgeThresholdMinutes = 10"

text \<open>
  \<^verbatim>\<open>runCleanup\<close>. Its first step calls \<^verbatim>\<open>storageService.findOldPendingJobs\<close>; the storage
  module has no function of that name in this repository, so what such a function would
  return is the parameter \<open>findOldPendingJobs\<close>, which the model consults only if the name is exported.
  An error in the \<^verbatim>\<open>try\<close> block (the \<^verbatim>\<open>TypeError\<close> of the missing function, or an error
  that \<open>findOldPendingJobs\<close> throws) is caught at the end: it is logged, and neither the jobs nor the
  statistics are touched.
\<close>

definition runCleanup ::
  "(nat \<Rightarrow> world \<Rightarrow> (js_error + obj list) \<times> world) \<Rightarrow> int \<Rightarrow> string \<Rightarrow> (jsval \<Rightarrow> int option)
     \<Rightarrow> cleanup_stats \<times> world \<Rightarrow> cleanup_stats \<times> world" where
  "runCleanup findOldPendingJobs now isoNow date_ms sw =
     (case sw of (stats, w) \<Rightarrow>
        if ''findOldPendingJobs'' \<notin> set storage_exports then (stats, w)
        else
          (case findOldPendingJobs jobAgeThresholdMinutes w of
             (Inl error, w1) \<Rightarrow> (stats, w1)
           | (Inr oldJobs, w1) \<Rightarrow>
               (case cleanup_all now isoNow date_ms oldJobs 0 w1 of
                  (cleanedCount, w2) \<Rightarrow>
                    (case cleanOldJobs now (24 * 60 * 60 * 1000) ''completed'' w2 of
                       (_, w3) \<Rightarrow>
                         (case cleanOldJobs now (7 * 24 * 60 * 60 * 1000) ''failed'' w3 of
                            (_, w4) \<Rightarrow>
                              (stats\<lparr>totalRunsCompleted := Suc (totalRunsCompleted stats),
                                     totalJobsCleaned := totalJobsCleaned stats + cleanedCount,
                                     lastRunAt := Some isoNow\<rparr>, w4))))))"

section \<open>Transitions of a job record\<close>

text \<open>
  A claim is a write that takes the record under \<open>key\<close> from PENDING to PROCESSING. A
  record is settled when it is there with a status other than PENDING. A step makes no
  claim when it adds no claim to the log and leaves a settled record settled.
\<close>

fun is_claim :: "string \<Rightarrow> effect \<Rightarrow> bool" where
  "is_claim key (RedisWrite k (Some old) new) =
     (k = key \<and> field old ''status'' = JStr PENDING \<and> field new ''status'' = JStr PROCESSING)"
| "is_claim key _ = False"

definition claims_in :: "string \<Rightarrow> effect list \<Rightarrow> nat" where
  "claims_in key es = length (filter (is_claim key) es)"

definition settled :: "string \<Rightarrow> world \<Rightarrow> bool" where
  "settled key w \<longleftrightarrow> (\<exists>r. map_of (redis w) key = Some r \<and> field r ''status'' \<noteq> JStr PENDING)"

definition no_claim_step :: "string \<Rightarrow> world \<Rightarrow> world \<Rightarrow> bool" where
  "no_claim_step key w w' \<longleftrightarrow>
     (\<exists>es. effects w' = effects w @ es \<and> filter (is_claim key) es = [])
     \<and> (settled key w \<longrightarrow> settled key w')"

definition already_handled :: obj where
  "already_handled = [(''success'', JBool False),
                      (''reason'', JStr ''Job already processing or completed'')]"

section \<open>Example data\<close>

text \<open>A stored PENDING record and a world holding it, with both backends healthy.\<close>

definition example_job :: obj where
  "example_job = [(''job_id'', JStr ''1700000000000123456''), (''url'', JStr ''https://example.com''),
                  (''status'', JStr ''PENDING'')]"

definition example_world :: world where
  "example_world = \<lparr>redis = [(''job:1700000000000123456'', example_job)], redis_faults = [],
     bull_jobs = [], bull_waiting = [], bull_active = 0, queue_faults = [], effects = []\<rparr>"

definition empty_world :: world where
  "empty_world = \<lparr>redis = [], redis_faults = [], bull_jobs = [], bull_waiting = [],
     bull_active = 0, queue_faults = [], effects = []\<rparr>"

text \<open>
  Collaborators for the examples: a fetcher and a parser that succeed, and a fetcher whose
  requests all time out. For a request that times out \<^verbatim>\<open>fetchUrl\<close> throws
  \<^verbatim>\<open>new FetchError("Request timeout - server took too long to respond", 0, true,
  ERROR_TYPES.TIMEOUT_ERROR)\<close>, and \<^verbatim>\<open>fetchUrlWithRetry\<close> throws the last such error after
  its third request.
\<close>

definition example_env :: collaborators where
  "example_env = \<lparr>fetchUrlWithRetry = (\<lambda>url n. Fetched ''<html></html>'' 200),
                   parseHtml = (\<lambda>html url. Inr (JObj ''{}'')),
                   validateResults = (\<lambda>results. True)\<rparr>"

definition timeout_error :: js_error where
  "timeout_error = FetchError ''Request timeout - server took too long to respond'' True
                     ''TIMEOUT_ERROR''"

definition timeout_env :: collaborators where
  "timeout_env = \<lparr>fetchUrlWithRetry = (\<lambda>url n. FetchFailed timeout_error),
                   parseHtml = (\<lambda>html url. Inr (JObj ''{}'')),
                   validateResults = (\<lambda>results. True)\<rparr>"

text \<open>
  An allocator environment and a validator for the examples: a clock that advances one
  millisecond every two reads, a random source that draws 999999, and a validator that
  accepts.
\<close>

definition example_clock :: "nat \<Rightarrow> nat" where
  "example_clock k = 1700000000000 + min k 100 div 2"

definition example_rnd :: "nat \<Rightarrow> nat" where
  "example_rnd j = 999999"

definition accept_url :: "jsval \<Rightarrow> validation" where
  "accept_url url = \<lparr>valid = True, v_error = JUndefined, v_details = JUndefined\<rparr>"

section \<open>Decimal strings: lemmas\<close>

lemma is_digit_not_space: "is_digit c \<Longrightarrow> \<not> is_space c"
  unfolding is_digit_def is_space_def by auto

lemma is_digit_not_sign: "is_digit c \<Longrightarrow> c \<noteq> CHR ''-'' \<and> c \<noteq> CHR ''+''"
  unfolding is_digit_def by auto

lemma lt10_cases: "d < 10 \<Longrightarrow> d \<in> {0,1,2,3,4,5,6,7,8,9::nat}"
  by auto

lemma digit_val_digit_char: "d < 10 \<Longrightarrow> digit_val (digit_char d) = d"
  using lt10_cases[of d] unfolding digit_val_def digit_char_def by auto

lemma is_digit_digit_char: "d < 10 \<Longrightarrow> is_digit (digit_char d)"
  using lt10_cases[of d] unfolding is_digit_def digit_char_def by auto

lemma decimal_value_snoc: "decimal_value (s @ [c]) = 10 * decimal_value s + digit_val c"
  by (simp add: decimal_value_def)

lemma decimal_value_append:
  "decimal_value (a @ b) = decimal_value a * 10 ^ length b + decimal_value b"
proof (induction b rule: rev_induct)
  case Nil
  then show ?case by (simp add: decimal_value_def)
next
  case (snoc c b)
  have "decimal_value (a @ b @ [c]) = 10 * decimal_value (a @ b) + digit_val c"
    using decimal_value_snoc [of "a @ b" c] by simp
  then show ?case
    using snoc by (simp add: decimal_value_snoc algebra_simps)
qed

lemma decimal_value_zeros: "decimal_value (replicate m (CHR ''0'')) = 0"
proof (induction m)
  case 0
  then show ?case by (simp add: decimal_value_def)
next
  case (Suc m)
  have "replicate (Suc m) (CHR ''0'') = replicate m (CHR ''0'') @ [CHR ''0'']"
    by (simp add: replicate_append_same)
  then show ?case
    using Suc by (simp only: decimal_value_snoc) (simp add: digit_val_def)
qed

lemma toString_digits: "list_all is_digit (toString n)"
proof (induction n rule: toString.induct)
  case (1 n)
  show ?case
  proof (cases "n < 10")
    case True
    then show ?thesis by (simp add: toString.simps [of n] is_digit_digit_char)
  next
    case False
    then show ?thesis
      using 1 by (simp add: toString.simps [of n] is_digit_digit_char)
  qed
qed

lemma decimal_value_toString: "decimal_value (toString n) = n"
proof (induction n rule: toString.induct)
  case (1 n)
  show ?case
  proof (cases "n < 10")
    case True
    then show ?thesis
      by (simp add: toString.simps [of n] decimal_value_def digit_val_digit_char)
  next
    case False
    then show ?thesis
      using 1 by (simp add: toString.simps [of n] decimal_value_snoc digit_val_digit_char)
  qed
qed

lemma length_toString_le: "0 < k \<Longrightarrow> n < 10 ^ k \<Longrightarrow> length (toString n) \<le> k"
proof (induction n arbitrary: k rule: toString.induct)
  case (1 n)
  show ?case
  proof (cases "n < 10")
    case True
    then show ?thesis using 1(2) by (simp add: toString.simps [of n])
  next
    case False
    obtain j where k: "k = Suc j" using 1(2) by (cases k) auto
    have "j > 0" using False 1(3) k by (cases j) auto
    moreover have "n div 10 < 10 ^ j" using 1(3) k by (simp add: less_mult_imp_div_less mult.commute)
    ultimately have "length (toString (n div 10)) \<le> j" using 1(1) False by blast
    then show ?thesis using False k by (simp add: toString.simps [of n])
  qed
qed

lemma length_toString_gt: "10 ^ k \<le> n \<Longrightarrow> k < length (toString n)"
proof (induction n arbitrary: k rule: toString.induct)
  case (1 n)
  show ?case
  proof (cases "n < 10")
    case True
    have "k = 0"
    proof (cases k)
      case (Suc j)
      have "(1::nat) \<le> 10 ^ j" by simp
      then have "(10::nat) \<le> 10 ^ k" using Suc by simp
      then show ?thesis using True 1(2) by linarith
    qed simp
    then show ?thesis using True by (simp add: toString.simps [of n])
  next
    case False
    show ?thesis
    proof (cases k)
      case 0
      then show ?thesis using False by (simp add: toString.simps [of n])
    next
      case (Suc j)
      then have "10 ^ j \<le> n div 10" using 1(2) by (simp add: less_eq_div_iff_mult_less_eq mult.commute)
      then have "j < length (toString (n div 10))" using 1(1) False by blast
      then show ?thesis using False Suc by (simp add: toString.simps [of n])
    qed
  qed
qed

lemma toString_nonempty: "toString n \<noteq> []"
  by (subst toString.simps) simp

section \<open>The spin loop\<close>

lemma spin_result_aux:
  assumes "spin clock L t k = Some r"
  shows "spin_post clock L t k r"
proof (rule spin.raw_induct [where P = spin_post, OF _ assms])
  fix spin' clock L t k r
  assume IH: "\<And>L t k b y. spin' L t k b = Some y \<Longrightarrow> spin_post L t k b y"
    and eq: "(if t \<le> L then spin' clock L (clock k) (Suc k) else Some (t, k)) = Some r"
  show "spin_post clock L t k r"
  proof (cases "t \<le> L")
    case True
    then have "spin' clock L (clock k) (Suc k) = Some r" using eq by simp
    then have "spin_post clock L (clock k) (Suc k) r" by (rule IH)
    then show ?thesis unfolding spin_post_def by auto
  next
    case False
    then have "r = (t, k)" using eq by simp
    then show ?thesis using False unfolding spin_post_def by simp
  qed
qed

lemma mono_Suc: "(\<forall>i j. i \<le> j \<longrightarrow> clock i \<le> (clock j :: nat)) \<Longrightarrow> \<forall>i. clock i \<le> clock (Suc i)"
  by simp

lemma spin_result:
  assumes "spin clock L t k = Some (t', k')"
      and "\<forall>i j. i \<le> j \<longrightarrow> clock i \<le> clock j"
      and "t \<le> clock k"
  shows "L < t' \<and> t' \<le> clock k' \<and> k \<le> k' \<and> (t' = t \<or> (\<exists>j. t' = clock j))"
  using spin_result_aux [OF assms(1)] mono_Suc [OF assms(2)] assms(3) unfolding spin_post_def by simp

lemma spin_terminates:
  assumes "L < clock j" and "k \<le> j"
  shows "\<exists>r. spin clock L t k = Some r"
  using assms
proof (induction "j - k" arbitrary: k t)
  case 0
  then have "k = j" by simp
  then have "spin clock L (clock k) (Suc k) = Some (clock k, Suc k)"
    using 0 by (subst spin.simps) simp
  then show ?case by (subst spin.simps) simp
next
  case (Suc d)
  then have "d = j - Suc k" "Suc k \<le> j" by simp_all
  then obtain r where "spin clock L (clock k) (Suc k) = Some r"
    using Suc(1) [of "Suc k" "clock k"] Suc(3) by blast
  then show ?case by (subst spin.simps) simp
qed

section \<open>isValidJobId\<close>

lemma parseInt_digits:
  assumes "list_all is_digit s" and "s \<noteq> []"
  shows "parseInt s = Some (int (decimal_value s))"
proof -
  obtain c r where s: "s = c # r" using assms(2) by (cases s) auto
  then have c: "is_digit c" using assms(1) by simp
  have dw: "dropWhile is_space s = s" using s c is_digit_not_space by simp
  have tw: "takeWhile is_digit s = s" using assms(1) by (simp add: list_all_iff)
  show ?thesis
    unfolding parseInt_def dw
    using is_digit_not_sign [OF c] assms(2) tw by (simp add: s)
qed

lemma getTimestampFromJobId_digits:
  assumes "matches_d19 s"
  shows "getTimestampFromJobId s = Inr (int (decimal_value (take 13 s)))"
proof -
  have len: "length s = 19" and dig: "list_all is_digit s"
    using assms by (simp_all add: matches_d19_def)
  have "list_all is_digit (take 13 s)"
    using dig by (auto simp: list_all_iff dest: in_set_takeD)
  moreover have "take 13 s \<noteq> []" using len by auto
  ultimately have "parseInt (take 13 s) = Some (int (decimal_value (take 13 s)))"
    by (rule parseInt_digits)
  then show ?thesis using len by (auto simp add: getTimestampFromJobId_def)
qed

text \<open>
  C8. For every input, \<open>isValidJobId\<close> returns true if and only if the input is a
  string of exactly 19 characters, each a decimal digit, whose first 13 digits read as a
  number of milliseconds between 946684800000 (2000-01-01T00:00:00Z, day 10957 of the epoch)
  and 4102444800000 (2100-01-01T00:00:00Z, day 47482), both included. Every other input
  (another length, a character that is not a digit, a timestamp out of range, a value that
  is not a string) is rejected.
\<close>

theorem isValidJobId_iff:
  "isValidJobId v \<longleftrightarrow>
     (\<exists>s. v = JStr s \<and> length s = 19 \<and> list_all is_digit s
          \<and> 946684800000 \<le> decimal_value (take 13 s)
          \<and> decimal_value (take 13 s) \<le> 4102444800000)"
proof (cases v)
  case (JStr s)
  show ?thesis
  proof (cases "matches_d19 s")
    case True
    then show ?thesis
      using getTimestampFromJobId_digits [OF True] JStr
      by (simp add: isValidJobId_def matches_d19_def year2000_def year2100_def)
  next
    case False
    then show ?thesis using JStr by (auto simp add: isValidJobId_def matches_d19_def)
  qed
qed (simp_all add: isValidJobId_def)

text \<open>
  The characterisation at concrete inputs: a valid id, the last millisecond of 1999, a
  short id, an id with letters, and a number.
\<close>

theorem isValidJobId_iff_witness:
  "isValidJobId (JStr ''1700000000000123456'') \<and> \<not> isValidJobId (JStr ''0946684799999000000'')
   \<and> \<not> isValidJobId (JStr ''12345'') \<and> \<not> isValidJobId (JStr ''abcd567890123456789'')
   \<and> \<not> isValidJobId (JNum 1700000000000123456)"
  by (simp add: isValidJobId_iff is_digit_def decimal_value_def digit_val_def)

section \<open>generateNumericJobId\<close>

lemma padStart6:
  assumes "q < 1000000"
  shows "length (padStart 6 (CHR ''0'') (toString q)) = 6"
    and "decimal_value (padStart 6 (CHR ''0'') (toString q)) = q"
    and "list_all is_digit (padStart 6 (CHR ''0'') (toString q))"
proof -
  have "q < 10 ^ 6" using assms by simp
  then have "length (toString q) \<le> 6" using length_toString_le [of 6 q] by simp
  then show "length (padStart 6 (CHR ''0'') (toString q)) = 6"
    by (simp add: padStart_def)
  show "decimal_value (padStart 6 (CHR ''0'') (toString q)) = q"
    by (simp add: padStart_def decimal_value_append decimal_value_zeros decimal_value_toString)
  show "list_all is_digit (padStart 6 (CHR ''0'') (toString q))"
  proof -
    have "is_digit (CHR ''0'')" by (simp add: is_digit_def)
    then show ?thesis
      using toString_digits [of q] by (auto simp add: padStart_def list_all_iff)
  qed
qed

lemma decimal_value_job_id:
  assumes "q < 1000000"
  shows "decimal_value (toString t @ padStart 6 (CHR ''0'') (toString q)) = t * 1000000 + q"
  using padStart6 [OF assms] by (simp add: decimal_value_append decimal_value_toString)

lemma generate_step:
  assumes gen: "generateNumericJobId clock rnd s = Some (i, s')"
      and mono: "\<forall>i j. i \<le> j \<longrightarrow> clock i \<le> clock j"
      and rnd: "\<forall>j. rnd j < 1000000"
      and inv: "sequence s < 1000000" "lastTimestamp s \<le> clock (reads s)"
  shows "sequence s' < 1000000 \<and> lastTimestamp s' \<le> clock (reads s')
       \<and> i = toString (lastTimestamp s') @ padStart 6 (CHR ''0'') (toString (sequence s'))
       \<and> lastTimestamp s * 1000000 + sequence s < lastTimestamp s' * 1000000 + sequence s'
       \<and> (\<exists>j. lastTimestamp s' = clock j)"
proof (cases "clock (reads s) = lastTimestamp s")
  case same: True
  show ?thesis
  proof (cases "(sequence s + 1) mod 1000000 = 0")
    case wrap: True
    obtain t k' where sp: "spin clock (lastTimestamp s) (clock (reads s)) (Suc (reads s)) = Some (t, k')"
      using gen same wrap by (auto simp add: generateNumericJobId_def Let_def split: option.splits)
    have s': "s' = \<lparr>lastTimestamp = t, sequence = 0, reads = k', draws = draws s\<rparr>"
      and i: "i = toString t @ padStart 6 (CHR ''0'') (toString 0)"
      using gen same wrap sp by (auto simp add: generateNumericJobId_def Let_def)
    have "clock (reads s) \<le> clock (Suc (reads s))" using mono by simp
    from spin_result [OF sp mono this]
    have t: "lastTimestamp s < t" "t \<le> clock k'" "t = clock (reads s) \<or> (\<exists>j. t = clock j)"
      by auto
    have "Suc (lastTimestamp s) * 1000000 \<le> t * 1000000"
      using t(1) by (intro mult_le_mono1) simp
    then have "lastTimestamp s * 1000000 + sequence s < t * 1000000"
      using inv(1) by simp
    then show ?thesis using s' i t same by auto
  next
    case nowrap: False
    have s': "s' = \<lparr>lastTimestamp = clock (reads s), sequence = (sequence s + 1) mod 1000000,
                     reads = Suc (reads s), draws = draws s\<rparr>"
      and i: "i = toString (clock (reads s)) @ padStart 6 (CHR ''0'') (toString ((sequence s + 1) mod 1000000))"
      using gen same nowrap by (auto simp add: generateNumericJobId_def Let_def)
    have "sequence s + 1 < 1000000"
      using nowrap inv(1) by (cases "sequence s + 1 = 1000000") auto
    then have sq: "(sequence s + 1) mod 1000000 = sequence s + 1" by simp
    have "clock (reads s) \<le> clock (Suc (reads s))" using mono by simp
    moreover have "\<exists>j. lastTimestamp s = clock j" using same by metis
    ultimately show ?thesis using s' i sq same \<open>sequence s + 1 < 1000000\<close> by auto
  qed
next
  case diff: False
  have s': "s' = \<lparr>lastTimestamp = clock (reads s), sequence = rnd (draws s),
                   reads = Suc (reads s), draws = Suc (draws s)\<rparr>"
    and i: "i = toString (clock (reads s)) @ padStart 6 (CHR ''0'') (toString (rnd (draws s)))"
    using gen diff by (auto simp add: generateNumericJobId_def Let_def)
  have lt: "lastTimestamp s < clock (reads s)" using diff inv(2) by simp
  have "clock (reads s) \<le> clock (Suc (reads s))" using mono by simp
  moreover have "lastTimestamp s * 1000000 + sequence s < clock (reads s) * 1000000"
  proof -
    have "Suc (lastTimestamp s) * 1000000 \<le> clock (reads s) * 1000000"
      using lt by (intro mult_le_mono1) simp
    then show ?thesis using inv(1) by simp
  qed
  ultimately show ?thesis using s' i rnd by auto
qed


lemma generate_many_increasing:
  assumes mono: "\<forall>i j. i \<le> j \<longrightarrow> clock i \<le> clock j"
      and rnd: "\<forall>j. rnd j < 1000000"
  shows "generate_many clock rnd n s = Some (ids, s') \<Longrightarrow>
         sequence s < 1000000 \<Longrightarrow> lastTimestamp s \<le> clock (reads s) \<Longrightarrow>
         distinct ids \<and>
         (\<forall>i\<in>set ids. lastTimestamp s * 1000000 + sequence s < decimal_value i
            \<and> (\<exists>j q. q < 1000000 \<and> i = toString (clock j) @ padStart 6 (CHR ''0'') (toString q)))"
proof (induction n arbitrary: s ids)
  case 0
  then show ?case by simp
next
  case (Suc n)
  obtain i s1 where g: "generateNumericJobId clock rnd s = Some (i, s1)"
    using Suc.prems(1) by (auto split: option.splits)
  obtain rest where r: "generate_many clock rnd n s1 = Some (rest, s')" and ids: "ids = i # rest"
    using Suc.prems(1) g by (auto split: option.splits)
  from generate_step [OF g mono rnd Suc.prems(2,3)]
  have st: "sequence s1 < 1000000" "lastTimestamp s1 \<le> clock (reads s1)"
    "i = toString (lastTimestamp s1) @ padStart 6 (CHR ''0'') (toString (sequence s1))"
    "lastTimestamp s * 1000000 + sequence s < lastTimestamp s1 * 1000000 + sequence s1"
    "\<exists>j. lastTimestamp s1 = clock j"
    by auto
  have vi: "decimal_value i = lastTimestamp s1 * 1000000 + sequence s1"
    using st(1,3) by (simp add: decimal_value_job_id)
  from Suc.IH [OF r st(1,2)]
  have ih: "distinct rest"
    "\<forall>x\<in>set rest. lastTimestamp s1 * 1000000 + sequence s1 < decimal_value x
        \<and> (\<exists>j q. q < 1000000 \<and> x = toString (clock j) @ padStart 6 (CHR ''0'') (toString q))"
    by auto
  have "i \<notin> set rest" using ih(2) vi by auto
  moreover have "\<exists>j q. q < 1000000 \<and> i = toString (clock j) @ padStart 6 (CHR ''0'') (toString q)"
    using st(1,3,5) by metis
  ultimately show ?case
    using ids ih st(4) vi by auto
qed

text \<open>
  The allocator returns whenever the clock passes \<open>lastTimestamp\<close> at some later read;
  only a clock that stands still for ever keeps it in the loop.
\<close>

lemma generateNumericJobId_returns:
  assumes "lastTimestamp s < clock j" and "Suc (reads s) \<le> j"
  shows "\<exists>r. generateNumericJobId clock rnd s = Some r"
proof -
  obtain r where "spin clock (lastTimestamp s) (clock (reads s)) (Suc (reads s)) = Some r"
    using spin_terminates [where clock = clock and L = "lastTimestamp s" and j = j
        and k = "Suc (reads s)" and t = "clock (reads s)"] assms by blast
  then show ?thesis
    by (cases r; cases "clock (reads s) = lastTimestamp s";
        cases "(sequence s + 1) mod 1000000 = 0")
       (simp_all add: generateNumericJobId_def Let_def)
qed

lemma length_toString_13:
  assumes "1000000000000 \<le> t" and "t < 10000000000000"
  shows "length (toString t) = 13"
proof -
  have "12 < length (toString t)" using length_toString_gt [of 12 t] assms(1) by simp
  moreover have "length (toString t) \<le> 13" using length_toString_le [of 13 t] assms(2) by simp
  ultimately show ?thesis by simp
qed

text \<open>
  C7. Every id returned by \<open>generateNumericJobId\<close> is a string of 19 decimal digits, and
  the ids returned by any sequence of calls on one allocator, started in the state the
  module is loaded with, are pairwise distinct. The clock is non-decreasing and reads a
  13-digit number of milliseconds (a date from 2001-09-09 to 2286-11-20, the range in which
  \<^verbatim>\<open>Date.now()\<close> prints as 13 digits); the random draw is below 1000000, as
  \<^verbatim>\<open>Math.floor(Math.random() * 1000000)\<close> is.
\<close>

theorem generated_ids_wellformed_distinct:
  assumes mono: "\<forall>i j. i \<le> j \<longrightarrow> clock i \<le> clock j"
      and range: "\<forall>k. 1000000000000 \<le> clock k \<and> clock k < 10000000000000"
      and rnd: "\<forall>j. rnd j < 1000000"
      and run: "generate_many clock rnd n alloc_init = Some (ids, s')"
  shows "distinct ids \<and> (\<forall>i\<in>set ids. length i = 19 \<and> list_all is_digit i)"
proof -
  have init: "sequence alloc_init < 1000000" "lastTimestamp alloc_init \<le> clock (reads alloc_init)"
    by (simp_all add: alloc_init_def)
  note inc = generate_many_increasing [OF mono rnd run init]
  have d: "distinct ids" using inc by (rule conjunct1)
  have f: "\<exists>j q. q < 1000000 \<and> i = toString (clock j) @ padStart 6 (CHR ''0'') (toString q)"
    if "i \<in> set ids" for i
    using conjunct2 [OF inc] that by blast
  have "length i = 19 \<and> list_all is_digit i" if mem: "i \<in> set ids" for i
  proof -
    obtain j q where q: "q < 1000000"
      and i: "i = toString (clock j) @ padStart 6 (CHR ''0'') (toString q)"
      using f [OF mem] by blast
    have "1000000000000 \<le> clock j" "clock j < 10000000000000"
      using range by blast+
    then have "length (toString (clock j)) = 13"
      by (rule length_toString_13)
    then show ?thesis
      using padStart6(1,3) [OF q] toString_digits [of "clock j"] unfolding i by simp
  qed
  then show ?thesis using d by blast
qed

text \<open>
  Three calls within two milliseconds, the first drawing 999999: the second call wraps the
  sequence to 0 and waits for the next millisecond.
\<close>

theorem generated_ids_wellformed_distinct_witness:
  "generate_many (\<lambda>k. 1700000000000 + min k 100 div 2) (\<lambda>j. 999999) (Suc (Suc (Suc 0))) alloc_init
     = Some ([''1700000000000999999'', ''1700000000001000000'', ''1700000000001000001''],
             \<lparr>lastTimestamp = 1700000000001, sequence = 1, reads = 4, draws = 1\<rparr>)
   \<and> distinct [''1700000000000999999'', ''1700000000001000000'', ''1700000000001000001'']
   \<and> list_all (\<lambda>i. length i = 19 \<and> list_all is_digit i)
         [''1700000000000999999'', ''1700000000001000000'', ''1700000000001000001'']"
proof -
  let ?clock = "\<lambda>k::nat. (1700000000000::nat) + min k 100 div 2"
  let ?rnd = "\<lambda>j::nat. 999999::nat"
  have mono: "\<forall>i j. i \<le> j \<longrightarrow> ?clock i \<le> ?clock j"
  proof (intro allI impI)
    fix i j :: nat assume "i \<le> j"
    then have "min i 100 \<le> min j 100" by simp
    then have "min i 100 div 2 \<le> min j 100 div 2" by (rule div_le_mono)
    then show "?clock i \<le> ?clock j" by simp
  qed
  have range: "\<forall>k. 1000000000000 \<le> ?clock k \<and> ?clock k < 10000000000000"
  proof
    fix k :: nat
    have "min k 100 div 2 \<le> 100 div 2" by (rule div_le_mono) simp
    then show "1000000000000 \<le> ?clock k \<and> ?clock k < 10000000000000" by simp
  qed
  have rnd: "\<forall>j. ?rnd j < 1000000" by simp
  have ts: "toString 1700000000000 = ''1700000000000''" "toString 1700000000001 = ''1700000000001''"
    "toString 999999 = ''999999''" "toString 0 = ''0''" "toString (Suc 0) = ''1''"
    by (simp_all add: toString.simps digit_char_def)
  have rep: "replicate 5 (CHR ''0'') = ''00000''" by (simp add: numeral_eq_Suc)
  have sp: "spin ?clock 1700000000000 1700000000000 (Suc (Suc 0)) = Some (1700000000001, Suc (Suc (Suc 0)))"
    by (subst spin.simps, simp, subst spin.simps, simp)
  have g1: "generateNumericJobId ?clock ?rnd alloc_init
      = Some (''1700000000000999999'', \<lparr>lastTimestamp = 1700000000000, sequence = 999999, reads = Suc 0, draws = Suc 0\<rparr>)"
    by (simp add: generateNumericJobId_def alloc_init_def ts padStart_def)
  have g2: "generateNumericJobId ?clock ?rnd \<lparr>lastTimestamp = 1700000000000, sequence = 999999, reads = Suc 0, draws = Suc 0\<rparr>
      = Some (''1700000000001000000'', \<lparr>lastTimestamp = 1700000000001, sequence = 0, reads = Suc (Suc (Suc 0)), draws = Suc 0\<rparr>)"
    by (simp add: generateNumericJobId_def sp ts padStart_def rep)
  have g3: "generateNumericJobId ?clock ?rnd \<lparr>lastTimestamp = 1700000000001, sequence = 0, reads = Suc (Suc (Suc 0)), draws = Suc 0\<rparr>
      = Some (''1700000000001000001'', \<lparr>lastTimestamp = 1700000000001, sequence = 1, reads = Suc (Suc (Suc (Suc 0))), draws = Suc 0\<rparr>)"
    by (simp add: generateNumericJobId_def ts padStart_def rep)
  have run: "generate_many ?clock ?rnd (Suc (Suc (Suc 0))) alloc_init
     = Some ([''1700000000000999999'', ''1700000000001000000'', ''1700000000001000001''],
             \<lparr>lastTimestamp = 1700000000001, sequence = 1, reads = 4, draws = 1\<rparr>)"
    by (simp add: g1 g2 g3)
  note th = generated_ids_wellformed_distinct [OF mono range rnd run]
  have "list_all (\<lambda>i. length i = 19 \<and> list_all is_digit i)
         [''1700000000000999999'', ''1700000000001000000'', ''1700000000001000001'']"
    using conjunct2 [OF th] unfolding list_all_iff .
  then show ?thesis
    using run conjunct1 [OF th] by (intro conjI)
qed

section \<open>Storage service: retries\<close>

lemma retryOperation_1:
  "retryOperation operation 1 nm w =
     (case operation w of
        (Inr v, w1) \<Rightarrow> (Inr v, w1)
      | (Inl e, w1) \<Rightarrow> (Inl (StorageError (nm @ '' failed after 1 attempts'') STORAGE_ERROR), w1))"
proof -
  have ts: "toString (Suc 0) = ''1''" by (simp add: toString.simps digit_char_def)
  show ?thesis
    unfolding retryOperation_def
    by (subst retry_from.simps, simp split: prod.splits sum.splits)
       (subst retry_from.simps, simp add: ts)
qed

lemma retryOperation_3:
  "retryOperation operation 3 nm w =
     (case operation w of
        (Inr v, w1) \<Rightarrow> (Inr v, w1)
      | (Inl e1, w1) \<Rightarrow>
          (case operation (sleep 100 w1) of
             (Inr v, w2) \<Rightarrow> (Inr v, w2)
           | (Inl e2, w2) \<Rightarrow>
               (case operation (sleep 200 w2) of
                  (Inr v, w3) \<Rightarrow> (Inr v, w3)
                | (Inl e3, w3) \<Rightarrow>
                    (Inl (StorageError (nm @ '' failed after 3 attempts'') STORAGE_ERROR), w3))))"
proof -
  have ts: "toString 3 = ''3''" by (simp add: toString.simps digit_char_def)
  have last: "retry_from operation 3 nm 4 w' =
      (Inl (StorageError (nm @ '' failed after 3 attempts'') STORAGE_ERROR), w')" for w'
    by (subst retry_from.simps) (simp add: ts)
  have third: "retry_from operation 3 nm 3 w' =
      (case operation w' of (Inr v, w3) \<Rightarrow> (Inr v, w3)
       | (Inl e3, w3) \<Rightarrow> (Inl (StorageError (nm @ '' failed after 3 attempts'') STORAGE_ERROR), w3))" for w'
    by (subst retry_from.simps) (simp add: last split: prod.splits sum.splits)
  have second: "retry_from operation 3 nm 2 w' =
      (case operation w' of (Inr v, w2) \<Rightarrow> (Inr v, w2)
       | (Inl e2, w2) \<Rightarrow> retry_from operation 3 nm 3 (sleep 200 w2))" for w'
    by (subst retry_from.simps) (simp split: prod.splits sum.splits)
  have first: "retry_from operation 3 nm 1 w' =
      (case operation w' of (Inr v, w1) \<Rightarrow> (Inr v, w1)
       | (Inl e1, w1) \<Rightarrow> retry_from operation 3 nm 2 (sleep 100 w1))" for w'
    by (subst retry_from.simps) (simp add: numeral_2_eq_2 [symmetric] split: prod.splits sum.splits)
  show ?thesis
    unfolding retryOperation_def first
    by (simp add: second third split: prod.splits sum.splits)
qed

lemma faults_shape:
  obtains "fs = []" | a where "fs = [a]" | a b where "fs = [a, b]" | a b c r where "fs = a # b # c # r"
  by (cases fs; cases "tl fs"; cases "tl (tl fs)") auto

lemma fails_first_unfold:
  "fails_first 1 fs = next_fault fs"
  "fails_first (Suc 0) fs = next_fault fs"
  "fails_first 2 fs = (next_fault fs \<and> next_fault (tl fs))"
  "fails_first 3 fs = (next_fault fs \<and> next_fault (tl fs) \<and> next_fault (tl (tl fs)))"
  by (cases fs rule: faults_shape; simp add: next_fault_def numeral_2_eq_2 numeral_3_eq_3)+

lemma drop_3_tl: "drop 3 fs = tl (tl (tl fs))"
  by (simp add: numeral_3_eq_3 drop_Suc drop_tl)

lemma rethrow_storage_StorageError [simp]:
  "rethrow_storage msg (StorageError m t) = StorageError m t"
  by (simp add: rethrow_storage_def StorageError_def)

lemma redis_get_eq:
  "redis_get key w =
     (if next_fault (redis_faults w) then Inl redis_down else Inr (map_of (redis w) key),
      w\<lparr>redis_faults := tl (redis_faults w), effects := effects w @ [RedisCall ''get'' key]\<rparr>)"
  by (simp add: redis_get_def redis_call_def)

lemma getJob_eq:
  assumes "truthy job_id"
  shows "getJob job_id w =
     (let fs = redis_faults w; key = getJobKey job_id; call = RedisCall ''get'' key in
      if \<not> next_fault fs
      then (Inr (map_of (redis w) key), w\<lparr>redis_faults := tl fs, effects := effects w @ [call]\<rparr>)
      else if \<not> next_fault (tl fs)
      then (Inr (map_of (redis w) key),
            w\<lparr>redis_faults := tl (tl fs), effects := effects w @ [call, Sleep 100, call]\<rparr>)
      else if \<not> next_fault (tl (tl fs))
      then (Inr (map_of (redis w) key),
            w\<lparr>redis_faults := tl (tl (tl fs)),
              effects := effects w @ [call, Sleep 100, call, Sleep 200, call]\<rparr>)
      else (Inl (StorageError ''get job failed after 3 attempts'' STORAGE_ERROR),
            w\<lparr>redis_faults := tl (tl (tl fs)),
              effects := effects w @ [call, Sleep 100, call, Sleep 200, call]\<rparr>))"
  using assms
  by (simp add: getJob_def Let_def retryOperation_3 redis_get_eq sleep_def split: option.splits)

lemma getJob_exhausted:
  assumes "truthy job_id" and "fails_first 3 (redis_faults w)"
  shows "getJob job_id w =
     (Inl (StorageError ''get job failed after 3 attempts'' STORAGE_ERROR),
      w\<lparr>redis_faults := drop 3 (redis_faults w),
        effects := effects w @ [RedisCall ''get'' (getJobKey job_id), Sleep 100,
                                RedisCall ''get'' (getJobKey job_id), Sleep 200,
                                RedisCall ''get'' (getJobKey job_id)]\<rparr>)"
  using assms(2) by (simp add: getJob_eq [OF assms(1)] Let_def fails_first_unfold drop_3_tl)

lemma getJob_answered:
  assumes "truthy job_id" and "\<not> fails_first 3 (redis_faults w)"
  shows "fst (getJob job_id w) = Inr (map_of (redis w) (getJobKey job_id))"
    and "redis (snd (getJob job_id w)) = redis w"
    and "sleeps_in (new_effects w (snd (getJob job_id w))) =
           (if fails_first 2 (redis_faults w) then [100, 200]
            else if fails_first 1 (redis_faults w) then [100] else [])"
    and "redis_calls_in (new_effects w (snd (getJob job_id w))) =
           (if fails_first 2 (redis_faults w) then 3
            else if fails_first 1 (redis_faults w) then 2 else 1)"
  using assms(2)
  by (simp_all add: getJob_eq [OF assms(1)] Let_def fails_first_unfold new_effects_def
        sleeps_in_def redis_calls_in_def)

section \<open>Storage service: what each operation changes\<close>

lemma extends_by_refl: "extends_by P w w"
  by (simp add: extends_by_def)

lemma extends_by_trans:
  assumes "extends_by P w w1" and "extends_by P w1 w2"
  shows "extends_by P w w2"
proof -
  obtain es where es: "effects w1 = effects w @ es" "list_all P es"
    using assms(1) by (auto simp add: extends_by_def)
  obtain fs where fs: "effects w2 = effects w1 @ fs" "list_all P fs"
    using assms(2) by (auto simp add: extends_by_def)
  have "effects w2 = effects w @ (es @ fs)" "list_all P (es @ fs)"
    using es fs by simp_all
  then have "\<exists>gs. effects w2 = effects w @ gs \<and> list_all P gs" by blast
  then show ?thesis using assms by (simp add: extends_by_def)
qed

lemma extends_by_weaken:
  assumes "extends_by P w w'" and "\<And>e. P e \<Longrightarrow> Q e"
  shows "extends_by Q w w'"
  using assms by (auto simp add: extends_by_def list_all_iff)

lemma probe_is_storage_event: "is_probe e \<Longrightarrow> is_storage_event e"
  by (cases e) simp_all

lemma extends_by_new_effects:
  "extends_by P w w' \<Longrightarrow> list_all P (new_effects w w')"
  by (auto simp add: extends_by_def new_effects_def)

lemma err_name_StorageError [simp]: "err_name (StorageError m t) = ''StorageError''"
  by (simp add: StorageError_def)

lemma err_name_rethrow_storage [simp]: "err_name (rethrow_storage m e) = ''StorageError''"
  by (simp add: rethrow_storage_def)

lemma rethrow_storage_id: "err_name e = ''StorageError'' \<Longrightarrow> rethrow_storage m e = e"
  by (simp add: rethrow_storage_def)

lemma getJob_falsy:
  "\<not> truthy job_id \<Longrightarrow>
   getJob job_id w = (Inl (StorageError ''job_id is required'' VALIDATION_ERROR), w)"
  by (simp add: getJob_def)

lemma getJob_frame:
  "redis (snd (getJob job_id w)) = redis w \<and> extends_by is_probe w (snd (getJob job_id w))"
proof (cases "truthy job_id")
  case True
  show ?thesis
    by (simp add: getJob_eq [OF True] Let_def extends_by_def)
next
  case False
  then show ?thesis by (simp add: getJob_falsy extends_by_refl)
qed

lemma getJob_result:
  "getJob job_id w = (r, w') \<Longrightarrow>
   (case r of Inl e \<Rightarrow> err_name e = ''StorageError''
            | Inr v \<Rightarrow> truthy job_id \<and> v = map_of (redis w) (getJobKey job_id))"
proof (cases "truthy job_id")
  case True
  assume "getJob job_id w = (r, w')"
  then show ?thesis
    using True by (auto simp add: getJob_eq [OF True] Let_def split: if_splits)
next
  case False
  assume "getJob job_id w = (r, w')"
  then show ?thesis using False by (auto simp add: getJob_falsy)
qed

lemma redis_setex_eq:
  "redis_setex key ttl v w =
     (if next_fault (redis_faults w)
      then (Inl redis_down,
            w\<lparr>redis_faults := tl (redis_faults w), effects := effects w @ [RedisCall ''setex'' key]\<rparr>)
      else (Inr (),
            w\<lparr>redis := put key v (redis w), redis_faults := tl (redis_faults w),
              effects := effects w @ [RedisCall ''setex'' key, RedisWrite key (map_of (redis w) key) v]\<rparr>))"
  by (simp add: redis_setex_def redis_call_def)

lemma setex3_eq:
  "retryOperation (redis_setex key ttl v) 3 nm w =
     (let fs = redis_faults w; call = RedisCall ''setex'' key;
          wr = RedisWrite key (map_of (redis w) key) v in
      if \<not> next_fault fs
      then (Inr (), w\<lparr>redis := put key v (redis w), redis_faults := tl fs,
                     effects := effects w @ [call, wr]\<rparr>)
      else if \<not> next_fault (tl fs)
      then (Inr (), w\<lparr>redis := put key v (redis w), redis_faults := tl (tl fs),
                     effects := effects w @ [call, Sleep 100, call, wr]\<rparr>)
      else if \<not> next_fault (tl (tl fs))
      then (Inr (), w\<lparr>redis := put key v (redis w), redis_faults := tl (tl (tl fs)),
                     effects := effects w @ [call, Sleep 100, call, Sleep 200, call, wr]\<rparr>)
      else (Inl (StorageError (nm @ '' failed after 3 attempts'') STORAGE_ERROR),
            w\<lparr>redis_faults := tl (tl (tl fs)),
              effects := effects w @ [call, Sleep 100, call, Sleep 200, call]\<rparr>))"
  by (simp add: Let_def retryOperation_3 redis_setex_eq sleep_def)

lemma setex3_result:
  assumes "retryOperation (redis_setex key ttl v) 3 nm w = (r, w')"
  shows "case r of
           Inl e \<Rightarrow> e = StorageError (nm @ '' failed after 3 attempts'') STORAGE_ERROR
                     \<and> fails_first 3 (redis_faults w)
                     \<and> redis w' = redis w \<and> extends_by is_probe w w'
         | Inr _ \<Rightarrow> \<not> fails_first 3 (redis_faults w) \<and> redis w' = put key v (redis w)
                     \<and> extends_by is_storage_event w w'
                     \<and> writes_in (new_effects w w') = [RedisWrite key (map_of (redis w) key) v]"
  using assms
  by (auto simp add: setex3_eq Let_def extends_by_def fails_first_unfold new_effects_def
        writes_in_def split: if_splits)

lemma updateJob_falsy:
  "\<not> truthy job_id \<Longrightarrow>
   updateJob job_id upd w = (Inl (StorageError ''job_id is required'' VALIDATION_ERROR), w)"
  by (simp add: updateJob_def)

lemma updateJob_eq:
  assumes "truthy job_id"
  shows "updateJob job_id upd w =
     (case getJob job_id w of
        (Inl e, w1) \<Rightarrow> (Inl e, w1)
      | (Inr None, w1) \<Rightarrow> (Inl (StorageError ''Job not found'' NOT_FOUND_ERROR), w1)
      | (Inr (Some existing), w1) \<Rightarrow>
          (case retryOperation (redis_setex (getJobKey job_id) TTL
                  (json_roundtrip (spread existing upd))) 3 ''update job'' w1 of
             (Inl e, w2) \<Rightarrow> (Inl e, w2)
           | (Inr _, w2) \<Rightarrow> (Inr (spread existing upd), w2)))"
proof -
  obtain r w1 where g: "getJob job_id w = (r, w1)" by (cases "getJob job_id w")
  note gr = getJob_result [OF g]
  show ?thesis
  proof (cases r)
    case (Inl e)
    then show ?thesis
      using assms g gr by (simp add: updateJob_def Let_def rethrow_storage_id)
  next
    case (Inr v)
    show ?thesis
    proof (cases v)
      case None
      then show ?thesis
        using assms g Inr by (simp add: updateJob_def Let_def)
    next
      case (Some existing)
      obtain r2 w2 where s: "retryOperation (redis_setex (getJobKey job_id) TTL
                  (json_roundtrip (spread existing upd))) 3 ''update job'' w1 = (r2, w2)"
        by (cases "retryOperation (redis_setex (getJobKey job_id) TTL
                  (json_roundtrip (spread existing upd))) 3 ''update job'' w1")
      show ?thesis
        using assms g Inr Some s setex3_result [OF s]
        by (cases r2) (simp_all add: updateJob_def Let_def)
    qed
  qed
qed

text \<open>What \<open>updateJob\<close> does, by outcome.\<close>

lemma updateJob_result:
  assumes "updateJob job_id upd w = (r, w')"
  shows "case r of
           Inl e \<Rightarrow> err_name e = ''StorageError'' \<and> redis w' = redis w \<and> extends_by is_probe w w'
         | Inr u \<Rightarrow> truthy job_id
                     \<and> (\<exists>existing. map_of (redis w) (getJobKey job_id) = Some existing
                           \<and> u = spread existing upd
                           \<and> writes_in (new_effects w w') =
                               [RedisWrite (getJobKey job_id) (Some existing) (json_roundtrip u)])
                     \<and> redis w' = put (getJobKey job_id) (json_roundtrip u) (redis w)
                     \<and> extends_by is_storage_event w w'"
proof (cases "truthy job_id")
  case False
  then show ?thesis using assms by (auto simp add: updateJob_falsy extends_by_refl)
next
  case True
  obtain g w1 where g: "getJob job_id w = (g, w1)" by (cases "getJob job_id w")
  note gr = getJob_result [OF g]
  have fr: "redis w1 = redis w" "extends_by is_probe w w1"
    using getJob_frame [of job_id w] g by simp_all
  show ?thesis
  proof (cases g)
    case (Inl e)
    then show ?thesis
      using assms g gr fr by (auto simp add: updateJob_eq [OF True])
  next
    case (Inr v)
    show ?thesis
    proof (cases v)
      case None
      then show ?thesis
        using assms g Inr fr by (auto simp add: updateJob_eq [OF True])
    next
      case (Some existing)
      let ?v = "json_roundtrip (spread existing upd)"
      obtain r2 w2 where s: "retryOperation (redis_setex (getJobKey job_id) TTL ?v) 3 ''update job'' w1 = (r2, w2)"
        by (cases "retryOperation (redis_setex (getJobKey job_id) TTL ?v) 3 ''update job'' w1")
      note sr = setex3_result [OF s]
      have ex: "map_of (redis w) (getJobKey job_id) = Some existing"
        using gr Inr Some by simp
      show ?thesis
      proof (cases r2)
        case (Inl e)
        then have "r = Inl e" "w' = w2"
          using assms g Inr Some s by (simp_all add: updateJob_eq [OF True])
        moreover have "extends_by is_probe w w2"
          using sr Inl fr(2) by (auto intro: extends_by_trans)
        ultimately show ?thesis using sr Inl fr(1) by simp
      next
        case (Inr u2)
        then have rw: "r = Inr (spread existing upd)" "w' = w2"
          using assms g \<open>g = Inr v\<close> Some s by (simp_all add: updateJob_eq [OF True])
        have e1: "extends_by is_storage_event w w1"
          using fr(2) probe_is_storage_event by (rule extends_by_weaken)
        have e2: "extends_by is_storage_event w w2"
          using sr Inr e1 by (auto intro: extends_by_trans)
        obtain es where es: "effects w1 = effects w @ es" "list_all is_probe es"
          using fr(2) by (auto simp add: extends_by_def)
        have "writes_in es = []"
          using es(2) unfolding writes_in_def
          by (induction es) (auto split: effect.splits)
        moreover have "writes_in (new_effects w1 w2) = [RedisWrite (getJobKey job_id) (Some existing) ?v]"
          using sr Inr ex fr(1) by simp
        moreover obtain fs where fs: "effects w2 = effects w1 @ fs"
          using sr Inr by (auto simp add: extends_by_def)
        ultimately have "writes_in (new_effects w w2) = [RedisWrite (getJobKey job_id) (Some existing) ?v]"
          using es(1) by (simp add: new_effects_def writes_in_def)
        then show ?thesis
          using rw True ex sr Inr fr(1) e2 by simp
      qed
    qed
  qed
qed

lemma updateJobIfPending_eq:
  "updateJobIfPending job_id upd w =
     (if \<not> truthy job_id then (Inr False, w)
      else case getJob job_id w of
             (Inl e, w1) \<Rightarrow> (Inr False, w1)
           | (Inr None, w1) \<Rightarrow> (Inr False, w1)
           | (Inr (Some job), w1) \<Rightarrow>
               if field job ''status'' \<noteq> JStr PENDING then (Inr False, w1)
               else (case updateJob job_id upd w1 of
                       (Inl e, w2) \<Rightarrow> (Inr False, w2)
                     | (Inr _, w2) \<Rightarrow> (Inr True, w2)))"
  by (simp add: updateJobIfPending_def updateJobIfPending_try_def
        split: prod.splits sum.splits option.splits)

lemma updateJobIfPending_result:
  assumes "updateJobIfPending job_id upd w = (r, w')"
  shows "(r = Inr True \<or> r = Inr False)
       \<and> (r = Inr True \<longrightarrow>
            truthy job_id
            \<and> (\<exists>job. map_of (redis w) (getJobKey job_id) = Some job
                  \<and> field job ''status'' = JStr PENDING
                  \<and> redis w' = put (getJobKey job_id) (json_roundtrip (spread job upd)) (redis w)
                  \<and> writes_in (new_effects w w') =
                      [RedisWrite (getJobKey job_id) (Some job) (json_roundtrip (spread job upd))])
            \<and> extends_by is_storage_event w w')
       \<and> (r = Inr False \<longrightarrow> redis w' = redis w \<and> extends_by is_probe w w')"
proof (cases "truthy job_id")
  case False
  then show ?thesis using assms by (auto simp add: updateJobIfPending_eq extends_by_refl)
next
  case True
  obtain g w1 where g: "getJob job_id w = (g, w1)" by (cases "getJob job_id w")
  note gr = getJob_result [OF g]
  have fr: "redis w1 = redis w" "extends_by is_probe w w1"
    using getJob_frame [of job_id w] g by simp_all
  show ?thesis
  proof (cases g)
    case (Inl e)
    then show ?thesis
      using assms g True fr by (auto simp add: updateJobIfPending_eq)
  next
    case (Inr v)
    show ?thesis
    proof (cases v)
      case None
      then show ?thesis
        using assms g True Inr fr by (auto simp add: updateJobIfPending_eq)
    next
      case (Some job)
      have ex: "map_of (redis w) (getJobKey job_id) = Some job" using gr Inr Some by simp
      show ?thesis
      proof (cases "field job ''status'' = JStr PENDING")
        case False
        then show ?thesis
          using assms g True Inr Some fr by (auto simp add: updateJobIfPending_eq)
      next
        case pending: True
        obtain u w2 where u: "updateJob job_id upd w1 = (u, w2)" by (cases "updateJob job_id upd w1")
        note ur = updateJob_result [OF u]
        show ?thesis
        proof (cases u)
          case (Inl e)
          then have "r = Inr False" "w' = w2"
            using assms g True \<open>g = Inr v\<close> Some pending u by (simp_all add: updateJobIfPending_eq)
          moreover have "extends_by is_probe w w2"
            using ur Inl fr(2) by (auto intro: extends_by_trans)
          ultimately show ?thesis using ur Inl fr(1) by simp
        next
          case (Inr rec)
          then have rw: "r = Inr True" "w' = w2"
            using assms g True \<open>g = Inr v\<close> Some pending u by (simp_all add: updateJobIfPending_eq)
          have e1: "extends_by is_storage_event w w1"
            using fr(2) probe_is_storage_event by (rule extends_by_weaken)
          have e2: "extends_by is_storage_event w w2"
            using ur Inr e1 by (auto intro: extends_by_trans)
          obtain es where es: "effects w1 = effects w @ es" "list_all is_probe es"
            using fr(2) by (auto simp add: extends_by_def)
          have w0: "writes_in es = []"
            using es(2) unfolding writes_in_def
            by (induction es) (auto split: effect.splits)
          obtain fs where fs: "effects w2 = effects w1 @ fs"
            using ur Inr by (auto simp add: extends_by_def)
          have "writes_in (new_effects w1 w2) =
                  [RedisWrite (getJobKey job_id) (Some job) (json_roundtrip (spread job upd))]"
            using ur Inr ex fr(1) by auto
          then have "writes_in (new_effects w w2) =
                  [RedisWrite (getJobKey job_id) (Some job) (json_roundtrip (spread job upd))]"
            using es(1) fs w0 by (simp add: new_effects_def writes_in_def)
          moreover have "redis w2 = put (getJobKey job_id) (json_roundtrip (spread job upd)) (redis w)"
            using ur Inr ex fr(1) by auto
          ultimately show ?thesis
            using rw True ex pending e2 by simp
        qed
      qed
    qed
  qed
qed

lemma map_of_put: "map_of (put k v al) k' = (if k' = k then Some v else map_of al k')"
  by (induction al) auto

text \<open>
  C10. \<open>updateJobIfPending\<close> never raises: whatever the job id, the update and the state of
  the store, it returns \<^verbatim>\<open>true\<close> or \<^verbatim>\<open>false\<close>. It returns \<^verbatim>\<open>false\<close> when there is no
  record, when the stored status is not PENDING, and when a storage operation under it
  fails (the read \<open>getJob\<close>, or the \<open>updateJob\<close> that follows it), which the caller cannot
  tell from an already claimed job; a \<^verbatim>\<open>false\<close> leaves the store as it was. It returns
  \<^verbatim>\<open>true\<close> only when the record was there with status PENDING, and then the record
  stored is that record with the given fields merged in.
\<close>

theorem updateJobIfPending_total:
  "(fst (updateJobIfPending job_id upd w) = Inr True \<or> fst (updateJobIfPending job_id upd w) = Inr False)
   \<and> (map_of (redis w) (getJobKey job_id) = None
        \<longrightarrow> fst (updateJobIfPending job_id upd w) = Inr False)
   \<and> (\<forall>job. map_of (redis w) (getJobKey job_id) = Some job \<and> field job ''status'' \<noteq> JStr PENDING
        \<longrightarrow> fst (updateJobIfPending job_id upd w) = Inr False)
   \<and> (\<forall>e. fst (getJob job_id w) = Inl e \<longrightarrow> fst (updateJobIfPending job_id upd w) = Inr False)
   \<and> (\<forall>e. fst (updateJob job_id upd (snd (getJob job_id w))) = Inl e
        \<longrightarrow> fst (updateJobIfPending job_id upd w) = Inr False)
   \<and> (fst (updateJobIfPending job_id upd w) = Inr False
        \<longrightarrow> redis (snd (updateJobIfPending job_id upd w)) = redis w)
   \<and> (fst (updateJobIfPending job_id upd w) = Inr True \<longrightarrow>
        (\<exists>job. map_of (redis w) (getJobKey job_id) = Some job \<and> field job ''status'' = JStr PENDING
           \<and> map_of (redis (snd (updateJobIfPending job_id upd w))) (getJobKey job_id)
                = Some (json_roundtrip (spread job upd))
           \<and> redis (snd (updateJobIfPending job_id upd w))
                = put (getJobKey job_id) (json_roundtrip (spread job upd)) (redis w)))"
proof -
  define key where "key = getJobKey job_id"
  define r where "r = fst (updateJobIfPending job_id upd w)"
  define w' where "w' = snd (updateJobIfPending job_id upd w)"
  have p: "updateJobIfPending job_id upd w = (r, w')" by (simp add: r_def w'_def)
  note res = updateJobIfPending_result [OF p]
  obtain g w1 where g: "getJob job_id w = (g, w1)" by (cases "getJob job_id w")
  note gr = getJob_result [OF g]
  have c1: "r = Inr True \<or> r = Inr False" using res by blast
  have nt: "r = Inr True \<Longrightarrow> \<exists>job. map_of (redis w) key = Some job \<and> field job ''status'' = JStr PENDING
                  \<and> redis w' = put key (json_roundtrip (spread job upd)) (redis w)"
    using res unfolding key_def by blast
  have c2: "map_of (redis w) key = None \<longrightarrow> r = Inr False"
    using c1 nt by auto
  have c3: "\<forall>job. map_of (redis w) key = Some job \<and> field job ''status'' \<noteq> JStr PENDING
                \<longrightarrow> r = Inr False"
    using c1 nt by auto
  have c4: "\<forall>e. fst (getJob job_id w) = Inl e \<longrightarrow> r = Inr False"
    using p g by (auto simp add: updateJobIfPending_eq split: if_splits)
  have c5: "\<forall>e. fst (updateJob job_id upd (snd (getJob job_id w))) = Inl e \<longrightarrow> r = Inr False"
    using p g by (auto simp add: updateJobIfPending_eq split: if_splits sum.splits option.splits prod.splits)
  have c6: "r = Inr False \<longrightarrow> redis w' = redis w" using res by blast
  have c7: "r = Inr True \<longrightarrow>
            (\<exists>job. map_of (redis w) key = Some job \<and> field job ''status'' = JStr PENDING
                  \<and> map_of (redis w') key = Some (json_roundtrip (spread job upd))
                  \<and> redis w' = put key (json_roundtrip (spread job upd)) (redis w))"
    using nt by (auto simp add: map_of_put)
  show ?thesis using c1 c2 c3 c4 c5 c6 c7 unfolding key_def r_def w'_def by blast
qed

text \<open>The equations that evaluate the storage service on a concrete world.\<close>

lemmas eval_storage = updateJobIfPending_eq getJob_eq updateJob_eq setex3_eq Let_def
  getJobKey_def KEY_PREFIX_def TTL_def next_fault_def spread_def json_roundtrip_def field_def
  PENDING_def PROCESSING_def FAILED_def COMPLETED_def example_world_def example_job_def

text \<open>
  On the example world the claim of a PENDING record succeeds and stores PROCESSING; with
  the store down for three calls, and for an id that has no record, the answer is
  \<^verbatim>\<open>false\<close>.
\<close>

theorem updateJobIfPending_total_witness:
  "fst (updateJobIfPending (JStr ''1700000000000123456'') [(''status'', JStr ''PROCESSING'')] example_world)
     = Inr True
   \<and> map_of (redis (snd (updateJobIfPending (JStr ''1700000000000123456'') [(''status'', JStr ''PROCESSING'')]
          example_world))) ''job:1700000000000123456''
     = Some [(''job_id'', JStr ''1700000000000123456''), (''url'', JStr ''https://example.com''),
             (''status'', JStr ''PROCESSING'')]
   \<and> fst (updateJobIfPending (JStr ''1700000000000123456'') [(''status'', JStr ''PROCESSING'')]
          (example_world\<lparr>redis_faults := [True, True, True]\<rparr>)) = Inr False
   \<and> fst (updateJobIfPending (JStr ''1700000000000999999'') [(''status'', JStr ''PROCESSING'')]
          example_world) = Inr False"
proof -
  let ?jid = "JStr ''1700000000000123456''" and ?upd = "[(''status'', JStr ''PROCESSING'')]"
  have t: "fst (updateJobIfPending ?jid ?upd example_world) = Inr True"
    by (simp add: eval_storage)
  have k: "getJobKey ?jid = ''job:1700000000000123456''"
    by (simp add: getJobKey_def KEY_PREFIX_def)
  have m: "map_of (redis example_world) ''job:1700000000000123456'' = Some example_job"
    by (simp add: example_world_def)
  have g: "fst (getJob ?jid (example_world\<lparr>redis_faults := [True, True, True]\<rparr>))
      = Inl (StorageError ''get job failed after 3 attempts'' STORAGE_ERROR)"
    by (simp add: eval_storage)
  have n: "map_of (redis example_world) (getJobKey (JStr ''1700000000000999999'')) = None"
    by (simp add: example_world_def getJobKey_def KEY_PREFIX_def)
  note a = updateJobIfPending_total [of ?jid ?upd example_world]
  note b = updateJobIfPending_total [of ?jid ?upd "example_world\<lparr>redis_faults := [True, True, True]\<rparr>"]
  note c = updateJobIfPending_total [of "JStr ''1700000000000999999''" ?upd example_world]
  have "map_of (redis (snd (updateJobIfPending ?jid ?upd example_world))) ''job:1700000000000123456''
      = Some (json_roundtrip (spread example_job ?upd))"
    using a t k m by auto
  then have "map_of (redis (snd (updateJobIfPending ?jid ?upd example_world))) ''job:1700000000000123456''
     = Some [(''job_id'', JStr ''1700000000000123456''), (''url'', JStr ''https://example.com''),
             (''status'', JStr ''PROCESSING'')]"
    by (simp add: spread_def json_roundtrip_def example_job_def)
  moreover have "fst (updateJobIfPending ?jid ?upd (example_world\<lparr>redis_faults := [True, True, True]\<rparr>)) = Inr False"
    using b g by blast
  moreover have "fst (updateJobIfPending (JStr ''1700000000000999999'') ?upd example_world) = Inr False"
    using c n by blast
  ultimately show ?thesis using t by blast
qed

section \<open>Storage service: the retry policy\<close>

lemma redis_exists_eq:
  "redis_exists key w =
     (if next_fault (redis_faults w) then Inl redis_down else Inr (map_of (redis w) key \<noteq> None),
      w\<lparr>redis_faults := tl (redis_faults w), effects := effects w @ [RedisCall ''exists'' key]\<rparr>)"
  by (simp add: redis_exists_def redis_call_def)

lemma createJob_eq:
  assumes "truthy (field jobData ''job_id'')" "truthy (field jobData ''url'')"
    "truthy (field jobData ''status'')"
  shows "createJob jobData w =
     (let fs = redis_faults w; key = getJobKey (field jobData ''job_id'');
          ex = RedisCall ''exists'' key; st = RedisCall ''setex'' key in
      if next_fault fs
      then (Inl (StorageError ''check job existence failed after 1 attempts'' STORAGE_ERROR),
            w\<lparr>redis_faults := tl fs, effects := effects w @ [ex]\<rparr>)
      else if map_of (redis w) key \<noteq> None
      then (Inl (StorageError ''Job already exists'' VALIDATION_ERROR),
            w\<lparr>redis_faults := tl fs, effects := effects w @ [ex]\<rparr>)
      else if next_fault (tl fs)
      then (Inl (StorageError ''create job failed after 1 attempts'' STORAGE_ERROR),
            w\<lparr>redis_faults := tl (tl fs), effects := effects w @ [ex, st]\<rparr>)
      else (Inr jobData,
            w\<lparr>redis := put key (json_roundtrip jobData) (redis w), redis_faults := tl (tl fs),
              effects := effects w @ [ex, st, RedisWrite key None (json_roundtrip jobData)]\<rparr>))"
  using assms
  by (simp add: createJob_def Let_def retryOperation_1 retryOperation_1 [unfolded One_nat_def] redis_exists_eq redis_setex_eq)

lemma updateJob_write_phase:
  assumes "truthy job_id" and "fst (getJob job_id w) = Inr (Some existing)"
  shows "updateJob job_id upd w =
     (case retryOperation (redis_setex (getJobKey job_id) TTL (json_roundtrip (spread existing upd)))
             3 ''update job'' (snd (getJob job_id w)) of
        (Inl e, w2) \<Rightarrow> (Inl e, w2)
      | (Inr _, w2) \<Rightarrow> (Inr (spread existing upd), w2))"
  using assms(2) by (cases "getJob job_id w") (simp add: updateJob_eq [OF assms(1)])

text \<open>
  C6, as the code has it. \<open>getJob\<close> tries its read three times in all: it waits 100 ms
  after the first failure and 200 ms after the second, and after the third failure it
  throws a \<open>StorageError\<close>, without a third wait. \<open>updateJob\<close> reads through \<open>getJob\<close>
  and then tries its write under the same policy. \<open>createJob\<close> tries each of its two
  backend calls, the existence check and the write, once: the first failure is thrown as
  a \<open>StorageError\<close> at once, and it never waits.
\<close>

theorem storage_retry_policy:
  "(truthy job_id \<and> fails_first 3 (redis_faults w) \<longrightarrow>
      fst (getJob job_id w) = Inl (StorageError ''get job failed after 3 attempts'' STORAGE_ERROR)
      \<and> sleeps_in (new_effects w (snd (getJob job_id w))) = [100, 200]
      \<and> redis_calls_in (new_effects w (snd (getJob job_id w))) = 3)
   \<and> (truthy job_id \<and> \<not> fails_first 3 (redis_faults w) \<longrightarrow>
      fst (getJob job_id w) = Inr (map_of (redis w) (getJobKey job_id))
      \<and> sleeps_in (new_effects w (snd (getJob job_id w))) =
           (if fails_first 2 (redis_faults w) then [100, 200]
            else if fails_first 1 (redis_faults w) then [100] else []))
   \<and> (truthy job_id \<and> fst (getJob job_id w) = Inr (Some existing)
        \<and> fails_first 3 (redis_faults (snd (getJob job_id w))) \<longrightarrow>
      fst (updateJob job_id upd w) = Inl (StorageError ''update job failed after 3 attempts'' STORAGE_ERROR)
      \<and> sleeps_in (new_effects (snd (getJob job_id w)) (snd (updateJob job_id upd w))) = [100, 200]
      \<and> redis_calls_in (new_effects (snd (getJob job_id w)) (snd (updateJob job_id upd w))) = 3)
   \<and> (truthy job_id \<and> fst (getJob job_id w) = Inr (Some existing)
        \<and> \<not> fails_first 3 (redis_faults (snd (getJob job_id w))) \<longrightarrow>
      fst (updateJob job_id upd w) = Inr (spread existing upd)
      \<and> sleeps_in (new_effects (snd (getJob job_id w)) (snd (updateJob job_id upd w))) =
           (if fails_first 2 (redis_faults (snd (getJob job_id w))) then [100, 200]
            else if fails_first 1 (redis_faults (snd (getJob job_id w))) then [100] else []))
   \<and> (truthy (field jobData ''job_id'') \<and> truthy (field jobData ''url'')
        \<and> truthy (field jobData ''status'') \<and> fails_first 1 (redis_faults w) \<longrightarrow>
      fst (createJob jobData w)
        = Inl (StorageError ''check job existence failed after 1 attempts'' STORAGE_ERROR)
      \<and> sleeps_in (new_effects w (snd (createJob jobData w))) = []
      \<and> redis_calls_in (new_effects w (snd (createJob jobData w))) = 1)
   \<and> (truthy (field jobData ''job_id'') \<and> truthy (field jobData ''url'')
        \<and> truthy (field jobData ''status'') \<and> \<not> fails_first 1 (redis_faults w)
        \<and> map_of (redis w) (getJobKey (field jobData ''job_id'')) = None
        \<and> fails_first 1 (tl (redis_faults w)) \<longrightarrow>
      fst (createJob jobData w)
        = Inl (StorageError ''create job failed after 1 attempts'' STORAGE_ERROR)
      \<and> sleeps_in (new_effects w (snd (createJob jobData w))) = []
      \<and> redis_calls_in (new_effects w (snd (createJob jobData w))) = 2)"
proof (intro conjI impI)
  assume "truthy job_id \<and> fails_first 3 (redis_faults w)"
  then have a: "truthy job_id" "fails_first 3 (redis_faults w)" by simp_all
  show "fst (getJob job_id w) = Inl (StorageError ''get job failed after 3 attempts'' STORAGE_ERROR)"
    "sleeps_in (new_effects w (snd (getJob job_id w))) = [100, 200]"
    "redis_calls_in (new_effects w (snd (getJob job_id w))) = 3"
    by (simp_all add: getJob_exhausted [OF a] new_effects_def sleeps_in_def redis_calls_in_def)
next
  assume "truthy job_id \<and> \<not> fails_first 3 (redis_faults w)"
  then have a: "truthy job_id" "\<not> fails_first 3 (redis_faults w)" by simp_all
  show "fst (getJob job_id w) = Inr (map_of (redis w) (getJobKey job_id))"
    by (rule getJob_answered(1) [OF a])
  show "sleeps_in (new_effects w (snd (getJob job_id w))) =
           (if fails_first 2 (redis_faults w) then [100, 200]
            else if fails_first 1 (redis_faults w) then [100] else [])"
    by (rule getJob_answered(3) [OF a])
next
  assume "truthy job_id \<and> fst (getJob job_id w) = Inr (Some existing)
        \<and> fails_first 3 (redis_faults (snd (getJob job_id w)))"
  then have a: "truthy job_id" "fst (getJob job_id w) = Inr (Some existing)"
    "fails_first 3 (redis_faults (snd (getJob job_id w)))" by simp_all
  show "fst (updateJob job_id upd w) = Inl (StorageError ''update job failed after 3 attempts'' STORAGE_ERROR)"
    "sleeps_in (new_effects (snd (getJob job_id w)) (snd (updateJob job_id upd w))) = [100, 200]"
    "redis_calls_in (new_effects (snd (getJob job_id w)) (snd (updateJob job_id upd w))) = 3"
    using a(3)
    by (simp_all add: updateJob_write_phase [OF a(1,2)] setex3_eq Let_def fails_first_unfold
          new_effects_def sleeps_in_def redis_calls_in_def)
next
  assume "truthy job_id \<and> fst (getJob job_id w) = Inr (Some existing)
        \<and> \<not> fails_first 3 (redis_faults (snd (getJob job_id w)))"
  then have a: "truthy job_id" "fst (getJob job_id w) = Inr (Some existing)"
    "\<not> fails_first 3 (redis_faults (snd (getJob job_id w)))" by simp_all
  show "fst (updateJob job_id upd w) = Inr (spread existing upd)"
    "sleeps_in (new_effects (snd (getJob job_id w)) (snd (updateJob job_id upd w))) =
           (if fails_first 2 (redis_faults (snd (getJob job_id w))) then [100, 200]
            else if fails_first 1 (redis_faults (snd (getJob job_id w))) then [100] else [])"
    using a(3)
    by (simp_all add: updateJob_write_phase [OF a(1,2)] setex3_eq Let_def fails_first_unfold
          new_effects_def sleeps_in_def redis_calls_in_def)
next
  assume "truthy (field jobData ''job_id'') \<and> truthy (field jobData ''url'')
        \<and> truthy (field jobData ''status'') \<and> fails_first 1 (redis_faults w)"
  then have a: "truthy (field jobData ''job_id'')" "truthy (field jobData ''url'')"
    "truthy (field jobData ''status'')" and f: "fails_first 1 (redis_faults w)" by simp_all
  show "fst (createJob jobData w)
        = Inl (StorageError ''check job existence failed after 1 attempts'' STORAGE_ERROR)"
    "sleeps_in (new_effects w (snd (createJob jobData w))) = []"
    "redis_calls_in (new_effects w (snd (createJob jobData w))) = 1"
    using f
    by (simp_all add: createJob_eq [OF a] Let_def fails_first_unfold
          new_effects_def sleeps_in_def redis_calls_in_def)
next
  assume "truthy (field jobData ''job_id'') \<and> truthy (field jobData ''url'')
        \<and> truthy (field jobData ''status'') \<and> \<not> fails_first 1 (redis_faults w)
        \<and> map_of (redis w) (getJobKey (field jobData ''job_id'')) = None
        \<and> fails_first 1 (tl (redis_faults w))"
  then have a: "truthy (field jobData ''job_id'')" "truthy (field jobData ''url'')"
    "truthy (field jobData ''status'')" and f: "\<not> fails_first 1 (redis_faults w)"
    "map_of (redis w) (getJobKey (field jobData ''job_id'')) = None"
    "fails_first 1 (tl (redis_faults w))" by simp_all
  show "fst (createJob jobData w)
        = Inl (StorageError ''create job failed after 1 attempts'' STORAGE_ERROR)"
    "sleeps_in (new_effects w (snd (createJob jobData w))) = []"
    "redis_calls_in (new_effects w (snd (createJob jobData w))) = 2"
    using f
    by (simp_all add: createJob_eq [OF a] Let_def fails_first_unfold
          new_effects_def sleeps_in_def redis_calls_in_def)
qed

text \<open>
  The policy at concrete schedules: the read failing three times; the read failing once
  and the write going through; the write failing three times; the existence check of
  \<open>createJob\<close> failing; its write failing.
\<close>

theorem storage_retry_policy_witness:
  "sleeps_in (new_effects (example_world\<lparr>redis_faults := [True, True, True]\<rparr>)
      (snd (getJob (JStr ''1700000000000123456'') (example_world\<lparr>redis_faults := [True, True, True]\<rparr>))))
     = [100, 200]
   \<and> sleeps_in (new_effects (example_world\<lparr>redis_faults := [True]\<rparr>)
      (snd (getJob (JStr ''1700000000000123456'') (example_world\<lparr>redis_faults := [True]\<rparr>))))
     = [100]
   \<and> fst (updateJob (JStr ''1700000000000123456'') [(''status'', JStr ''FAILED'')]
        (example_world\<lparr>redis_faults := [True]\<rparr>))
     = Inr (spread example_job [(''status'', JStr ''FAILED'')])
   \<and> fst (updateJob (JStr ''1700000000000123456'') [(''status'', JStr ''FAILED'')]
        (example_world\<lparr>redis_faults := [False, True, True, True]\<rparr>))
     = Inl (StorageError ''update job failed after 3 attempts'' STORAGE_ERROR)
   \<and> redis_calls_in (new_effects (empty_world\<lparr>redis_faults := [True]\<rparr>)
        (snd (createJob example_job (empty_world\<lparr>redis_faults := [True]\<rparr>)))) = 1
   \<and> fst (createJob example_job (empty_world\<lparr>redis_faults := [False, True]\<rparr>))
     = Inl (StorageError ''create job failed after 1 attempts'' STORAGE_ERROR)"
proof -
  let ?jid = "JStr ''1700000000000123456''" and ?upd = "[(''status'', JStr ''FAILED'')]"
  let ?w3 = "example_world\<lparr>redis_faults := [True, True, True]\<rparr>"
  let ?w1 = "example_world\<lparr>redis_faults := [True]\<rparr>"
  let ?w4 = "example_world\<lparr>redis_faults := [False, True, True, True]\<rparr>"
  let ?e1 = "empty_world\<lparr>redis_faults := [True]\<rparr>"
  let ?e2 = "empty_world\<lparr>redis_faults := [False, True]\<rparr>"
  have tj: "truthy ?jid" by simp
  have valid: "truthy (field example_job ''job_id'')" "truthy (field example_job ''url'')"
    "truthy (field example_job ''status'')"
    by (simp_all add: example_job_def field_def)
  have h1: "fails_first 3 (redis_faults ?w3)" by (simp add: fails_first_unfold next_fault_def)
  have h2: "\<not> fails_first 3 (redis_faults ?w1)" "\<not> fails_first 2 (redis_faults ?w1)"
    "fails_first 1 (redis_faults ?w1)"
    by (simp_all add: fails_first_unfold next_fault_def)
  have g1: "fst (getJob ?jid ?w1) = Inr (Some example_job)"
    "\<not> fails_first 3 (redis_faults (snd (getJob ?jid ?w1)))"
    by (simp_all add: getJob_eq Let_def next_fault_def fails_first_unfold getJobKey_def
          KEY_PREFIX_def example_world_def)
  have g4: "fst (getJob ?jid ?w4) = Inr (Some example_job)"
    "fails_first 3 (redis_faults (snd (getJob ?jid ?w4)))"
    by (simp_all add: getJob_eq Let_def next_fault_def fails_first_unfold getJobKey_def
          KEY_PREFIX_def example_world_def)
  have h5: "fails_first 1 (redis_faults ?e1)" by (simp add: fails_first_unfold next_fault_def)
  have h6: "\<not> fails_first 1 (redis_faults ?e2)"
    "map_of (redis ?e2) (getJobKey (field example_job ''job_id'')) = None"
    "fails_first 1 (tl (redis_faults ?e2))"
    by (simp_all add: fails_first_unfold next_fault_def empty_world_def)
  note p3 = storage_retry_policy [of ?jid ?w3 example_job ?upd example_job]
  note p1 = storage_retry_policy [of ?jid ?w1 example_job ?upd example_job]
  note p4 = storage_retry_policy [of ?jid ?w4 example_job ?upd example_job]
  note q1 = storage_retry_policy [of ?jid ?e1 example_job ?upd example_job]
  note q2 = storage_retry_policy [of ?jid ?e2 example_job ?upd example_job]
  have c1: "sleeps_in (new_effects ?w3 (snd (getJob ?jid ?w3))) = [100, 200]"
    using p3 tj h1 by blast
  have c2: "sleeps_in (new_effects ?w1 (snd (getJob ?jid ?w1))) = [100]"
    using p1 tj h2 by simp
  have c3: "fst (updateJob ?jid ?upd ?w1) = Inr (spread example_job ?upd)"
    using p1 tj g1 by blast
  have c4: "fst (updateJob ?jid ?upd ?w4) = Inl (StorageError ''update job failed after 3 attempts'' STORAGE_ERROR)"
    using p4 tj g4 by blast
  have c5: "redis_calls_in (new_effects ?e1 (snd (createJob example_job ?e1))) = 1"
    using q1 valid h5 by blast
  have c6: "fst (createJob example_job ?e2) = Inl (StorageError ''create job failed after 1 attempts'' STORAGE_ERROR)"
    using q2 valid h6 by blast
  show ?thesis using c1 c2 c3 c4 c5 c6 by blast
qed

text \<open>
  C6 as the specification states it fails: with the store failing one call only,
  \<open>createJob\<close> gives up after that one call, without a retry and without a wait; and
  \<open>getJob\<close>, with the store failing three calls, waits 100 ms and 200 ms, never 400 ms.
\<close>

theorem storage_retry_counterexample:
  "fst (createJob example_job (empty_world\<lparr>redis_faults := [True]\<rparr>))
     = Inl (StorageError ''check job existence failed after 1 attempts'' STORAGE_ERROR)
   \<and> effects (snd (createJob example_job (empty_world\<lparr>redis_faults := [True]\<rparr>)))
     = [RedisCall ''exists'' ''job:1700000000000123456'']
   \<and> fst (getJob (JStr ''1700000000000123456'') (example_world\<lparr>redis_faults := [True, True, True]\<rparr>))
     = Inl (StorageError ''get job failed after 3 attempts'' STORAGE_ERROR)
   \<and> sleeps_in (effects (snd (getJob (JStr ''1700000000000123456'')
         (example_world\<lparr>redis_faults := [True, True, True]\<rparr>)))) = [100, 200]"
proof -
  show ?thesis
    by (simp add: createJob_eq getJob_eq Let_def next_fault_def empty_world_def
          example_world_def sleeps_in_def getJobKey_def KEY_PREFIX_def example_job_def field_def)
qed

section \<open>Objects: reading what was written\<close>

lemma field_put: "field (put k v ob) k' = (if k' = k then v else field ob k')"
  by (simp add: field_def map_of_put)

lemma field_foldl_put:
  "field (foldl (\<lambda>acc (k, v). put k v acc) a b) k =
     (case map_of (rev b) k of Some v \<Rightarrow> v | None \<Rightarrow> field a k)"
proof (induction b arbitrary: a)
  case Nil
  then show ?case by simp
next
  case (Cons x b)
  obtain k' v' where x: "x = (k', v')" by (cases x)
  show ?case
    using Cons [of "put k' v' a"] x
    by (auto simp add: field_put map_add_def split: option.splits)
qed

lemma field_spread:
  "field (spread a b) k = (case map_of (rev b) k of Some v \<Rightarrow> v | None \<Rightarrow> field a k)"
  unfolding spread_def by (rule field_foldl_put)

lemma map_of_json_roundtrip:
  "map_of ob k = Some v \<Longrightarrow> v \<noteq> JUndefined \<Longrightarrow> map_of (json_roundtrip ob) k = Some v"
  unfolding json_roundtrip_def by (induction ob) (auto split: if_splits)

lemma field_json_roundtrip:
  "field ob k \<noteq> JUndefined \<Longrightarrow> field (json_roundtrip ob) k = field ob k"
  using map_of_json_roundtrip [of ob k]
  by (auto simp add: field_def split: option.splits)

section \<open>Steps that make no claim\<close>

lemma no_claim_step_refl: "no_claim_step key w w"
  by (simp add: no_claim_step_def)

lemma no_claim_step_trans:
  assumes "no_claim_step key w w1" and "no_claim_step key w1 w2"
  shows "no_claim_step key w w2"
proof -
  obtain es where es: "effects w1 = effects w @ es" "filter (is_claim key) es = []"
    using assms(1) by (auto simp add: no_claim_step_def)
  obtain fs where fs: "effects w2 = effects w1 @ fs" "filter (is_claim key) fs = []"
    using assms(2) by (auto simp add: no_claim_step_def)
  have "effects w2 = effects w @ (es @ fs)" "filter (is_claim key) (es @ fs) = []"
    using es fs by simp_all
  then have "\<exists>gs. effects w2 = effects w @ gs \<and> filter (is_claim key) gs = []" by blast
  then show ?thesis using assms by (simp add: no_claim_step_def)
qed

lemma is_claim_not_probe: "is_probe e \<Longrightarrow> \<not> is_claim key e"
  by (cases e) simp_all

lemma probes_no_claim:
  assumes "extends_by is_probe w w'" and "redis w' = redis w"
  shows "no_claim_step key w w'"
proof -
  obtain es where es: "effects w' = effects w @ es" "list_all is_probe es"
    using assms(1) by (auto simp add: extends_by_def)
  have "filter (is_claim key) es = []"
    using es(2) is_claim_not_probe by (auto simp add: filter_empty_conv list_all_iff)
  then show ?thesis
    using es(1) assms(2) by (auto simp add: no_claim_step_def settled_def)
qed

lemma log_effect_no_claim:
  "\<not> is_claim key e \<Longrightarrow> no_claim_step key w (log_effect e w)"
  by (simp add: no_claim_step_def log_effect_def settled_def)

lemma is_claim_in_writes: "is_claim key e \<Longrightarrow> e \<in> set es \<Longrightarrow> e \<in> set (writes_in es)"
  by (cases e) (simp_all add: writes_in_def)

text \<open>An update that sets a status other than PENDING and PROCESSING makes no claim.\<close>

lemma updateJob_no_claim:
  assumes u: "updateJob job_id upd w = (r, w')"
      and st: "\<And>ex. field (spread ex upd) ''status'' = JStr s"
      and s: "s \<noteq> PENDING" "s \<noteq> PROCESSING"
  shows "no_claim_step key w w'"
proof (cases r)
  case (Inl e)
  then show ?thesis
    using updateJob_result [OF u] by (auto intro: probes_no_claim)
next
  case (Inr u')
  let ?k = "getJobKey job_id"
  from updateJob_result [OF u] Inr obtain existing where
    ex: "map_of (redis w) ?k = Some existing" "u' = spread existing upd"
      "writes_in (new_effects w w') = [RedisWrite ?k (Some existing) (json_roundtrip u')]"
    and rd: "redis w' = put ?k (json_roundtrip u') (redis w)"
    and eb: "extends_by is_storage_event w w'"
    by auto
  obtain es where es: "effects w' = effects w @ es"
    using eb by (auto simp add: extends_by_def)
  have ne: "new_effects w w' = es" using es by (simp add: new_effects_def)
  have fs: "field (json_roundtrip u') ''status'' = JStr s"
    using st [of existing] ex(2) by (simp add: field_json_roundtrip)
  have "\<not> is_claim key e" if "e \<in> set es" for e
  proof
    assume c: "is_claim key e"
    then have "e \<in> set (writes_in es)" using that by (rule is_claim_in_writes)
    then have "e = RedisWrite ?k (Some existing) (json_roundtrip u')"
      using ex(3) ne by simp
    then show False using c fs s(2) by simp
  qed
  then have "filter (is_claim key) es = []" by (simp add: filter_empty_conv)
  moreover have "settled key w \<longrightarrow> settled key w'"
    using rd fs s(1) by (auto simp add: settled_def map_of_put)
  ultimately show ?thesis using es by (auto simp add: no_claim_step_def)
qed

section \<open>processJob\<close>

lemma processJob_not_claimed:
  assumes "updateJobIfPending job_id [(''status'', JStr PROCESSING)] w = (Inr False, w1)"
  shows "processJob env job_id url w = (Inr already_handled, w1)"
  using assms by (simp add: processJob_def processJob_try_def already_handled_def)

lemma update_then_no_claim:
  assumes "(case updateJob job_id upd wa of
              (Inl e, w3) \<Rightarrow> (Inl e, w3)
            | (Inr x, w3) \<Rightarrow> (Inr res, w3)) = (r, w')"
      and "\<And>ex. field (spread ex upd) ''status'' = JStr s"
      and "s \<noteq> PENDING" "s \<noteq> PROCESSING"
  shows "no_claim_step key wa w'"
proof -
  obtain x w3 where u: "updateJob job_id upd wa = (x, w3)" by (cases "updateJob job_id upd wa")
  have "w' = w3" using assms(1) u by (cases x) simp_all
  then show ?thesis using updateJob_no_claim [OF u assms(2,3,4)] by simp
qed

lemma status_names:
  "FAILED \<noteq> PENDING" "FAILED \<noteq> PROCESSING" "COMPLETED \<noteq> PENDING" "COMPLETED \<noteq> PROCESSING"
  "PROCESSING \<noteq> PENDING"
  by (simp_all add: FAILED_def PENDING_def PROCESSING_def COMPLETED_def)

lemma processJob_try_claimed:
  assumes c: "updateJobIfPending job_id [(''status'', JStr PROCESSING)] w = (Inr True, w1)"
      and p: "processJob_try env job_id url w = (r, w')"
  shows "no_claim_step key w1 w'"
proof (cases "fetchUrlWithRetry env url 3")
  case (FetchFailed fetchError)
  let ?wf = "log_effect (FetchCall (js_string url)) w1"
  have lf: "no_claim_step key w1 ?wf" by (rule log_effect_no_claim) simp
  show ?thesis
  proof (cases "err_isRetryable fetchError")
    case True
    then have "w' = ?wf" using c p FetchFailed by (simp add: processJob_try_def)
    then show ?thesis using lf by simp
  next
    case False
    then have "(case updateJob job_id
                 [(''status'', JStr FAILED), (''error'', JStr (err_message fetchError)),
                  (''error_type'', err_type fetchError)] ?wf of
              (Inl e, w3) \<Rightarrow> (Inl e, w3)
            | (Inr x, w3) \<Rightarrow> (Inr [(''success'', JBool False),
                              (''error'', JStr (err_message fetchError)),
                              (''retryable'', JBool False)], w3)) = (r, w')"
      using c p FetchFailed by (simp add: processJob_try_def)
    then have "no_claim_step key ?wf w'"
      by (rule update_then_no_claim [where s = FAILED]) (simp_all add: field_spread status_names)
    with lf show ?thesis by (rule no_claim_step_trans)
  qed
next
  case (Fetched html statusCode)
  let ?wp = "log_effect (ParseCall (js_string url)) (log_effect (FetchCall (js_string url)) w1)"
  have lp: "no_claim_step key w1 ?wp"
    by (rule no_claim_step_trans [OF log_effect_no_claim log_effect_no_claim]) simp_all
  let ?parsed = "case parseHtml env html url of
                   Inl e \<Rightarrow> Inl e
                 | Inr results \<Rightarrow>
                     if \<not> validateResults env results
                     then Inl (plain_error ''Invalid parsing results structure'')
                     else Inr results"
  show ?thesis
  proof (cases ?parsed)
    case (Inl parseError)
    then have "(case updateJob job_id
                  [(''status'', JStr FAILED),
                   (''error'', JStr (''Failed to parse HTML: '' @ err_message parseError)),
                   (''error_type'', JStr ''PARSE_ERROR'')] ?wp of
              (Inl e, w3) \<Rightarrow> (Inl e, w3)
            | (Inr x, w3) \<Rightarrow> (Inr [(''success'', JBool False),
                                 (''error'', JStr (err_message parseError)),
                                 (''retryable'', JBool False)], w3)) = (r, w')"
      using c p Fetched by (simp add: processJob_try_def Let_def)
    then have "no_claim_step key ?wp w'"
      by (rule update_then_no_claim [where s = FAILED]) (simp_all add: field_spread status_names)
    with lp show ?thesis by (rule no_claim_step_trans)
  next
    case (Inr results)
    then have "(case updateJob job_id
                  [(''status'', JStr COMPLETED), (''results'', results),
                   (''http_status_code'', JNum statusCode)] ?wp of
              (Inl e, w3) \<Rightarrow> (Inl e, w3)
            | (Inr x, w3) \<Rightarrow> (Inr [(''success'', JBool True), (''results'', results)], w3)) = (r, w')"
      using c p Fetched by (simp add: processJob_try_def Let_def)
    then have "no_claim_step key ?wp w'"
      by (rule update_then_no_claim [where s = COMPLETED]) (simp_all add: field_spread status_names)
    with lp show ?thesis by (rule no_claim_step_trans)
  qed
qed

lemma processJob_claimed:
  assumes c: "updateJobIfPending job_id [(''status'', JStr PROCESSING)] w = (Inr True, w1)"
      and p: "processJob env job_id url w = (r, w')"
  shows "no_claim_step key w1 w'"
proof -
  obtain rt wt where t: "processJob_try env job_id url w = (rt, wt)"
    by (cases "processJob_try env job_id url w")
  note st = processJob_try_claimed [OF c t]
  show ?thesis
  proof (cases rt)
    case (Inr res)
    then have "w' = wt" using p t by (simp add: processJob_def)
    then show ?thesis using st by simp
  next
    case (Inl error)
    let ?upd = "[(''status'', JStr FAILED),
                 (''error'', js_or (JStr (err_message error)) (JStr ''Unknown processing error'')),
                 (''error_type'', js_or (err_type error) (JStr ''UNKNOWN_ERROR''))]"
    obtain x w2 where u: "updateJob job_id ?upd wt = (x, w2)" by (cases "updateJob job_id ?upd wt")
    have "w' = w2" using p t Inl u by (simp add: processJob_def)
    moreover have "no_claim_step key wt w2"
      by (rule updateJob_no_claim [OF u, where s = FAILED]) (simp_all add: field_spread status_names)
    ultimately show ?thesis using st by (auto intro: no_claim_step_trans)
  qed
qed

lemma filter_claims_writes: "filter (is_claim key) es = filter (is_claim key) (writes_in es)"
proof (induction es)
  case Nil
  then show ?case by (simp add: writes_in_def)
next
  case (Cons e es)
  then show ?case by (cases e) (simp_all add: writes_in_def)
qed

lemma probes_have_no_claims:
  "list_all is_probe es \<Longrightarrow> claims_in key es = 0"
  using is_claim_not_probe by (auto simp add: claims_in_def filter_empty_conv list_all_iff)

lemma claims_in_append: "claims_in key (es @ fs) = claims_in key es + claims_in key fs"
  by (simp add: claims_in_def)

lemma updateJobIfPending_healthy:
  assumes "truthy job_id" and "redis_faults w = []"
      and "map_of (redis w) (getJobKey job_id) = Some job"
      and "field job ''status'' = JStr PENDING"
  shows "fst (updateJobIfPending job_id upd w) = Inr True"
  using assms
  by (simp add: updateJobIfPending_eq getJob_eq updateJob_eq setex3_eq Let_def next_fault_def)

text \<open>One delivery: either it claims the job, once, and leaves it settled, or it does nothing.\<close>

lemma processJob_delivery:
  assumes p: "processJob env job_id url w = (r, w')"
  shows "\<exists>es. effects w' = effects w @ es \<and>
           (if fst (updateJobIfPending job_id [(''status'', JStr PROCESSING)] w) = Inr True
            then claims_in (getJobKey job_id) es = 1 \<and> settled (getJobKey job_id) w'
            else claims_in (getJobKey job_id) es = 0 \<and> r = Inr already_handled
                 \<and> redis w' = redis w \<and> list_all is_probe es)"
proof -
  let ?upd = "[(''status'', JStr PROCESSING)]" and ?key = "getJobKey job_id"
  obtain b wc where c: "updateJobIfPending job_id ?upd w = (b, wc)"
    by (cases "updateJobIfPending job_id ?upd w")
  note res = updateJobIfPending_result [OF c]
  show ?thesis
  proof (cases "b = Inr True")
    case True
    then obtain job where job: "map_of (redis w) ?key = Some job" "field job ''status'' = JStr PENDING"
        "redis wc = put ?key (json_roundtrip (spread job ?upd)) (redis w)"
        "writes_in (new_effects w wc) = [RedisWrite ?key (Some job) (json_roundtrip (spread job ?upd))]"
      and eb: "extends_by is_storage_event w wc"
      using res by blast
    obtain es where es: "effects wc = effects w @ es" using eb by (auto simp add: extends_by_def)
    have ne: "new_effects w wc = es" using es by (simp add: new_effects_def)
    have st: "field (json_roundtrip (spread job ?upd)) ''status'' = JStr PROCESSING"
      by (simp add: field_json_roundtrip field_spread)
    have "filter (is_claim ?key) es = [RedisWrite ?key (Some job) (json_roundtrip (spread job ?upd))]"
      using filter_claims_writes [of ?key es] job(2,4) ne st by simp
    then have c1: "claims_in ?key es = 1" by (simp add: claims_in_def)
    have sc: "settled ?key wc"
      using job(3) st status_names(5) by (auto simp add: settled_def map_of_put)
    have "no_claim_step ?key wc w'"
      using c True p by (intro processJob_claimed) simp_all
    then obtain fs where fs: "effects w' = effects wc @ fs" "filter (is_claim ?key) fs = []"
      and sw: "settled ?key w'"
      using sc by (auto simp add: no_claim_step_def)
    have "effects w' = effects w @ (es @ fs)" using es fs(1) by simp
    moreover have "claims_in ?key (es @ fs) = 1"
      using c1 fs(2) by (simp add: claims_in_def)
    ultimately show ?thesis using True c sw by auto
  next
    case False
    then have b: "b = Inr False" using res by blast
    then have rw: "r = Inr already_handled" "w' = wc"
      using processJob_not_claimed [of job_id w wc env url] c p by simp_all
    have fr: "redis wc = redis w" "extends_by is_probe w wc" using res b by simp_all
    obtain es where es: "effects wc = effects w @ es" "list_all is_probe es"
      using fr(2) by (auto simp add: extends_by_def)
    show ?thesis
      using rw fr(1) es c b probes_have_no_claims [OF es(2)] by auto
  qed
qed

lemma settled_not_claimable:
  assumes "settled (getJobKey job_id) w"
  shows "fst (updateJobIfPending job_id upd w) \<noteq> Inr True"
proof
  assume t: "fst (updateJobIfPending job_id upd w) = Inr True"
  obtain b wc where c: "updateJobIfPending job_id upd w = (b, wc)"
    by (cases "updateJobIfPending job_id upd w")
  from updateJobIfPending_result [OF c] t c
  obtain job where "map_of (redis w) (getJobKey job_id) = Some job" "field job ''status'' = JStr PENDING"
    by auto
  then show False using assms by (simp add: settled_def)
qed

text \<open>
  C1. \<open>processJob\<close> starts with \<open>updateJobIfPending job_id {status: PROCESSING}\<close>. When
  the stored status is not PENDING it returns the value \<open>already_handled\<close> (success false,
  with the reason "Job already processing or completed"), the store is as it was, and all
  it added to the log are Redis reads and waits: no fetch, no parse, no write. Over two
  deliveries of the same work item, one after the other, there is at most one write that
  takes the record from PENDING to PROCESSING; and when the first delivery claims the job
  (as it does for a PENDING record when the store answers), there is exactly one, and the
  second delivery is such a no-op, whatever happened to the first after its claim.
\<close>

theorem processJob_idempotent:
  "(\<forall>job. map_of (redis w) (getJobKey job_id) = Some job \<and> field job ''status'' \<noteq> JStr PENDING \<longrightarrow>
        fst (processJob env job_id url w) = Inr already_handled
      \<and> redis (snd (processJob env job_id url w)) = redis w
      \<and> list_all is_probe (new_effects w (snd (processJob env job_id url w))))
   \<and> claims_in (getJobKey job_id)
        (new_effects w (snd (processJob env' job_id url (snd (processJob env job_id url w))))) \<le> 1
   \<and> (\<forall>job. truthy job_id \<and> redis_faults w = [] \<and> map_of (redis w) (getJobKey job_id) = Some job
          \<and> field job ''status'' = JStr PENDING
        \<longrightarrow> fst (updateJobIfPending job_id [(''status'', JStr PROCESSING)] w) = Inr True)
   \<and> (fst (updateJobIfPending job_id [(''status'', JStr PROCESSING)] w) = Inr True \<longrightarrow>
        claims_in (getJobKey job_id)
          (new_effects w (snd (processJob env' job_id url (snd (processJob env job_id url w))))) = 1
      \<and> fst (processJob env' job_id url (snd (processJob env job_id url w))) = Inr already_handled
      \<and> redis (snd (processJob env' job_id url (snd (processJob env job_id url w))))
          = redis (snd (processJob env job_id url w))
      \<and> list_all is_probe (new_effects (snd (processJob env job_id url w))
          (snd (processJob env' job_id url (snd (processJob env job_id url w))))))"
proof -
  let ?upd = "[(''status'', JStr PROCESSING)]" and ?key = "getJobKey job_id"
  obtain r1 w1 where p1: "processJob env job_id url w = (r1, w1)"
    by (cases "processJob env job_id url w")
  obtain r2 w2 where p2: "processJob env' job_id url w1 = (r2, w2)"
    by (cases "processJob env' job_id url w1")
  from processJob_delivery [OF p1] obtain es where
    es: "effects w1 = effects w @ es"
    and d1: "if fst (updateJobIfPending job_id ?upd w) = Inr True
             then claims_in ?key es = 1 \<and> settled ?key w1
             else claims_in ?key es = 0 \<and> r1 = Inr already_handled
                  \<and> redis w1 = redis w \<and> list_all is_probe es"
    by blast
  from processJob_delivery [OF p2] obtain fs where
    fs: "effects w2 = effects w1 @ fs"
    and d2: "if fst (updateJobIfPending job_id ?upd w1) = Inr True
             then claims_in ?key fs = 1 \<and> settled ?key w2
             else claims_in ?key fs = 0 \<and> r2 = Inr already_handled
                  \<and> redis w2 = redis w1 \<and> list_all is_probe fs"
    by blast
  have n1: "new_effects w w1 = es" using es by (simp add: new_effects_def)
  have n2: "new_effects w1 w2 = fs" using fs by (simp add: new_effects_def)
  have n12: "new_effects w w2 = es @ fs" using es fs by (simp add: new_effects_def)
  have a: "\<forall>job. map_of (redis w) ?key = Some job \<and> field job ''status'' \<noteq> JStr PENDING \<longrightarrow>
        r1 = Inr already_handled \<and> redis w1 = redis w \<and> list_all is_probe es"
  proof (intro allI impI)
    fix job assume "map_of (redis w) ?key = Some job \<and> field job ''status'' \<noteq> JStr PENDING"
    then have "settled ?key w" by (auto simp add: settled_def)
    then have "fst (updateJobIfPending job_id ?upd w) \<noteq> Inr True" by (rule settled_not_claimable)
    then show "r1 = Inr already_handled \<and> redis w1 = redis w \<and> list_all is_probe es"
      using d1 by simp
  qed
  have d: "fst (updateJobIfPending job_id ?upd w) = Inr True \<longrightarrow>
        claims_in ?key (es @ fs) = 1 \<and> r2 = Inr already_handled \<and> redis w2 = redis w1
        \<and> list_all is_probe fs"
  proof
    assume t: "fst (updateJobIfPending job_id ?upd w) = Inr True"
    then have "settled ?key w1" "claims_in ?key es = 1" using d1 by simp_all
    moreover from this have "fst (updateJobIfPending job_id ?upd w1) \<noteq> Inr True"
      by (intro settled_not_claimable)
    ultimately show "claims_in ?key (es @ fs) = 1 \<and> r2 = Inr already_handled \<and> redis w2 = redis w1
        \<and> list_all is_probe fs"
      using d2 by (simp add: claims_in_append)
  qed
  have b: "claims_in ?key (es @ fs) \<le> 1"
  proof (cases "fst (updateJobIfPending job_id ?upd w) = Inr True")
    case True
    then show ?thesis using d by simp
  next
    case False
    then have "claims_in ?key es = 0" using d1 by simp
    moreover have "claims_in ?key fs \<le> 1" using d2 by (simp split: if_splits)
    ultimately show ?thesis by (simp add: claims_in_append)
  qed
  have c: "\<forall>job. truthy job_id \<and> redis_faults w = [] \<and> map_of (redis w) ?key = Some job
          \<and> field job ''status'' = JStr PENDING
        \<longrightarrow> fst (updateJobIfPending job_id ?upd w) = Inr True"
    using updateJobIfPending_healthy by blast
  show ?thesis
    using a b c d by (simp add: p1 p2 n1 n2 n12)
qed

text \<open>
  Two deliveries on the example world: the first claims the job, and over both there is
  one claim; on a world where the record is COMPLETED a delivery does nothing.
\<close>

theorem processJob_idempotent_witness:
  "fst (processJob example_env (JStr ''1700000000000123456'') (JStr ''https://example.com'')
          (example_world\<lparr>redis := [(''job:1700000000000123456'', [(''status'', JStr ''COMPLETED'')])]\<rparr>))
     = Inr already_handled
   \<and> claims_in ''job:1700000000000123456''
        (new_effects example_world
           (snd (processJob example_env (JStr ''1700000000000123456'') (JStr ''https://example.com'')
              (snd (processJob example_env (JStr ''1700000000000123456'') (JStr ''https://example.com'')
                 example_world))))) = 1
   \<and> fst (processJob example_env (JStr ''1700000000000123456'') (JStr ''https://example.com'')
          (snd (processJob example_env (JStr ''1700000000000123456'') (JStr ''https://example.com'')
             example_world))) = Inr already_handled"
proof -
  let ?jid = "JStr ''1700000000000123456''" and ?url = "JStr ''https://example.com''"
  let ?done = "example_world\<lparr>redis := [(''job:1700000000000123456'', [(''status'', JStr ''COMPLETED'')])]\<rparr>"
  have k: "getJobKey ?jid = ''job:1700000000000123456''"
    by (simp add: getJobKey_def KEY_PREFIX_def)
  have h1: "map_of (redis ?done) (getJobKey ?jid) = Some [(''status'', JStr ''COMPLETED'')]
            \<and> field [(''status'', JStr ''COMPLETED'')] ''status'' \<noteq> JStr PENDING"
    by (simp add: k field_def PENDING_def)
  have h2: "truthy ?jid \<and> redis_faults example_world = []
            \<and> map_of (redis example_world) (getJobKey ?jid) = Some example_job
            \<and> field example_job ''status'' = JStr PENDING"
    by (simp add: k example_world_def example_job_def field_def PENDING_def)
  note a = processJob_idempotent [of ?done ?jid example_env ?url example_env]
  note b = processJob_idempotent [of example_world ?jid example_env ?url example_env]
  have "fst (processJob example_env ?jid ?url ?done) = Inr already_handled"
    using a h1 by blast
  moreover have "fst (updateJobIfPending ?jid [(''status'', JStr PROCESSING)] example_world) = Inr True"
    using b h2 by blast
  ultimately show ?thesis
    using b unfolding k by blast
qed

section \<open>A healthy store\<close>

lemma updateJob_healthy:
  assumes "truthy job_id" and "redis_faults w = []"
      and "map_of (redis w) (getJobKey job_id) = Some ex"
  shows "fst (updateJob job_id upd w) = Inr (spread ex upd)"
    and "redis (snd (updateJob job_id upd w))
           = put (getJobKey job_id) (json_roundtrip (spread ex upd)) (redis w)"
    and "redis_faults (snd (updateJob job_id upd w)) = []"
  using assms
  by (simp_all add: getJob_eq updateJob_eq setex3_eq Let_def next_fault_def)

lemma updateJobIfPending_healthy_world:
  assumes "truthy job_id" and "redis_faults w = []"
      and "map_of (redis w) (getJobKey job_id) = Some job"
      and "field job ''status'' = JStr PENDING"
  shows "redis (snd (updateJobIfPending job_id upd w))
           = put (getJobKey job_id) (json_roundtrip (spread job upd)) (redis w)"
    and "redis_faults (snd (updateJobIfPending job_id upd w)) = []"
  using assms
  by (simp_all add: updateJobIfPending_eq getJob_eq updateJob_eq setex3_eq Let_def next_fault_def)

section \<open>A retryable fetch failure\<close>

lemma processJob_rethrows:
  assumes "fst (updateJobIfPending job_id [(''status'', JStr PROCESSING)] w) = Inr True"
      and "fetchUrlWithRetry env url 3 = FetchFailed e" and "err_isRetryable e"
  shows "processJob env job_id url w =
     (Inl e,
      snd (updateJob job_id
             [(''status'', JStr FAILED),
              (''error'', js_or (JStr (err_message e)) (JStr ''Unknown processing error'')),
              (''error_type'', js_or (err_type e) (JStr ''UNKNOWN_ERROR''))]
             (log_effect (FetchCall (js_string url))
                (snd (updateJobIfPending job_id [(''status'', JStr PROCESSING)] w)))))"
  using assms
  by (cases "updateJobIfPending job_id [(''status'', JStr PROCESSING)] w")
     (simp add: processJob_def processJob_try_def split: prod.splits)

lemma js_or_defined: "b \<noteq> JUndefined \<Longrightarrow> js_or a b \<noteq> JUndefined"
  by (cases a) (simp_all add: js_or_def)

text \<open>
  When \<open>processJob\<close> has claimed the job and the fetcher fails with a retryable error,
  the outer handler marks the record FAILED with the error's own message and type before
  the error is thrown on, when the store answers.
\<close>

lemma retryable_failure_recorded:
  assumes h: "truthy job_id" "redis_faults w = []" "map_of (redis w) (getJobKey job_id) = Some job"
    "field job ''status'' = JStr PENDING" "fetchUrlWithRetry env url 3 = FetchFailed e"
    "err_isRetryable e"
  shows "fst (processJob env job_id url w) = Inl e"
    and "\<exists>r. map_of (redis (snd (processJob env job_id url w))) (getJobKey job_id) = Some r
          \<and> field r ''status'' = JStr FAILED
          \<and> field r ''error'' = js_or (JStr (err_message e)) (JStr ''Unknown processing error'')
          \<and> field r ''error_type'' = js_or (err_type e) (JStr ''UNKNOWN_ERROR'')"
proof -
  let ?claim = "[(''status'', JStr PROCESSING)]" and ?key = "getJobKey job_id"
  let ?upd = "[(''status'', JStr FAILED),
                 (''error'', js_or (JStr (err_message e)) (JStr ''Unknown processing error'')),
                 (''error_type'', js_or (err_type e) (JStr ''UNKNOWN_ERROR''))]"
  let ?w1 = "snd (updateJobIfPending job_id ?claim w)"
  let ?wf = "log_effect (FetchCall (js_string url)) ?w1"
  let ?ex = "json_roundtrip (spread job ?claim)"
  have c: "fst (updateJobIfPending job_id ?claim w) = Inr True"
    using h(1-4) by (rule updateJobIfPending_healthy)
  show "fst (processJob env job_id url w) = Inl e"
    using processJob_rethrows [OF c h(5,6)] by simp
  have w1: "redis ?wf = put ?key ?ex (redis w)" "redis_faults ?wf = []"
    using updateJobIfPending_healthy_world [OF h(1-4), of ?claim] by (simp_all add: log_effect_def)
  have m: "map_of (redis ?wf) ?key = Some ?ex" using w1(1) by (simp add: map_of_put)
  have p: "snd (processJob env job_id url w) = snd (updateJob job_id ?upd ?wf)"
    using processJob_rethrows [OF c h(5,6)] by simp
  let ?r = "json_roundtrip (spread ?ex ?upd)"
  have "map_of (redis (snd (processJob env job_id url w))) ?key = Some ?r"
    using updateJob_healthy(2) [OF h(1) w1(2) m, of ?upd] p by (simp add: map_of_put)
  moreover have "field ?r ''status'' = JStr FAILED"
    by (simp add: field_json_roundtrip field_spread)
  moreover have "field ?r ''error'' = js_or (JStr (err_message e)) (JStr ''Unknown processing error'')"
    by (simp add: field_json_roundtrip field_spread js_or_defined)
  moreover have "field ?r ''error_type'' = js_or (err_type e) (JStr ''UNKNOWN_ERROR'')"
    by (simp add: field_json_roundtrip field_spread js_or_defined)
  ultimately show "\<exists>r. map_of (redis (snd (processJob env job_id url w))) ?key = Some r
          \<and> field r ''status'' = JStr FAILED
          \<and> field r ''error'' = js_or (JStr (err_message e)) (JStr ''Unknown processing error'')
          \<and> field r ''error_type'' = js_or (err_type e) (JStr ''UNKNOWN_ERROR'')"
    by blast
qed

lemma timeout_run:
  "fst (processJob timeout_env (JStr ''1700000000000123456'') (JStr ''https://example.com'') example_world)
     = Inl timeout_error"
  "redis (snd (processJob timeout_env (JStr ''1700000000000123456'') (JStr ''https://example.com'')
       example_world))
     = [(''job:1700000000000123456'',
         [(''job_id'', JStr ''1700000000000123456''), (''url'', JStr ''https://example.com''),
          (''status'', JStr ''FAILED''),
          (''error'', JStr ''Request timeout - server took too long to respond''),
          (''error_type'', JStr ''TIMEOUT_ERROR'')])]"
proof -
  let ?jid = "JStr ''1700000000000123456''" and ?url = "JStr ''https://example.com''"
  let ?claim = "[(''status'', JStr PROCESSING)]"
  have k: "getJobKey ?jid = ''job:1700000000000123456''"
    by (simp add: getJobKey_def KEY_PREFIX_def)
  have h: "truthy ?jid" "redis_faults example_world = []"
    "map_of (redis example_world) (getJobKey ?jid) = Some example_job"
    "field example_job ''status'' = JStr PENDING"
    by (simp_all add: k example_world_def example_job_def field_def PENDING_def)
  have f: "fetchUrlWithRetry timeout_env ?url 3 = FetchFailed timeout_error"
    "err_isRetryable timeout_error"
    by (simp_all add: timeout_env_def timeout_error_def FetchError_def)
  have c: "fst (updateJobIfPending ?jid ?claim example_world) = Inr True"
    using h by (rule updateJobIfPending_healthy)
  note p = processJob_rethrows [OF c f]
  show "fst (processJob timeout_env ?jid ?url example_world) = Inl timeout_error"
    using p by simp
  let ?wf = "log_effect (FetchCall (js_string ?url)) (snd (updateJobIfPending ?jid ?claim example_world))"
  have w1: "redis ?wf = put (getJobKey ?jid) (json_roundtrip (spread example_job ?claim)) (redis example_world)"
    "redis_faults ?wf = []"
    using updateJobIfPending_healthy_world [OF h, of ?claim] by (simp_all add: log_effect_def)
  have m: "map_of (redis ?wf) (getJobKey ?jid) = Some (json_roundtrip (spread example_job ?claim))"
    using w1(1) by (simp add: map_of_put)
  show "redis (snd (processJob timeout_env ?jid ?url example_world))
     = [(''job:1700000000000123456'',
         [(''job_id'', JStr ''1700000000000123456''), (''url'', JStr ''https://example.com''),
          (''status'', JStr ''FAILED''),
          (''error'', JStr ''Request timeout - server took too long to respond''),
          (''error_type'', JStr ''TIMEOUT_ERROR'')])]"
    unfolding p snd_conv updateJob_healthy(2) [OF h(1) w1(2) m] w1(1)
    by (simp add: k example_world_def example_job_def spread_def json_roundtrip_def js_or_def
          timeout_error_def FetchError_def FAILED_def PROCESSING_def)
qed

section \<open>Redelivery after a thrown error\<close>

text \<open>
  \<open>updateJobIfPending\<close> never throws, so a delivery that throws has claimed the job: its
  record is no longer PENDING when the error reaches the queue. The next delivery of the
  same work item therefore finds nothing to claim, and returns.
\<close>

lemma throwing_delivery_settles:
  assumes "fst (processJob env job_id url w) = Inl e"
  shows "settled (getJobKey job_id) (snd (processJob env job_id url w))"
proof -
  obtain r w' where p: "processJob env job_id url w = (r, w')" by (cases "processJob env job_id url w")
  have r: "r = Inl e" using assms p by simp
  from processJob_delivery [OF p] r show ?thesis
    unfolding p snd_conv by (auto split: if_splits)
qed

lemma settled_delivery_returns:
  assumes "settled (getJobKey job_id) w"
  shows "fst (processJob env job_id url w) = Inr already_handled"
    and "redis (snd (processJob env job_id url w)) = redis w"
proof -
  obtain r w' where p: "processJob env job_id url w = (r, w')" by (cases "processJob env job_id url w")
  have n: "fst (updateJobIfPending job_id [(''status'', JStr PROCESSING)] w) \<noteq> Inr True"
    using assms by (rule settled_not_claimable)
  from processJob_delivery [OF p] n have "r = Inr already_handled \<and> redis w' = redis w"
    by auto
  then show "fst (processJob env job_id url w) = Inr already_handled"
    and "redis (snd (processJob env job_id url w)) = redis w"
    unfolding p by simp_all
qed

lemma on_failed_writes_nothing: "on_failed attemptsMade attempts job_id e w = w"
  by (simp add: on_failed_def)

lemma deliveries_after_return:
  assumes "fst (processJob env job_id url w) = Inr res"
  shows "deliveries env attempts (Suc n) job_id url w = ([Inr res], snd (processJob env job_id url w))"
  using assms by (cases "processJob env job_id url w") simp

lemma deliveries_after_throw:
  assumes "fst (processJob env job_id url w) = Inl e"
  shows "fst (deliveries env attempts (Suc (Suc n)) job_id url w) = [Inl e, Inr already_handled]"
    and "redis (snd (deliveries env attempts (Suc (Suc n)) job_id url w))
           = redis (snd (processJob env job_id url w))"
proof -
  obtain w1 where p: "processJob env job_id url w = (Inl e, w1)"
    using assms by (cases "processJob env job_id url w") simp
  have s: "settled (getJobKey job_id) w1"
    using throwing_delivery_settles [OF assms] p by simp
  note d = deliveries_after_return [OF settled_delivery_returns(1) [OF s, of env url], of attempts n]
  have "deliveries env attempts (Suc (Suc n)) job_id url w
          = ([Inl e, Inr already_handled], snd (processJob env job_id url w1))"
    using p d by (simp add: on_failed_writes_nothing)
  then show "fst (deliveries env attempts (Suc (Suc n)) job_id url w) = [Inl e, Inr already_handled]"
    and "redis (snd (deliveries env attempts (Suc (Suc n)) job_id url w))
           = redis (snd (processJob env job_id url w))"
    using settled_delivery_returns(2) [OF s, of env url] p by simp_all
qed

text \<open>
  C3 fails on the code. The claim has a retryable fetch failure retried by the queue and
  the record set to FAILED, with the error "exceeded retry attempts", once the attempts
  are exhausted. In the code the first delivery that throws has already claimed the job,
  and its outer handler marks the record FAILED, with the fetcher's message, before the
  error reaches the queue; the handler of the \<open>failed\<close> event writes nothing. So a work
  item with two or more attempts left is never retried to exhaustion: either its first
  delivery returns, or it throws and the second delivery, finding the record no longer
  PENDING, returns "Job already processing or completed", which completes the work item.
  On the example world, with a fetcher whose requests all time out and three attempts:
  the first delivery throws the timeout, the second returns, there is no third, and from
  the first delivery on the record is FAILED with the error "Request timeout - server
  took too long to respond".
\<close>

theorem retryable_failure_fails_before_retry:
  "((\<exists>res. fst (deliveries env attempts (Suc (Suc n)) job_id url w) = [Inr res])
      \<or> (\<exists>e. fst (deliveries env attempts (Suc (Suc n)) job_id url w)
                = [Inl e, Inr already_handled]))
   \<and> on_failed attemptsMade attempts job_id err w = w
   \<and> fetchUrlWithRetry timeout_env (JStr ''https://example.com'') 3 = FetchFailed timeout_error
   \<and> err_isRetryable timeout_error
   \<and> fst (deliveries timeout_env 3 3 (JStr ''1700000000000123456'') (JStr ''https://example.com'')
            example_world)
       = [Inl timeout_error, Inr already_handled]
   \<and> \<not> exhausted 3 (fst (deliveries timeout_env 3 3 (JStr ''1700000000000123456'')
                           (JStr ''https://example.com'') example_world))
   \<and> map_of (redis (snd (processJob timeout_env (JStr ''1700000000000123456'')
                (JStr ''https://example.com'') example_world))) ''job:1700000000000123456''
       = Some [(''job_id'', JStr ''1700000000000123456''), (''url'', JStr ''https://example.com''),
               (''status'', JStr ''FAILED''),
               (''error'', JStr ''Request timeout - server took too long to respond''),
               (''error_type'', JStr ''TIMEOUT_ERROR'')]
   \<and> map_of (redis (snd (deliveries timeout_env 3 3 (JStr ''1700000000000123456'')
                (JStr ''https://example.com'') example_world))) ''job:1700000000000123456''
       = Some [(''job_id'', JStr ''1700000000000123456''), (''url'', JStr ''https://example.com''),
               (''status'', JStr ''FAILED''),
               (''error'', JStr ''Request timeout - server took too long to respond''),
               (''error_type'', JStr ''TIMEOUT_ERROR'')]
   \<and> JStr ''Request timeout - server took too long to respond'' \<noteq> JStr ''exceeded retry attempts''"
proof -
  let ?jid = "JStr ''1700000000000123456''" and ?url = "JStr ''https://example.com''"
  have g: "(\<exists>res. fst (deliveries env attempts (Suc (Suc n)) job_id url w) = [Inr res])
      \<or> (\<exists>e. fst (deliveries env attempts (Suc (Suc n)) job_id url w)
                = [Inl e, Inr already_handled])"
  proof (cases "fst (processJob env job_id url w)")
    case (Inl e)
    then show ?thesis using deliveries_after_throw(1) [of env job_id url w e attempts n] by blast
  next
    case (Inr res)
    then show ?thesis using deliveries_after_return [of env job_id url w res attempts "Suc n"] by simp
  qed
  have three: "(3::nat) = Suc (Suc (Suc 0))" by simp
  have d: "fst (deliveries timeout_env 3 (Suc (Suc (Suc 0))) ?jid ?url example_world)
             = [Inl timeout_error, Inr already_handled]"
    "redis (snd (deliveries timeout_env 3 (Suc (Suc (Suc 0))) ?jid ?url example_world))
       = redis (snd (processJob timeout_env ?jid ?url example_world))"
    using deliveries_after_throw [OF timeout_run(1), of 3 "Suc 0"] by simp_all
  have f: "fetchUrlWithRetry timeout_env ?url 3 = FetchFailed timeout_error"
    "err_isRetryable timeout_error"
    by (simp_all add: timeout_env_def timeout_error_def FetchError_def)
  have x: "\<not> exhausted 3 [Inl timeout_error, Inr already_handled]"
    by (simp add: exhausted_def)
  have c: "fst (deliveries timeout_env 3 3 ?jid ?url example_world)
             = [Inl timeout_error, Inr already_handled]"
    "redis (snd (deliveries timeout_env 3 3 ?jid ?url example_world))
       = redis (snd (processJob timeout_env ?jid ?url example_world))"
    using d by (simp_all only: three [symmetric])
  show ?thesis
    unfolding c timeout_run(2)
    using g f x by (simp add: on_failed_def)
qed

section \<open>Submission\<close>

lemma createJob_invalid:
  assumes "\<not> (truthy (field jobData ''job_id'') \<and> truthy (field jobData ''url'')
              \<and> truthy (field jobData ''status''))"
  shows "snd (createJob jobData w) = w" and "\<exists>e. fst (createJob jobData w) = Inl e"
  using assms by (auto simp add: createJob_def)

lemma createJob_result:
  assumes "createJob jobData w = (r, w')"
  shows "extends_by is_storage_event w w'
       \<and> (case r of
            Inl e \<Rightarrow> redis w' = redis w \<and> extends_by is_probe w w'
          | Inr j \<Rightarrow> j = jobData \<and> truthy (field jobData ''job_id'') \<and> truthy (field jobData ''url'')
                     \<and> redis w' = put (getJobKey (field jobData ''job_id'')) (json_roundtrip jobData) (redis w)
                     \<and> redis_faults w' = tl (tl (redis_faults w)))"
proof (cases "truthy (field jobData ''job_id'') \<and> truthy (field jobData ''url'')
              \<and> truthy (field jobData ''status'')")
  case True
  then have v: "truthy (field jobData ''job_id'')" "truthy (field jobData ''url'')"
    "truthy (field jobData ''status'')" by simp_all
  show ?thesis
    using assms v(1,2)
    by (auto simp add: createJob_eq [OF v] Let_def extends_by_def split: if_splits)
next
  case False
  then show ?thesis
    using assms createJob_invalid [OF False, of w] by (auto simp add: extends_by_refl)
qed

lemma queue_add_eq:
  "queue_add now jid w =
     (if next_fault (queue_faults w)
      then (Inl queue_down,
            w\<lparr>queue_faults := tl (queue_faults w), effects := effects w @ [QueueCall ''add'' jid]\<rparr>)
      else (Inr (),
            if map_of (bull_jobs w) jid \<noteq> None
            then w\<lparr>queue_faults := tl (queue_faults w), effects := effects w @ [QueueCall ''add'' jid]\<rparr>
            else w\<lparr>bull_jobs := bull_jobs w @ [(jid, ''waiting'', now)],
                   bull_waiting := bull_waiting w @ [jid],
                   queue_faults := tl (queue_faults w),
                   effects := effects w @ [QueueCall ''add'' jid]\<rparr>))"
  by (simp add: queue_add_def queue_call_def)

lemma enqueue_result:
  assumes "enqueue now data w = (r, w')"
  shows "redis w' = redis w \<and> redis_faults w' = redis_faults w
       \<and> (case r of Inl e \<Rightarrow> bull_jobs w' = bull_jobs w \<and> bull_waiting w' = bull_waiting w
                   | Inr _ \<Rightarrow> True)"
  using assms
  by (auto simp add: enqueue_def queue_add_eq split: if_splits)

lemma updateJob_bull:
  "bull_jobs (snd (updateJob job_id upd w)) = bull_jobs w
   \<and> bull_waiting (snd (updateJob job_id upd w)) = bull_waiting w"
proof -
  obtain r w' where u: "updateJob job_id upd w = (r, w')" by (cases "updateJob job_id upd w")
  have "extends_by is_storage_event w w'"
    using updateJob_result [OF u] probe_is_storage_event
    by (cases r) (auto intro: extends_by_weaken)
  then show ?thesis using u by (simp add: extends_by_def)
qed

lemma submit_job_storage_failure:
  assumes "fst (createJob [(''job_id'', JStr job_id), (''url'', url), (''status'', JStr PENDING)] w) = Inl e"
  shows "fst (submit_job now job_id url w) =
           respond 503 [(''error'', JStr STORAGE_UNAVAILABLE),
                        (''message'', JStr ''Failed to create job. Please try again.'')]"
    and "bull_jobs (snd (submit_job now job_id url w)) = bull_jobs w"
    and "bull_waiting (snd (submit_job now job_id url w)) = bull_waiting w"
    and "redis (snd (submit_job now job_id url w)) = redis w"
    and "list_all is_storage_event (new_effects w (snd (submit_job now job_id url w)))"
proof -
  let ?rec = "[(''job_id'', JStr job_id), (''url'', url), (''status'', JStr PENDING)]"
  obtain w1 where c: "createJob ?rec w = (Inl e, w1)"
    using assms by (cases "createJob ?rec w") simp
  have s: "submit_job now job_id url w =
     (respond 503 [(''error'', JStr STORAGE_UNAVAILABLE),
                   (''message'', JStr ''Failed to create job. Please try again.'')], w1)"
    using c by (simp add: submit_job_def)
  note r = createJob_result [OF c]
  show "fst (submit_job now job_id url w) =
           respond 503 [(''error'', JStr STORAGE_UNAVAILABLE),
                        (''message'', JStr ''Failed to create job. Please try again.'')]"
    using s by simp
  show "bull_jobs (snd (submit_job now job_id url w)) = bull_jobs w"
    "bull_waiting (snd (submit_job now job_id url w)) = bull_waiting w"
    using s r by (simp_all add: extends_by_def)
  show "redis (snd (submit_job now job_id url w)) = redis w" using s r by simp
  show "list_all is_storage_event (new_effects w (snd (submit_job now job_id url w)))"
    using s r by (simp add: extends_by_new_effects)
qed

lemma submit_job_queue_failure:
  assumes c: "createJob [(''job_id'', JStr job_id), (''url'', url), (''status'', JStr PENDING)] w = (Inr j, w1)"
      and q: "enqueue now [(''job_id'', JStr job_id), (''url'', url)] w1 = (Inl e, w2)"
  shows "submit_job now job_id url w =
           (respond 503 [(''error'', JStr QUEUE_UNAVAILABLE),
                         (''message'', JStr ''Queue system is temporarily unavailable. Please try again later.'')],
            snd (updateJob (JStr job_id)
                   [(''status'', JStr FAILED), (''error'', JStr ''Failed to queue job'')] w2))"
    and "bull_jobs (snd (submit_job now job_id url w)) = bull_jobs w"
    and "bull_waiting (snd (submit_job now job_id url w)) = bull_waiting w"
    and "fst (updateJob (JStr job_id)
                [(''status'', JStr FAILED), (''error'', JStr ''Failed to queue job'')] w2) = Inr u
         \<Longrightarrow> \<exists>r. map_of (redis (snd (submit_job now job_id url w))) (getJobKey (JStr job_id)) = Some r
                \<and> field r ''status'' = JStr FAILED \<and> field r ''error'' = JStr ''Failed to queue job''"
    and "redis_faults w2 = []
         \<Longrightarrow> \<exists>u. fst (updateJob (JStr job_id)
                [(''status'', JStr FAILED), (''error'', JStr ''Failed to queue job'')] w2) = Inr u"
proof -
  let ?upd = "[(''status'', JStr FAILED), (''error'', JStr ''Failed to queue job'')]"
  let ?key = "getJobKey (JStr job_id)"
  let ?rec = "[(''job_id'', JStr job_id), (''url'', url), (''status'', JStr PENDING)]"
  show s: "submit_job now job_id url w =
           (respond 503 [(''error'', JStr QUEUE_UNAVAILABLE),
                         (''message'', JStr ''Queue system is temporarily unavailable. Please try again later.'')],
            snd (updateJob (JStr job_id) ?upd w2))"
    using c q by (simp add: submit_job_def split: prod.splits)
  note cr = createJob_result [OF c]
  note qr = enqueue_result [OF q]
  have b1: "bull_jobs w1 = bull_jobs w" "bull_waiting w1 = bull_waiting w"
    using cr by (simp_all add: extends_by_def)
  show "bull_jobs (snd (submit_job now job_id url w)) = bull_jobs w"
    "bull_waiting (snd (submit_job now job_id url w)) = bull_waiting w"
    using s b1 qr updateJob_bull [of "JStr job_id" ?upd w2] by simp_all
  have tj: "truthy (JStr job_id)" using cr by (simp add: field_def)
  have m: "map_of (redis w2) ?key = Some (json_roundtrip ?rec)"
    using cr qr by (simp add: field_def map_of_put)
  {
    assume ok: "fst (updateJob (JStr job_id) ?upd w2) = Inr u"
    obtain w3 where u: "updateJob (JStr job_id) ?upd w2 = (Inr u, w3)"
      using ok by (cases "updateJob (JStr job_id) ?upd w2") simp
    from updateJob_result [OF u]
    have "redis w3 = put ?key (json_roundtrip u) (redis w2)" "u = spread (json_roundtrip ?rec) ?upd"
      using m by auto
    then have "map_of (redis w3) ?key = Some (json_roundtrip u)"
      "field (json_roundtrip u) ''status'' = JStr FAILED"
      "field (json_roundtrip u) ''error'' = JStr ''Failed to queue job''"
      by (simp_all add: map_of_put field_json_roundtrip field_spread)
    then show "\<exists>r. map_of (redis (snd (submit_job now job_id url w))) ?key = Some r
                \<and> field r ''status'' = JStr FAILED \<and> field r ''error'' = JStr ''Failed to queue job''"
      using s u by simp
  }
  {
    assume "redis_faults w2 = []"
    then show "\<exists>u. fst (updateJob (JStr job_id) ?upd w2) = Inr u"
      using updateJob_healthy(1) [OF tj _ m, of ?upd] by simp
  }
qed

lemma example_allocation:
  "generateNumericJobId example_clock example_rnd alloc_init
     = Some (''1700000000000999999'',
             \<lparr>lastTimestamp = 1700000000000, sequence = 999999, reads = Suc 0, draws = Suc 0\<rparr>)"
proof -
  have ts: "toString 1700000000000 = ''1700000000000''" "toString 999999 = ''999999''"
    by (simp_all add: toString.simps digit_char_def)
  show ?thesis
    by (simp add: generateNumericJobId_def alloc_init_def example_clock_def example_rnd_def ts
          padStart_def)
qed

text \<open>
  C2. For a URL that passes validation and an id the allocator returns: if the store
  write fails, the controller answers 503 with the storage message, the queue is as it
  was, and nothing but storage calls was made, so nothing was enqueued. If the record was
  stored and the enqueue fails, the controller answers 503 with the queue message after an
  update of the record to FAILED with the error "Failed to queue job"; the queue holds no
  item for the job; when that update succeeds, as it does whenever the store answers, the
  record is FAILED with that error. The update is best effort: if it fails too, the
  answer is the same.
\<close>

theorem analyseUrl_failure_handling:
  "valid (validateUrlComplete url) \<and> generateNumericJobId clock rnd a = Some (job_id, a') \<longrightarrow>
     (\<exists>out w'. analyseUrl clock rnd validateUrlComplete now url (a, w) = Some (out, a', w')
        \<and> (\<forall>e. fst (createJob [(''job_id'', JStr job_id), (''url'', url), (''status'', JStr PENDING)] w) = Inl e
             \<longrightarrow> out = respond 503 [(''error'', JStr STORAGE_UNAVAILABLE),
                                    (''message'', JStr ''Failed to create job. Please try again.'')]
               \<and> bull_jobs w' = bull_jobs w \<and> bull_waiting w' = bull_waiting w
               \<and> list_all is_storage_event (new_effects w w'))
        \<and> (\<forall>j e. fst (createJob [(''job_id'', JStr job_id), (''url'', url), (''status'', JStr PENDING)] w) = Inr j
               \<and> fst (enqueue now [(''job_id'', JStr job_id), (''url'', url)]
                      (snd (createJob [(''job_id'', JStr job_id), (''url'', url), (''status'', JStr PENDING)] w)))
                   = Inl e
             \<longrightarrow> out = respond 503 [(''error'', JStr QUEUE_UNAVAILABLE),
                     (''message'', JStr ''Queue system is temporarily unavailable. Please try again later.'')]
               \<and> w' = snd (updateJob (JStr job_id)
                             [(''status'', JStr FAILED), (''error'', JStr ''Failed to queue job'')]
                             (snd (enqueue now [(''job_id'', JStr job_id), (''url'', url)]
                                (snd (createJob [(''job_id'', JStr job_id), (''url'', url),
                                                 (''status'', JStr PENDING)] w)))))
               \<and> bull_jobs w' = bull_jobs w \<and> bull_waiting w' = bull_waiting w
               \<and> ((\<exists>u. fst (updateJob (JStr job_id)
                             [(''status'', JStr FAILED), (''error'', JStr ''Failed to queue job'')]
                             (snd (enqueue now [(''job_id'', JStr job_id), (''url'', url)]
                                (snd (createJob [(''job_id'', JStr job_id), (''url'', url),
                                                 (''status'', JStr PENDING)] w))))) = Inr u)
                    \<or> redis_faults (snd (enqueue now [(''job_id'', JStr job_id), (''url'', url)]
                                (snd (createJob [(''job_id'', JStr job_id), (''url'', url),
                                                 (''status'', JStr PENDING)] w)))) = []
                  \<longrightarrow> (\<exists>r. map_of (redis w') (getJobKey (JStr job_id)) = Some r
                         \<and> field r ''status'' = JStr FAILED
                         \<and> field r ''error'' = JStr ''Failed to queue job''))))"
proof (intro impI)
  let ?rec = "[(''job_id'', JStr job_id), (''url'', url), (''status'', JStr PENDING)]"
  let ?data = "[(''job_id'', JStr job_id), (''url'', url)]"
  let ?upd = "[(''status'', JStr FAILED), (''error'', JStr ''Failed to queue job'')]"
  assume "valid (validateUrlComplete url) \<and> generateNumericJobId clock rnd a = Some (job_id, a')"
  then have v: "valid (validateUrlComplete url)"
    and g: "generateNumericJobId clock rnd a = Some (job_id, a')" by simp_all
  obtain out w' where s: "submit_job now job_id url w = (out, w')"
    by (cases "submit_job now job_id url w")
  have an: "analyseUrl clock rnd validateUrlComplete now url (a, w) = Some (out, a', w')"
    using v g s by (simp add: analyseUrl_def Let_def)
  obtain c w1 where c: "createJob ?rec w = (c, w1)" by (cases "createJob ?rec w")
  obtain q w2 where q: "enqueue now ?data w1 = (q, w2)" by (cases "enqueue now ?data w1")
  have sf: "\<forall>e. fst (createJob ?rec w) = Inl e
             \<longrightarrow> out = respond 503 [(''error'', JStr STORAGE_UNAVAILABLE),
                                    (''message'', JStr ''Failed to create job. Please try again.'')]
               \<and> bull_jobs w' = bull_jobs w \<and> bull_waiting w' = bull_waiting w
               \<and> list_all is_storage_event (new_effects w w')"
    using submit_job_storage_failure [of job_id url w _ now] s by auto
  have qf: "out = respond 503 [(''error'', JStr QUEUE_UNAVAILABLE),
                     (''message'', JStr ''Queue system is temporarily unavailable. Please try again later.'')]
               \<and> w' = snd (updateJob (JStr job_id) ?upd w2)
               \<and> bull_jobs w' = bull_jobs w \<and> bull_waiting w' = bull_waiting w
               \<and> ((\<exists>u. fst (updateJob (JStr job_id) ?upd w2) = Inr u) \<or> redis_faults w2 = []
                  \<longrightarrow> (\<exists>r. map_of (redis w') (getJobKey (JStr job_id)) = Some r
                         \<and> field r ''status'' = JStr FAILED
                         \<and> field r ''error'' = JStr ''Failed to queue job''))"
    if "c = Inr j" "q = Inl e" for j e
  proof -
    have c': "createJob ?rec w = (Inr j, w1)" and q': "enqueue now ?data w1 = (Inl e, w2)"
      using c q that by simp_all
    note l = submit_job_queue_failure [OF c' q']
    have "(\<exists>u. fst (updateJob (JStr job_id) ?upd w2) = Inr u) \<or> redis_faults w2 = []
         \<longrightarrow> (\<exists>u. fst (updateJob (JStr job_id) ?upd w2) = Inr u)"
      using l(5) by blast
    then have "(\<exists>u. fst (updateJob (JStr job_id) ?upd w2) = Inr u) \<or> redis_faults w2 = []
         \<longrightarrow> (\<exists>r. map_of (redis w') (getJobKey (JStr job_id)) = Some r
                \<and> field r ''status'' = JStr FAILED \<and> field r ''error'' = JStr ''Failed to queue job'')"
      using l(4) s by auto
    then show ?thesis using l(1,2,3) s by simp
  qed
  have qf': "\<forall>j e. fst (createJob ?rec w) = Inr j
               \<and> fst (enqueue now ?data (snd (createJob ?rec w))) = Inl e
             \<longrightarrow> out = respond 503 [(''error'', JStr QUEUE_UNAVAILABLE),
                     (''message'', JStr ''Queue system is temporarily unavailable. Please try again later.'')]
               \<and> w' = snd (updateJob (JStr job_id) ?upd (snd (enqueue now ?data (snd (createJob ?rec w)))))
               \<and> bull_jobs w' = bull_jobs w \<and> bull_waiting w' = bull_waiting w
               \<and> ((\<exists>u. fst (updateJob (JStr job_id) ?upd
                             (snd (enqueue now ?data (snd (createJob ?rec w))))) = Inr u)
                    \<or> redis_faults (snd (enqueue now ?data (snd (createJob ?rec w)))) = []
                  \<longrightarrow> (\<exists>r. map_of (redis w') (getJobKey (JStr job_id)) = Some r
                         \<and> field r ''status'' = JStr FAILED
                         \<and> field r ''error'' = JStr ''Failed to queue job''))"
  proof (intro allI impI)
    fix j e
    assume "fst (createJob ?rec w) = Inr j
               \<and> fst (enqueue now ?data (snd (createJob ?rec w))) = Inl e"
    then have "c = Inr j" "q = Inl e" using c q by simp_all
    from qf [OF this] show "out = respond 503 [(''error'', JStr QUEUE_UNAVAILABLE),
                     (''message'', JStr ''Queue system is temporarily unavailable. Please try again later.'')]
               \<and> w' = snd (updateJob (JStr job_id) ?upd (snd (enqueue now ?data (snd (createJob ?rec w)))))
               \<and> bull_jobs w' = bull_jobs w \<and> bull_waiting w' = bull_waiting w
               \<and> ((\<exists>u. fst (updateJob (JStr job_id) ?upd
                             (snd (enqueue now ?data (snd (createJob ?rec w))))) = Inr u)
                    \<or> redis_faults (snd (enqueue now ?data (snd (createJob ?rec w)))) = []
                  \<longrightarrow> (\<exists>r. map_of (redis w') (getJobKey (JStr job_id)) = Some r
                         \<and> field r ''status'' = JStr FAILED
                         \<and> field r ''error'' = JStr ''Failed to queue job''))"
      unfolding c q fst_conv snd_conv by blast
  qed
  show "\<exists>out w'. analyseUrl clock rnd validateUrlComplete now url (a, w) = Some (out, a', w')
        \<and> (\<forall>e. fst (createJob ?rec w) = Inl e
             \<longrightarrow> out = respond 503 [(''error'', JStr STORAGE_UNAVAILABLE),
                                    (''message'', JStr ''Failed to create job. Please try again.'')]
               \<and> bull_jobs w' = bull_jobs w \<and> bull_waiting w' = bull_waiting w
               \<and> list_all is_storage_event (new_effects w w'))
        \<and> (\<forall>j e. fst (createJob ?rec w) = Inr j
               \<and> fst (enqueue now ?data (snd (createJob ?rec w))) = Inl e
             \<longrightarrow> out = respond 503 [(''error'', JStr QUEUE_UNAVAILABLE),
                     (''message'', JStr ''Queue system is temporarily unavailable. Please try again later.'')]
               \<and> w' = snd (updateJob (JStr job_id) ?upd (snd (enqueue now ?data (snd (createJob ?rec w)))))
               \<and> bull_jobs w' = bull_jobs w \<and> bull_waiting w' = bull_waiting w
               \<and> ((\<exists>u. fst (updateJob (JStr job_id) ?upd
                             (snd (enqueue now ?data (snd (createJob ?rec w))))) = Inr u)
                    \<or> redis_faults (snd (enqueue now ?data (snd (createJob ?rec w)))) = []
                  \<longrightarrow> (\<exists>r. map_of (redis w') (getJobKey (JStr job_id)) = Some r
                         \<and> field r ''status'' = JStr FAILED
                         \<and> field r ''error'' = JStr ''Failed to queue job'')))"
    using an sf qf' by blast
qed

text \<open>
  A submission with the store failing its first call, and one with the queue failing its
  first call: both are answered 503, the queue stays empty, and in the second the record
  ends FAILED with the error "Failed to queue job".
\<close>

theorem analyseUrl_failure_handling_witness:
  "(\<exists>w'. analyseUrl example_clock example_rnd accept_url 0 (JStr ''https://example.com'')
           (alloc_init, empty_world\<lparr>redis_faults := [True]\<rparr>)
         = Some (respond 503 [(''error'', JStr STORAGE_UNAVAILABLE),
                              (''message'', JStr ''Failed to create job. Please try again.'')],
                 \<lparr>lastTimestamp = 1700000000000, sequence = 999999, reads = Suc 0, draws = Suc 0\<rparr>, w')
        \<and> bull_jobs w' = [] \<and> bull_waiting w' = [])
   \<and> (\<exists>w'. analyseUrl example_clock example_rnd accept_url 0 (JStr ''https://example.com'')
           (alloc_init, empty_world\<lparr>queue_faults := [True]\<rparr>)
         = Some (respond 503 [(''error'', JStr QUEUE_UNAVAILABLE),
                   (''message'', JStr ''Queue system is temporarily unavailable. Please try again later.'')],
                 \<lparr>lastTimestamp = 1700000000000, sequence = 999999, reads = Suc 0, draws = Suc 0\<rparr>, w')
        \<and> bull_jobs w' = []
        \<and> (\<exists>r. map_of (redis w') ''job:1700000000000999999'' = Some r
               \<and> field r ''status'' = JStr ''FAILED''
               \<and> field r ''error'' = JStr ''Failed to queue job''))"
proof -
  let ?url = "JStr ''https://example.com''" and ?jid = "''1700000000000999999''"
  let ?a1 = "\<lparr>lastTimestamp = 1700000000000, sequence = 999999, reads = Suc 0, draws = Suc 0\<rparr>"
  let ?wS = "empty_world\<lparr>redis_faults := [True]\<rparr>"
  let ?wQ = "empty_world\<lparr>queue_faults := [True]\<rparr>"
  let ?rec = "[(''job_id'', JStr ?jid), (''url'', ?url), (''status'', JStr PENDING)]"
  let ?data = "[(''job_id'', JStr ?jid), (''url'', ?url)]"
  have h: "valid (accept_url ?url) \<and> generateNumericJobId example_clock example_rnd alloc_init = Some (?jid, ?a1)"
    by (simp add: accept_url_def example_allocation)
  have k: "getJobKey (JStr ?jid) = ''job:1700000000000999999''"
    by (simp add: getJobKey_def KEY_PREFIX_def)
  have cS: "\<exists>e. fst (createJob ?rec ?wS) = Inl e"
    by (simp add: createJob_eq Let_def field_def PENDING_def next_fault_def empty_world_def)
  have cQ: "\<exists>j. fst (createJob ?rec ?wQ) = Inr j"
    by (simp add: createJob_eq Let_def field_def PENDING_def next_fault_def empty_world_def
          getJobKey_def KEY_PREFIX_def)
  have rQ: "redis_faults (snd (createJob ?rec ?wQ)) = []" "queue_faults (snd (createJob ?rec ?wQ)) = [True]"
    "bull_jobs (snd (createJob ?rec ?wQ)) = []"
    by (simp_all add: createJob_eq Let_def field_def PENDING_def next_fault_def empty_world_def
          getJobKey_def KEY_PREFIX_def)
  have eQ': "(\<exists>e. fst (enqueue 0 ?data w1) = Inl e) \<and> redis_faults (snd (enqueue 0 ?data w1)) = []"
    if "redis_faults w1 = []" "queue_faults w1 = [True]" for w1
    using that by (simp add: enqueue_def queue_add_eq field_def next_fault_def)
  have eQ: "\<exists>e. fst (enqueue 0 ?data (snd (createJob ?rec ?wQ))) = Inl e"
    "redis_faults (snd (enqueue 0 ?data (snd (createJob ?rec ?wQ)))) = []"
    using eQ' [OF rQ(1,2)] by blast+
  note tS = analyseUrl_failure_handling [of accept_url ?url example_clock example_rnd alloc_init ?jid ?a1 0 ?wS]
  note tQ = analyseUrl_failure_handling [of accept_url ?url example_clock example_rnd alloc_init ?jid ?a1 0 ?wQ]
  have bS: "bull_jobs ?wS = []" "bull_waiting ?wS = []" by (simp_all add: empty_world_def)
  have bQ: "bull_jobs ?wQ = []" by (simp add: empty_world_def)
  have "\<exists>w'. analyseUrl example_clock example_rnd accept_url 0 ?url (alloc_init, ?wS)
         = Some (respond 503 [(''error'', JStr STORAGE_UNAVAILABLE),
                              (''message'', JStr ''Failed to create job. Please try again.'')], ?a1, w')
        \<and> bull_jobs w' = [] \<and> bull_waiting w' = []"
  proof -
    from tS h obtain out w' where
      an: "analyseUrl example_clock example_rnd accept_url 0 ?url (alloc_init, ?wS) = Some (out, ?a1, w')"
      and sf: "\<forall>e. fst (createJob ?rec ?wS) = Inl e
             \<longrightarrow> out = respond 503 [(''error'', JStr STORAGE_UNAVAILABLE),
                                    (''message'', JStr ''Failed to create job. Please try again.'')]
               \<and> bull_jobs w' = bull_jobs ?wS \<and> bull_waiting w' = bull_waiting ?wS
               \<and> list_all is_storage_event (new_effects ?wS w')"
      by blast
    from sf cS have "out = respond 503 [(''error'', JStr STORAGE_UNAVAILABLE),
                                    (''message'', JStr ''Failed to create job. Please try again.'')]"
      "bull_jobs w' = []" "bull_waiting w' = []"
      using bS by auto
    then show ?thesis using an by blast
  qed
  moreover have "\<exists>w'. analyseUrl example_clock example_rnd accept_url 0 ?url (alloc_init, ?wQ)
         = Some (respond 503 [(''error'', JStr QUEUE_UNAVAILABLE),
                   (''message'', JStr ''Queue system is temporarily unavailable. Please try again later.'')],
                 ?a1, w')
        \<and> bull_jobs w' = []
        \<and> (\<exists>r. map_of (redis w') (getJobKey (JStr ?jid)) = Some r
               \<and> field r ''status'' = JStr FAILED
               \<and> field r ''error'' = JStr ''Failed to queue job'')"
  proof -
    let ?upd = "[(''status'', JStr FAILED), (''error'', JStr ''Failed to queue job'')]"
    from tQ h obtain out w' where
      an: "analyseUrl example_clock example_rnd accept_url 0 ?url (alloc_init, ?wQ) = Some (out, ?a1, w')"
      and qf: "\<forall>j e. fst (createJob ?rec ?wQ) = Inr j
               \<and> fst (enqueue 0 ?data (snd (createJob ?rec ?wQ))) = Inl e
             \<longrightarrow> out = respond 503 [(''error'', JStr QUEUE_UNAVAILABLE),
                     (''message'', JStr ''Queue system is temporarily unavailable. Please try again later.'')]
               \<and> w' = snd (updateJob (JStr ?jid) ?upd (snd (enqueue 0 ?data (snd (createJob ?rec ?wQ)))))
               \<and> bull_jobs w' = bull_jobs ?wQ \<and> bull_waiting w' = bull_waiting ?wQ
               \<and> ((\<exists>u. fst (updateJob (JStr ?jid) ?upd
                             (snd (enqueue 0 ?data (snd (createJob ?rec ?wQ))))) = Inr u)
                    \<or> redis_faults (snd (enqueue 0 ?data (snd (createJob ?rec ?wQ)))) = []
                  \<longrightarrow> (\<exists>r. map_of (redis w') (getJobKey (JStr ?jid)) = Some r
                         \<and> field r ''status'' = JStr FAILED
                         \<and> field r ''error'' = JStr ''Failed to queue job''))"
      by blast
    from qf cQ eQ have "out = respond 503 [(''error'', JStr QUEUE_UNAVAILABLE),
                     (''message'', JStr ''Queue system is temporarily unavailable. Please try again later.'')]"
      "bull_jobs w' = []"
      "\<exists>r. map_of (redis w') (getJobKey (JStr ?jid)) = Some r
                         \<and> field r ''status'' = JStr FAILED
                         \<and> field r ''error'' = JStr ''Failed to queue job''"
      using bQ by auto
    then show ?thesis using an by blast
  qed
  ultimately show ?thesis unfolding k FAILED_def by blast
qed

section \<open>The record a submission stores\<close>

lemma submit_job_accepted:
  assumes c: "createJob [(''job_id'', JStr job_id), (''url'', url), (''status'', JStr PENDING)] w = (Inr j, w1)"
      and q: "enqueue now [(''job_id'', JStr job_id), (''url'', url)] w1 = (Inr x, w2)"
  shows "submit_job now job_id url w =
           (respond 202 [(''job_id'', JStr job_id), (''status'', JStr PENDING),
                         (''message'', JStr ''Job queued successfully'')], w2)"
    and "map_of (redis w2) (getJobKey (JStr job_id))
           = Some (json_roundtrip [(''job_id'', JStr job_id), (''url'', url), (''status'', JStr PENDING)])"
    and "field (json_roundtrip [(''job_id'', JStr job_id), (''url'', url), (''status'', JStr PENDING)])
           ''created_at'' = JUndefined"
proof -
  show "submit_job now job_id url w =
           (respond 202 [(''job_id'', JStr job_id), (''status'', JStr PENDING),
                         (''message'', JStr ''Job queued successfully'')], w2)"
    using c q by (simp add: submit_job_def)
  show "map_of (redis w2) (getJobKey (JStr job_id))
           = Some (json_roundtrip [(''job_id'', JStr job_id), (''url'', url), (''status'', JStr PENDING)])"
    using createJob_result [OF c] enqueue_result [OF q] by (simp add: field_def map_of_put)
  show "field (json_roundtrip [(''job_id'', JStr job_id), (''url'', url), (''status'', JStr PENDING)])
           ''created_at'' = JUndefined"
    by (simp add: json_roundtrip_def field_def)
qed

text \<open>
  C9 fails on the code. A submission that is accepted stores the record
  \<open>{job_id, url, status}\<close> and nothing else: \<open>analyseUrl\<close> passes these three
  properties to \<open>createJob\<close>, which stores what it is given. Reading \<open>created_at\<close>
  from the stored record gives \<^verbatim>\<open>undefined\<close>.
\<close>

theorem submitted_record_lacks_created_at:
  "\<exists>w'. analyseUrl example_clock example_rnd accept_url 0 (JStr ''https://example.com'')
          (alloc_init, empty_world)
        = Some (Respond 202 [(''job_id'', JStr ''1700000000000999999''), (''status'', JStr ''PENDING''),
                             (''message'', JStr ''Job queued successfully'')],
                \<lparr>lastTimestamp = 1700000000000, sequence = 999999, reads = Suc 0, draws = Suc 0\<rparr>, w')
      \<and> map_of (redis w') ''job:1700000000000999999''
          = Some [(''job_id'', JStr ''1700000000000999999''), (''url'', JStr ''https://example.com''),
                  (''status'', JStr ''PENDING'')]
      \<and> field [(''job_id'', JStr ''1700000000000999999''), (''url'', JStr ''https://example.com''),
                 (''status'', JStr ''PENDING'')] ''created_at'' = JUndefined"
proof -
  let ?url = "JStr ''https://example.com''" and ?jid = "''1700000000000999999''"
  let ?rec = "[(''job_id'', JStr ?jid), (''url'', ?url), (''status'', JStr PENDING)]"
  let ?data = "[(''job_id'', JStr ?jid), (''url'', ?url)]"
  obtain c w1 where c: "createJob ?rec empty_world = (c, w1)" by (cases "createJob ?rec empty_world")
  have "\<exists>j. c = Inr j" "queue_faults w1 = []"
    using c
    by (auto simp add: createJob_eq Let_def field_def PENDING_def next_fault_def empty_world_def
          getJobKey_def KEY_PREFIX_def)
  then obtain j where c': "createJob ?rec empty_world = (Inr j, w1)" and qf: "queue_faults w1 = []"
    using c by blast
  obtain q w2 where q: "enqueue 0 ?data w1 = (q, w2)" by (cases "enqueue 0 ?data w1")
  have "\<exists>x. q = Inr x"
    using q qf by (auto simp add: enqueue_def queue_add_eq field_def next_fault_def split: if_splits)
  then obtain x where q': "enqueue 0 ?data w1 = (Inr x, w2)" using q by blast
  note s = submit_job_accepted [OF c' q']
  have "analyseUrl example_clock example_rnd accept_url 0 ?url (alloc_init, empty_world)
        = Some (respond 202 [(''job_id'', JStr ?jid), (''status'', JStr PENDING),
                             (''message'', JStr ''Job queued successfully'')],
                \<lparr>lastTimestamp = 1700000000000, sequence = 999999, reads = Suc 0, draws = Suc 0\<rparr>, w2)"
    using s(1) by (simp add: analyseUrl_def accept_url_def example_allocation)
  moreover have "map_of (redis w2) ''job:1700000000000999999'' = Some (json_roundtrip ?rec)"
    using s(2) by (simp add: getJobKey_def KEY_PREFIX_def)
  ultimately show ?thesis
    by (intro exI [of _ w2]) (simp add: respond_def json_roundtrip_def PENDING_def field_def)
qed

section \<open>Status query\<close>

lemma queue_call_eq:
  "queue_call m jid w =
     (next_fault (queue_faults w),
      w\<lparr>queue_faults := tl (queue_faults w), effects := effects w @ [QueueCall m jid]\<rparr>)"
  by (simp add: queue_call_def)

lemma getJobInfo_frame:
  "redis (snd (getJobInfo job_id w)) = redis w
   \<and> redis_faults (snd (getJobInfo job_id w)) = redis_faults w
   \<and> bull_jobs (snd (getJobInfo job_id w)) = bull_jobs w
   \<and> bull_waiting (snd (getJobInfo job_id w)) = bull_waiting w"
  by (simp add: getJobInfo_def queue_call_eq Let_def split: option.splits prod.splits bool.splits)

text \<open>What the queue reports when it answers every call.\<close>

lemma getJobInfo_answering:
  assumes "queue_faults w = []"
  shows "found (fst (getJobInfo job_id w)) = (map_of (bull_jobs w) (js_string job_id) \<noteq> None)"
    and "position (fst (getJobInfo job_id w)) =
           (case map_of (bull_jobs w) (js_string job_id) of
              None \<Rightarrow> - 1
            | Some (st, t) \<Rightarrow>
                if st = ''waiting'' then findIndex (\<lambda>j. JStr j = job_id) (bull_waiting w) + 1
                else if st = ''active'' then 0 else - 1)"
  using assms
  by (simp_all add: getJobInfo_def queue_call_eq Let_def next_fault_def not_in_queue_def
        split: option.splits prod.splits bool.splits)

lemma getJobInfo_failing:
  assumes "next_fault (queue_faults w)"
  shows "fst (getJobInfo job_id w) = not_in_queue"
  using assms by (simp add: getJobInfo_def queue_call_eq split: bool.splits)

lemma getResults_pending:
  assumes "isValidJobId job_id" and "getJob job_id w = (Inr (Some job), w1)"
      and "field job ''status'' = JStr PENDING"
  shows "fst (getResults isoNow job_id w) =
           respond 200
             [(''job_id'', field job ''job_id''),
              (''status'', JStr (if found (fst (getJobInfo job_id w1))
                                   \<and> position (fst (getJobInfo job_id w1)) > 0
                                then PROCESSING else PENDING)),
              (''url'', field job ''url'')]"
  using assms
  by (cases "getJobInfo job_id w1") (simp add: getResults_def Let_def)

lemma getResults_reads_only:
  "redis (snd (getResults isoNow job_id w)) = redis w"
proof (cases "isValidJobId job_id")
  case False
  then show ?thesis by (simp add: getResults_def)
next
  case True
  obtain g w1 where g: "getJob job_id w = (g, w1)" by (cases "getJob job_id w")
  have r1: "redis w1 = redis w" using getJob_frame [of job_id w] g by simp
  have r2: "redis (snd (getJobInfo job_id w1)) = redis w" using getJobInfo_frame [of job_id w1] r1 by simp
  show ?thesis
  proof (cases g)
    case (Inl e)
    then show ?thesis using True g r1 by (simp add: getResults_def)
  next
    case (Inr v)
    show ?thesis
    proof (cases v)
      case None
      then show ?thesis using True g Inr r1 by (simp add: getResults_def)
    next
      case (Some job)
      then show ?thesis
        using True g Inr r1 r2
        by (cases "getJobInfo job_id w1") (simp add: getResults_def Let_def)
    qed
  qed
qed

text \<open>
  C5. The status query never changes the store. For a stored record with status PENDING
  that the query reads, the answer is 200 with the record's id and URL, and the status
  shown is PROCESSING exactly when the queue's report (\<open>getJobInfo\<close>) says the item was
  found with a position above 0; otherwise, for position 0 or -1 or an item not found, it
  is PENDING as stored. When the queue answers, the position is the place of the id in the
  waiting list, counted from 1, for a waiting job (0 if it is not listed), 0 for an active
  job and -1 for any other state or an unknown id; when the queue's first call fails the
  item counts as not found.
\<close>

theorem getResults_pending_view:
  "redis (snd (getResults isoNow job_id w)) = redis w
   \<and> (isValidJobId job_id \<and> fst (getJob job_id w) = Inr (Some job)
        \<and> field job ''status'' = JStr PENDING \<longrightarrow>
      fst (getResults isoNow job_id w) =
        respond 200
          [(''job_id'', field job ''job_id''),
           (''status'', JStr (if found (fst (getJobInfo job_id (snd (getJob job_id w))))
                                \<and> position (fst (getJobInfo job_id (snd (getJob job_id w)))) > 0
                             then PROCESSING else PENDING)),
           (''url'', field job ''url'')])
   \<and> (queue_faults w1 = [] \<longrightarrow>
        found (fst (getJobInfo job_id w1)) = (map_of (bull_jobs w1) (js_string job_id) \<noteq> None)
      \<and> position (fst (getJobInfo job_id w1)) =
           (case map_of (bull_jobs w1) (js_string job_id) of
              None \<Rightarrow> - 1
            | Some (st, t) \<Rightarrow>
                if st = ''waiting'' then findIndex (\<lambda>j. JStr j = job_id) (bull_waiting w1) + 1
                else if st = ''active'' then 0 else - 1))
   \<and> (next_fault (queue_faults w1) \<longrightarrow>
        \<not> found (fst (getJobInfo job_id w1)) \<and> position (fst (getJobInfo job_id w1)) = - 1)"
proof (intro conjI impI)
  show "redis (snd (getResults isoNow job_id w)) = redis w" by (rule getResults_reads_only)
next
  assume a: "isValidJobId job_id \<and> fst (getJob job_id w) = Inr (Some job)
        \<and> field job ''status'' = JStr PENDING"
  then have "getJob job_id w = (Inr (Some job), snd (getJob job_id w))"
    by (cases "getJob job_id w") simp
  then show "fst (getResults isoNow job_id w) =
        respond 200
          [(''job_id'', field job ''job_id''),
           (''status'', JStr (if found (fst (getJobInfo job_id (snd (getJob job_id w))))
                                \<and> position (fst (getJobInfo job_id (snd (getJob job_id w)))) > 0
                             then PROCESSING else PENDING)),
           (''url'', field job ''url'')]"
    using a by (intro getResults_pending) simp_all
next
  assume q: "queue_faults w1 = []"
  show "found (fst (getJobInfo job_id w1)) = (map_of (bull_jobs w1) (js_string job_id) \<noteq> None)"
    by (rule getJobInfo_answering(1) [OF q])
  show "position (fst (getJobInfo job_id w1)) =
           (case map_of (bull_jobs w1) (js_string job_id) of
              None \<Rightarrow> - 1
            | Some (st, t) \<Rightarrow>
                if st = ''waiting'' then findIndex (\<lambda>j. JStr j = job_id) (bull_waiting w1) + 1
                else if st = ''active'' then 0 else - 1)"
    by (rule getJobInfo_answering(2) [OF q])
next
  assume "next_fault (queue_faults w1)"
  then show "\<not> found (fst (getJobInfo job_id w1))" "position (fst (getJobInfo job_id w1)) = - 1"
    by (simp_all add: getJobInfo_failing not_in_queue_def)
qed

lemma example_id_valid: "isValidJobId (JStr ''1700000000000123456'')"
  by (simp add: isValidJobId_def matches_d19_def is_digit_def getTimestampFromJobId_def
        parseInt_def is_space_def decimal_value_def digit_val_def year2000_def year2100_def)

text \<open>
  The example record with its work item first in the waiting line is shown as
  PROCESSING; with the work item active (position 0) it is shown as PENDING; the store is
  the same after the query.
\<close>

theorem getResults_pending_view_witness:
  "fst (getResults ''2026-01-01T00:00:00.000Z'' (JStr ''1700000000000123456'')
         (example_world\<lparr>bull_jobs := [(''1700000000000123456'', ''waiting'', 0)],
                         bull_waiting := [''1700000000000123456'']\<rparr>))
     = Respond 200 [(''job_id'', JStr ''1700000000000123456''), (''status'', JStr ''PROCESSING''),
                    (''url'', JStr ''https://example.com'')]
   \<and> fst (getResults ''2026-01-01T00:00:00.000Z'' (JStr ''1700000000000123456'')
         (example_world\<lparr>bull_jobs := [(''1700000000000123456'', ''active'', 0)]\<rparr>))
     = Respond 200 [(''job_id'', JStr ''1700000000000123456''), (''status'', JStr ''PENDING''),
                    (''url'', JStr ''https://example.com'')]
   \<and> redis (snd (getResults ''2026-01-01T00:00:00.000Z'' (JStr ''1700000000000123456'')
         (example_world\<lparr>bull_jobs := [(''1700000000000123456'', ''waiting'', 0)],
                         bull_waiting := [''1700000000000123456'']\<rparr>)))
     = [(''job:1700000000000123456'', example_job)]"
proof -
  let ?jid = "JStr ''1700000000000123456''" and ?now = "''2026-01-01T00:00:00.000Z''"
  let ?wW = "example_world\<lparr>bull_jobs := [(''1700000000000123456'', ''waiting'', 0)],
                         bull_waiting := [''1700000000000123456'']\<rparr>"
  let ?wA = "example_world\<lparr>bull_jobs := [(''1700000000000123456'', ''active'', 0)]\<rparr>"
  have gW: "fst (getJob ?jid ?wW) = Inr (Some example_job)"
    "queue_faults (snd (getJob ?jid ?wW)) = []"
    "bull_jobs (snd (getJob ?jid ?wW)) = [(''1700000000000123456'', ''waiting'', 0)]"
    "bull_waiting (snd (getJob ?jid ?wW)) = [''1700000000000123456'']"
    by (simp_all add: getJob_eq Let_def next_fault_def getJobKey_def KEY_PREFIX_def example_world_def)
  have gA: "fst (getJob ?jid ?wA) = Inr (Some example_job)"
    "queue_faults (snd (getJob ?jid ?wA)) = []"
    "bull_jobs (snd (getJob ?jid ?wA)) = [(''1700000000000123456'', ''active'', 0)]"
    by (simp_all add: getJob_eq Let_def next_fault_def getJobKey_def KEY_PREFIX_def example_world_def)
  have p: "field example_job ''status'' = JStr PENDING"
    by (simp add: example_job_def field_def PENDING_def)
  note tW = getResults_pending_view [of ?now ?jid ?wW example_job "snd (getJob ?jid ?wW)"]
  note tA = getResults_pending_view [of ?now ?jid ?wA example_job "snd (getJob ?jid ?wA)"]
  have qW: "found (fst (getJobInfo ?jid (snd (getJob ?jid ?wW))))"
    "position (fst (getJobInfo ?jid (snd (getJob ?jid ?wW)))) = 1"
    using tW gW(2) by (simp_all add: gW(3,4))
  have qA: "position (fst (getJobInfo ?jid (snd (getJob ?jid ?wA)))) = 0"
    using tA gA(2) by (simp add: gA(3))
  have "fst (getResults ?now ?jid ?wW) =
          respond 200 [(''job_id'', field example_job ''job_id''), (''status'', JStr PROCESSING),
                       (''url'', field example_job ''url'')]"
    using tW example_id_valid gW(1) p qW by simp
  moreover have "fst (getResults ?now ?jid ?wA) =
          respond 200 [(''job_id'', field example_job ''job_id''), (''status'', JStr PENDING),
                       (''url'', field example_job ''url'')]"
    using tA example_id_valid gA(1) p qA by simp
  moreover have "redis (snd (getResults ?now ?jid ?wW)) = [(''job:1700000000000123456'', example_job)]"
    using tW by (simp add: example_world_def)
  ultimately show ?thesis
    by (simp add: respond_def json_roundtrip_def example_job_def field_def PENDING_def PROCESSING_def)
qed

section \<open>Cleanup sweeper\<close>

text \<open>
  What \<open>cleanupJob\<close> does with a job whose work item the queue does not find, when the
  store answers: it marks the record FAILED with error type TIMEOUT_ERROR and the message
  that asks for a retry. This is the step of the sweep that \<open>runCleanup\<close> never reaches.
\<close>

lemma cleanupJob_marks_lost_job:
  assumes "truthy (field job ''job_id'')" and "redis_faults w = []"
      and "map_of (redis w) (getJobKey (field job ''job_id'')) = Some stored"
      and "\<not> found (fst (getJobInfo (field job ''job_id'') w))"
  shows "fst (cleanupJob now isoNow date_ms job w)"
    and "\<exists>r. map_of (redis (snd (cleanupJob now isoNow date_ms job w))) (getJobKey (field job ''job_id''))
              = Some r
            \<and> field r ''status'' = JStr FAILED \<and> field r ''error_type'' = JStr ''TIMEOUT_ERROR''
            \<and> field r ''error'' = JStr ''Job lost in queue after timeout. Please retry.''"
proof -
  let ?jid = "field job ''job_id''"
  let ?upd = "[(''status'', JStr FAILED),
               (''error'', JStr ''Job lost in queue after timeout. Please retry.''),
               (''error_type'', JStr ''TIMEOUT_ERROR''),
               (''failed_at'', JStr isoNow), (''updated_at'', JStr isoNow)]"
  obtain qi w1 where q: "getJobInfo ?jid w = (qi, w1)" by (cases "getJobInfo ?jid w")
  have nf: "\<not> found qi" using assms(4) q by simp
  have fr: "redis w1 = redis w" "redis_faults w1 = []"
    using getJobInfo_frame [of ?jid w] q assms(2) by simp_all
  have m: "map_of (redis w1) (getJobKey ?jid) = Some stored" using fr(1) assms(3) by simp
  note u = updateJob_healthy [OF assms(1) fr(2) m, of ?upd]
  obtain x w2 where x: "updateJob ?jid ?upd w1 = (x, w2)" by (cases "updateJob ?jid ?upd w1")
  have xr: "x = Inr (spread stored ?upd)"
    "redis w2 = put (getJobKey ?jid) (json_roundtrip (spread stored ?upd)) (redis w1)"
    using u x by simp_all
  have c: "cleanupJob now isoNow date_ms job w = (True, w2)"
    using q nf x xr(1) by (simp add: cleanupJob_def cleanupJob_try_def)
  show "fst (cleanupJob now isoNow date_ms job w)" using c by simp
  let ?r = "json_roundtrip (spread stored ?upd)"
  have "map_of (redis w2) (getJobKey ?jid) = Some ?r" using xr(2) by (simp add: map_of_put)
  moreover have "field ?r ''status'' = JStr FAILED" "field ?r ''error_type'' = JStr ''TIMEOUT_ERROR''"
    "field ?r ''error'' = JStr ''Job lost in queue after timeout. Please retry.''"
    by (simp_all add: field_json_roundtrip field_spread)
  ultimately show "\<exists>r. map_of (redis (snd (cleanupJob now isoNow date_ms job w))) (getJobKey ?jid) = Some r
            \<and> field r ''status'' = JStr FAILED \<and> field r ''error_type'' = JStr ''TIMEOUT_ERROR''
            \<and> field r ''error'' = JStr ''Job lost in queue after timeout. Please retry.''"
    using c by simp
qed

lemma findOldPendingJobs_not_exported: "''findOldPendingJobs'' \<notin> set storage_exports"
  by (simp add: storage_exports_def)

text \<open>
  C4 fails on the code. \<open>runCleanup\<close> begins by calling
  \<open>storageService.findOldPendingJobs\<close>, which the storage module does not export: the
  call throws, the outer handler logs the error, and the run ends there. Whatever such a
  function would return, the run changes neither a record nor the statistics. On the
  example world, which holds a PENDING record whose work item the queue does not have,
  the record is still PENDING after the run, although \<open>cleanupJob\<close> on that record would
  have marked it FAILED.
\<close>

theorem runCleanup_sweeps_nothing:
  "runCleanup findOldPendingJobs now isoNow date_ms (stats, w) = (stats, w)
   \<and> map_of (redis (snd (runCleanup findOldPendingJobs now isoNow date_ms (stats, example_world))))
        ''job:1700000000000123456'' = Some example_job
   \<and> field example_job ''status'' = JStr ''PENDING''
   \<and> \<not> found (fst (getJobInfo (JStr ''1700000000000123456'') example_world))
   \<and> fst (cleanupJob now isoNow date_ms example_job example_world)"
proof -
  have r: "runCleanup findOldPendingJobs now isoNow date_ms (stats, w') = (stats, w')" for w'
    using findOldPendingJobs_not_exported by (simp add: runCleanup_def)
  have j: "field example_job ''job_id'' = JStr ''1700000000000123456''"
    by (simp add: example_job_def field_def)
  have nf: "\<not> found (fst (getJobInfo (JStr ''1700000000000123456'') example_world))"
    by (simp add: getJobInfo_answering(1) example_world_def)
  have c: "fst (cleanupJob now isoNow date_ms example_job example_world)"
    by (rule cleanupJob_marks_lost_job(1) [where stored = example_job])
       (simp_all add: j nf, simp_all add: example_world_def getJobKey_def KEY_PREFIX_def)
  show ?thesis
    using r nf c by (simp add: example_world_def example_job_def field_def)
qed

end
